(* ===== verification/Prelude.thy ===== *)
theory Prelude
  imports Main "HOL-Library.Multiset" "HOL-Library.Word"
begin

text \<open>
  What the component theories share: Rust's \<open>Result\<close> as a sum with its combinators, the
  machine-integer operations of the Rust standard library that the wallet uses, written out over
  natural numbers with the width as an argument, and generic facts on lists, sums and sorting.

  A fallible function returns \<open>'e + 'a\<close>: \<open>Inl\<close> is \<open>Err\<close>, \<open>Inr\<close> is \<open>Ok\<close>. Where the code can
  also panic (a failed \<open>expect\<close>, an overflow of an unchecked \<open>+\<close> or \<open>-\<close>), the error type is
  \<open>'e failure\<close> and the panic is its value \<open>Panic\<close>, so that ``does not panic'' can be stated.
\<close>

section \<open>Results\<close>

named_theorems result_simps \<open>equations of the result combinators\<close>
named_theorems arith_simps \<open>definitions of the checked integer operations\<close>

definition and_then :: "'e + 'a \<Rightarrow> ('a \<Rightarrow> 'e + 'b) \<Rightarrow> 'e + 'b" where
  "and_then r f = (case r of Inl e \<Rightarrow> Inl e | Inr x \<Rightarrow> f x)"

lemma and_then_Inl [simp]: "and_then (Inl e) f = Inl e"
  by (simp add: and_then_def)

lemma and_then_Inr [simp]: "and_then (Inr x) f = f x"
  by (simp add: and_then_def)

lemma and_then_cong [fundef_cong]:
  "r = r' \<Longrightarrow> (\<And>x. r' = Inr x \<Longrightarrow> f x = g x) \<Longrightarrow> and_then r f = and_then r' g"
  by (cases r') (auto simp: and_then_def)

lemma and_then_eq_Inr [result_simps]:
  "and_then r f = Inr y \<longleftrightarrow> (\<exists>x. r = Inr x \<and> f x = Inr y)"
  by (cases r) auto

lemma and_then_eq_Inl [result_simps]:
  "and_then r f = Inl e \<longleftrightarrow> r = Inl e \<or> (\<exists>x. r = Inr x \<and> f x = Inl e)"
  by (cases r) auto

definition ok_or :: "'a option \<Rightarrow> 'e \<Rightarrow> 'e + 'a" where
  "ok_or m e = (case m of None \<Rightarrow> Inl e | Some x \<Rightarrow> Inr x)"

lemma ok_or_simps [simp]: "ok_or None e = Inl e" "ok_or (Some x) e = Inr x"
  by (simp_all add: ok_or_def)

lemma ok_or_eq_Inr [result_simps]: "ok_or m e = Inr x \<longleftrightarrow> m = Some x"
  by (cases m) auto

lemma ok_or_eq_Inl [result_simps]: "ok_or m e = Inl e' \<longleftrightarrow> m = None \<and> e' = e"
  by (cases m) auto

text \<open>\<open>iter.collect::<Result<Vec<_>, _>>()\<close>: the first error in iteration order wins.\<close>

fun collect_results :: "('e + 'a) list \<Rightarrow> 'e + 'a list" where
  "collect_results [] = Inr []"
| "collect_results (r # rs) =
     and_then r (\<lambda>x. and_then (collect_results rs) (\<lambda>xs. Inr (x # xs)))"

lemma collect_results_Inr:
  "collect_results rs = Inr xs \<longleftrightarrow> rs = map Inr xs"
proof (induction rs arbitrary: xs)
  case Nil
  then show ?case by auto
next
  case (Cons r rs)
  show ?case by (cases xs) (auto simp: and_then_eq_Inr Cons.IH)
qed

lemma collect_results_map_Inr [simp]: "collect_results (map (\<lambda>x. Inr (f x)) xs) = Inr (map f xs)"
  by (induction xs) auto

text \<open>\<open>iter.try_fold(init, f)\<close>.\<close>

fun try_fold :: "('s \<Rightarrow> 'a \<Rightarrow> 'e + 's) \<Rightarrow> 's \<Rightarrow> 'a list \<Rightarrow> 'e + 's" where
  "try_fold f s [] = Inr s"
| "try_fold f s (x # xs) = and_then (f s x) (\<lambda>s'. try_fold f s' xs)"

lemma try_fold_cong [fundef_cong]:
  "xs = ys \<Longrightarrow> s = t \<Longrightarrow> (\<And>a x. x \<in> set ys \<Longrightarrow> f a x = g a x) \<Longrightarrow>
   try_fold f s xs = try_fold g t ys"
  by (induction xs arbitrary: s t ys) (auto intro: and_then_cong)

lemma try_fold_append:
  "try_fold f s (xs @ ys) = and_then (try_fold f s xs) (\<lambda>t. try_fold f t ys)"
proof (induction xs arbitrary: s)
  case (Cons x xs)
  then show ?case by (cases "f s x") auto
qed simp

text \<open>
  Panics. \<open>outcome E P r\<close> says that an error of \<open>r\<close> satisfies \<open>E\<close> and a result satisfies \<open>P\<close>;
  its rules walk through a chain of \<open>and_then\<close> once and give both the functional postcondition
  and the absence of panics.
\<close>

datatype 'e failure = Err 'e | Panic

definition outcome :: "('e \<Rightarrow> bool) \<Rightarrow> ('a \<Rightarrow> bool) \<Rightarrow> 'e + 'a \<Rightarrow> bool" where
  "outcome E P r = (case r of Inl e \<Rightarrow> E e | Inr x \<Rightarrow> P x)"

abbreviation no_panic :: "('a \<Rightarrow> bool) \<Rightarrow> 'e failure + 'a \<Rightarrow> bool" where
  "no_panic \<equiv> outcome (\<lambda>e. e \<noteq> Panic)"

lemma outcome_simps [simp]:
  "outcome E P (Inl e) \<longleftrightarrow> E e" "outcome E P (Inr x) \<longleftrightarrow> P x"
  by (simp_all add: outcome_def)

lemma outcome_and_then:
  "outcome E P r \<Longrightarrow> (\<And>x. r = Inr x \<Longrightarrow> P x \<Longrightarrow> outcome E Q (f x)) \<Longrightarrow> outcome E Q (and_then r f)"
  by (cases r) auto

lemma outcome_mono: "outcome E P r \<Longrightarrow> (\<And>x. P x \<Longrightarrow> Q x) \<Longrightarrow> outcome E Q r"
  by (cases r) auto

lemma outcome_InrD: "outcome E P r \<Longrightarrow> r = Inr x \<Longrightarrow> P x"
  by simp

lemma outcome_try_fold:
  assumes "I s" and "\<And>t x. x \<in> set xs \<Longrightarrow> I t \<Longrightarrow> outcome E I (f t x)"
  shows "outcome E I (try_fold f s xs)"
  using assms
proof (induction xs arbitrary: s)
  case (Cons x xs)
  show ?case
    using Cons.prems by (auto intro!: outcome_and_then [where P = I] Cons.IH)
qed simp

text \<open>An invariant of \<open>for (i, x) in xs.iter().enumerate()\<close> when no step fails.\<close>

lemma try_fold_enumerate:
  assumes "I n s"
    and "\<And>i t. i < length xs \<Longrightarrow> I (n + i) t \<Longrightarrow> \<exists>t'. f t (n + i, xs ! i) = Inr t' \<and> I (Suc (n + i)) t'"
  shows "\<exists>t. try_fold f s (enumerate n xs) = Inr t \<and> I (n + length xs) t"
  using assms
proof (induction xs arbitrary: n s)
  case (Cons x xs)
  from Cons.prems(2) [of 0 s] Cons.prems(1) obtain t where
    t: "f s (n, x) = Inr t" "I (Suc n) t" by auto
  have "\<exists>u. try_fold f t (enumerate (Suc n) xs) = Inr u \<and> I (Suc n + length xs) u"
    using t(2)
  proof (rule Cons.IH)
    fix i u assume "i < length xs" "I (Suc n + i) u"
    then show "\<exists>t'. f u (Suc n + i, xs ! i) = Inr t' \<and> I (Suc (Suc n + i)) t'"
      using Cons.prems(2) [of "Suc i" u] by simp
  qed
  then show ?case using t by simp
qed simp

text \<open>The same for a loop whose invariant speaks of the elements processed so far.\<close>

lemma try_fold_prefix:
  assumes "I [] s"
    and "\<And>pre x post t. xs = pre @ x # post \<Longrightarrow> I pre t \<Longrightarrow> \<exists>t'. f t x = Inr t' \<and> I (pre @ [x]) t'"
  shows "\<exists>t. try_fold f s xs = Inr t \<and> I xs t"
proof -
  have "\<exists>t. try_fold f s ys = Inr t \<and> I ys t" if "xs = ys @ zs" for ys zs
    using that
  proof (induction ys arbitrary: zs rule: rev_induct)
    case Nil
    then show ?case using assms(1) by simp
  next
    case (snoc y ys)
    obtain t where t: "try_fold f s ys = Inr t" "I ys t" using snoc.IH [of "y # zs"] snoc.prems by auto
    obtain t' where "f t y = Inr t'" "I (ys @ [y]) t'" using assms(2) [of ys y zs t] snoc.prems t(2) by auto
    then show ?case using t(1) by (simp add: try_fold_append)
  qed
  from this [of xs "[]"] show ?thesis by simp
qed

section \<open>Machine integers\<close>

text \<open>
  An unsigned \<open>w\<close>-bit integer is a \<open>nat\<close>; the operations below are the ones of Rust's standard
  library. \<open>saturating_sub\<close> is subtraction on \<open>nat\<close>.
\<close>

definition checked_add :: "nat \<Rightarrow> nat \<Rightarrow> nat \<Rightarrow> nat option" where
  "checked_add w a b = (if a + b < 2 ^ w then Some (a + b) else None)"

definition checked_sub :: "nat \<Rightarrow> nat \<Rightarrow> nat option" where
  "checked_sub a b = (if b \<le> a then Some (a - b) else None)"

definition checked_mul :: "nat \<Rightarrow> nat \<Rightarrow> nat \<Rightarrow> nat option" where
  "checked_mul w a b = (if a * b < 2 ^ w then Some (a * b) else None)"

definition saturating_add :: "nat \<Rightarrow> nat \<Rightarrow> nat \<Rightarrow> nat" where
  "saturating_add w a b = min (a + b) (2 ^ w - 1)"

abbreviation (input) saturating_sub :: "nat \<Rightarrow> nat \<Rightarrow> nat" where
  "saturating_sub a b \<equiv> a - b"

text \<open>Unchecked \<open>+\<close>, \<open>*\<close> and \<open>-\<close>: an overflow is a panic.\<close>

definition add_u :: "nat \<Rightarrow> nat \<Rightarrow> nat \<Rightarrow> 'e failure + nat" where
  "add_u w a b = ok_or (checked_add w a b) Panic"

definition sub_u :: "nat \<Rightarrow> nat \<Rightarrow> 'e failure + nat" where
  "sub_u a b = ok_or (checked_sub a b) Panic"

definition sum_u :: "nat \<Rightarrow> nat list \<Rightarrow> 'e failure + nat" where
  "sum_u w xs = try_fold (add_u w) 0 xs"

declare checked_add_def [arith_simps] checked_sub_def [arith_simps] checked_mul_def [arith_simps]
  add_u_def [arith_simps] sub_u_def [arith_simps]

lemma checked_add_SomeD: "checked_add w a b = Some c \<Longrightarrow> c = a + b \<and> a + b < 2 ^ w"
  by (auto simp: checked_add_def split: if_splits)

lemma checked_sub_SomeD: "checked_sub a b = Some c \<Longrightarrow> c = a - b \<and> b \<le> a"
  by (auto simp: checked_sub_def split: if_splits)

lemma checked_mul_SomeD: "checked_mul w a b = Some c \<Longrightarrow> c = a * b \<and> a * b < 2 ^ w"
  by (auto simp: checked_mul_def split: if_splits)

lemma add_u_eq [simp]: "a + b < 2 ^ w \<Longrightarrow> add_u w a b = Inr (a + b)"
  by (simp add: arith_simps)

lemma add_u_InrD: "add_u w a b = Inr c \<Longrightarrow> c = a + b \<and> a + b < 2 ^ w"
  by (auto simp: add_u_def ok_or_eq_Inr dest: checked_add_SomeD)

lemma sub_u_eq [simp]: "b \<le> a \<Longrightarrow> sub_u a b = Inr (a - b)"
  by (simp add: arith_simps)

lemma sub_u_InrD: "sub_u a b = Inr c \<Longrightarrow> c = a - b \<and> b \<le> a"
  by (auto simp: sub_u_def ok_or_eq_Inr dest: checked_sub_SomeD)

lemma try_fold_add_u:
  "a + sum_list xs < 2 ^ w \<Longrightarrow> try_fold (add_u w) a xs = Inr (a + sum_list xs)"
  by (induction xs arbitrary: a) (simp_all add: add.assoc)

lemma sum_u_eq [simp]: "sum_list xs < 2 ^ w \<Longrightarrow> sum_u w xs = Inr (sum_list xs)"
  by (simp add: sum_u_def try_fold_add_u)

lemma try_fold_add_u_InrD:
  "try_fold (add_u w) a xs = Inr s \<Longrightarrow> s = a + sum_list xs"
proof (induction xs arbitrary: a)
  case (Cons x xs)
  then show ?case by (fastforce simp: and_then_eq_Inr dest: add_u_InrD)
qed simp

lemma sum_u_InrD: "sum_u w xs = Inr s \<Longrightarrow> s = sum_list xs"
  unfolding sum_u_def by (drule try_fold_add_u_InrD) simp

text \<open>Sums with an error of the caller's, as the code's \<open>checked_sum\<close> and \<open>try_fold\<close> do.\<close>

definition checked_sum :: "nat list \<Rightarrow> 'e \<Rightarrow> 'e + nat" where
  "checked_sum values e = try_fold (\<lambda>total value. ok_or (checked_add 64 total value) e) 0 values"

lemma try_fold_checked_add:
  assumes "a < 2 ^ 64"
  shows "try_fold (\<lambda>total value. ok_or (checked_add 64 total value) e) a xs =
    (if a + sum_list xs < 2 ^ 64 then Inr (a + sum_list xs) else Inl e)"
  using assms
proof (induction xs arbitrary: a)
  case (Cons x xs)
  show ?case
  proof (cases "a + x < 2 ^ 64")
    case True
    then have "ok_or (checked_add 64 a x) e = Inr (a + x)" by (simp add: checked_add_def)
    then show ?thesis using Cons.IH [OF True] by (simp add: add.assoc)
  next
    case False
    then show ?thesis by (simp add: checked_add_def)
  qed
qed simp

lemma checked_sum_eq:
  "checked_sum xs e = (if sum_list xs < 2 ^ 64 then Inr (sum_list xs) else Inl e)"
  unfolding checked_sum_def by (subst try_fold_checked_add) simp_all

section \<open>Lists\<close>

lemma sum_list_take_drop: "sum_list (take n xs) + sum_list (drop n xs) = (sum_list xs :: nat)"
  by (metis append_take_drop_id sum_list_append)

lemma member_le_sum_list_nat: "x \<in> set xs \<Longrightarrow> (x :: nat) \<le> sum_list xs"
  by (simp add: member_le_sum_list)

lemma sum_list_mset_eq: "mset xs = mset ys \<Longrightarrow> sum_list xs = (sum_list ys :: nat)"
  by (metis sum_mset_sum_list)

lemma in_set_map_filter: "y \<in> set (List.map_filter f xs) \<longleftrightarrow> (\<exists>x \<in> set xs. f x = Some y)"
  by (force simp: map_filter_def)

lemma mset_remove_nth:
  assumes "i < length xs"
  shows "mset (take i xs @ drop (Suc i) xs) + {#xs ! i#} = mset xs"
proof -
  have "mset xs = mset (take i xs @ xs ! i # drop (Suc i) xs)"
    by (rule arg_cong [OF id_take_nth_drop [OF assms]])
  then show ?thesis by simp
qed

lemma sorted_last_greatest: "sorted xs \<Longrightarrow> x \<in> set xs \<Longrightarrow> x \<le> last xs"
  by (induction xs) auto

text \<open>Descending sorts. On integers the order of equal elements cannot be seen.\<close>

definition sort_desc :: "nat list \<Rightarrow> nat list" where
  "sort_desc xs = rev (sort xs)"

lemma mset_sort_desc [simp]: "mset (sort_desc xs) = mset xs"
  by (simp add: sort_desc_def)

lemma set_sort_desc [simp]: "set (sort_desc xs) = set xs"
  by (simp add: sort_desc_def)

lemma length_sort_desc [simp]: "length (sort_desc xs) = length xs"
  by (simp add: sort_desc_def)

lemma sum_list_sort_desc [simp]: "sum_list (sort_desc xs) = sum_list xs"
  by (rule sum_list_mset_eq) simp

lemma sorted_sort_desc [simp]: "sorted_wrt (\<ge>) (sort_desc xs)"
  by (simp add: sort_desc_def sorted_wrt_rev)

lemma sort_desc_mset_eq: "mset xs = mset ys \<Longrightarrow> sort_desc xs = sort_desc ys"
  unfolding sort_desc_def by (metis properties_for_sort sorted_sort mset_sort)

lemma sort_mset_eq: "mset xs = mset ys \<Longrightarrow> sort xs = sort (ys :: 'a :: linorder list)"
  by (metis properties_for_sort sorted_sort mset_sort)

lemma sort_desc_id: "sorted_wrt (\<ge>) xs \<Longrightarrow> sort_desc xs = xs"
  unfolding sort_desc_def
  by (metis mset_rev properties_for_sort rev_rev_ident sorted_wrt_rev)

end
