(* ===== verification/MigrationPolicy.thy ===== *)
theory MigrationPolicy
  imports Prelude
begin

text \<open>
  The constants and timing policies of the Orchard-to-Ironwood migration
  (\<open>rust/src/wallet/sync/migration/policy.rs\<close> and the pure part of
  \<open>preparation_policy.rs\<close>). Heights and delays are \<open>u32\<close>, amounts \<open>u64\<close>, both as \<open>nat\<close>.
\<close>

section \<open>Constants\<close>

named_theorems policy_consts \<open>the migration constants\<close>

definition ZATOSHIS_PER_ZEC :: nat where [policy_consts]: "ZATOSHIS_PER_ZEC = 100000000"

definition ZIP318_MAX_RESIDUAL_VALUE_ZATOSHI :: nat where [policy_consts]:
  "ZIP318_MAX_RESIDUAL_VALUE_ZATOSHI = ZATOSHIS_PER_ZEC div 100"

definition ZIP318_MAX_MIGRATION_DENOMINATION_ZATOSHI :: nat where [policy_consts]:
  "ZIP318_MAX_MIGRATION_DENOMINATION_ZATOSHI = 10000 * ZATOSHIS_PER_ZEC"

definition ZIP318_ANCHOR_BUCKET_MODULUS :: nat where [policy_consts]:
  "ZIP318_ANCHOR_BUCKET_MODULUS = 144"

definition REGTEST_ANCHOR_BUCKET_MODULUS :: nat where [policy_consts]:
  "REGTEST_ANCHOR_BUCKET_MODULUS = 1"

definition ZIP318_ANCHOR_AGE_CAP :: nat where [policy_consts]: "ZIP318_ANCHOR_AGE_CAP = 4"

definition ZIP318_EXPIRY_MODULUS :: nat where [policy_consts]: "ZIP318_EXPIRY_MODULUS = 34560"

definition ZIP318_TRANSFER_MEAN_DELAY_BLOCKS :: nat where [policy_consts]:
  "ZIP318_TRANSFER_MEAN_DELAY_BLOCKS = 144"

definition ZIP318_TRANSFER_MAX_DELAY_BLOCKS :: nat where [policy_consts]:
  "ZIP318_TRANSFER_MAX_DELAY_BLOCKS = 576"

definition NINETY_MINUTE_TRANSFER_MEAN_DELAY_BLOCKS :: nat where [policy_consts]:
  "NINETY_MINUTE_TRANSFER_MEAN_DELAY_BLOCKS = 66"

definition REGTEST_TRANSFER_MEAN_DELAY_BLOCKS :: nat where [policy_consts]:
  "REGTEST_TRANSFER_MEAN_DELAY_BLOCKS = 1"

definition REGTEST_TRANSFER_MAX_DELAY_BLOCKS :: nat where [policy_consts]:
  "REGTEST_TRANSFER_MAX_DELAY_BLOCKS = 4"

definition FAST_TESTNET_TRANSFER_MEAN_DELAY_BLOCKS :: nat where [policy_consts]:
  "FAST_TESTNET_TRANSFER_MEAN_DELAY_BLOCKS = 12"

definition FAST_TESTNET_TRANSFER_MAX_DELAY_BLOCKS :: nat where [policy_consts]:
  "FAST_TESTNET_TRANSFER_MAX_DELAY_BLOCKS = 48"

definition FAST_TESTNET_ANCHOR_BUCKET_MODULUS :: nat where [policy_consts]:
  "FAST_TESTNET_ANCHOR_BUCKET_MODULUS = 12"

definition MIN_IRONWOOD_MIGRATION_OUTPUT_ZATOSHI :: nat where [policy_consts]:
  "MIN_IRONWOOD_MIGRATION_OUTPUT_ZATOSHI = 1"

definition DENSE_MIGRATION_PART_THRESHOLD :: nat where [policy_consts]:
  "DENSE_MIGRATION_PART_THRESHOLD = 10"

definition MIGRATION_STATUS_FEE_ESTIMATE_ZATOSHI :: nat where [policy_consts]:
  "MIGRATION_STATUS_FEE_ESTIMATE_ZATOSHI = 15000"

definition DENOMINATION_SPLIT_STATUS_FEE_ESTIMATE_ZATOSHI :: nat where [policy_consts]:
  "DENOMINATION_SPLIT_STATUS_FEE_ESTIMATE_ZATOSHI = 80000"

section \<open>Networks and transfer timing policies\<close>

datatype wallet_network = Main | Test | Regtest

definition wallet_network_from_str :: "string \<Rightarrow> wallet_network option" where
  "wallet_network_from_str network =
     (if network = ''main'' then Some Main
      else if network = ''test'' then Some Test
      else if network = ''regtest'' then Some Regtest
      else None)"

datatype migration_timing_policy =
  Standard | Standard90Minutes | Standard90MinutesLatestAnchor | FastTestnet

datatype policy_error =
  UnsupportedTimingPolicy string
| UnsupportedPreparationPolicy string
| SpacingEstimateOverflow

fun timing_policy_as_str :: "migration_timing_policy \<Rightarrow> string" where
  "timing_policy_as_str Standard = ''standard''"
| "timing_policy_as_str Standard90Minutes = ''standard_90m''"
| "timing_policy_as_str Standard90MinutesLatestAnchor = ''standard_90m_latest_anchor''"
| "timing_policy_as_str FastTestnet = ''fast_testnet''"

definition timing_policy_from_str :: "string \<Rightarrow> policy_error + migration_timing_policy" where
  "timing_policy_from_str value =
     (if value = ''standard'' then Inr Standard
      else if value = ''standard_90m'' then Inr Standard90Minutes
      else if value = ''standard_90m_latest_anchor'' then Inr Standard90MinutesLatestAnchor
      else if value = ''fast_testnet'' then Inr FastTestnet
      else Inl (UnsupportedTimingPolicy value))"

text \<open>The process-wide flag \<open>FAST_TESTNET_MIGRATION_ENABLED\<close>.\<close>

record policy_state =
  fast_testnet_migration_enabled :: bool

definition configure_fast_testnet_migration :: "bool \<Rightarrow> policy_state \<Rightarrow> policy_state" where
  "configure_fast_testnet_migration enabled st = st\<lparr>fast_testnet_migration_enabled := enabled\<rparr>"

definition configured_timing_policy :: "policy_state \<Rightarrow> wallet_network \<Rightarrow> migration_timing_policy" where
  "configured_timing_policy st network =
     (if network \<in> {Test, Regtest} \<and> fast_testnet_migration_enabled st then FastTestnet
      else if network = Regtest then Standard
      else Standard90Minutes)"

fun schedule_parameters_with_policy ::
  "wallet_network \<Rightarrow> migration_timing_policy \<Rightarrow> nat \<times> nat" where
  "schedule_parameters_with_policy Regtest policy =
     (if policy = FastTestnet
      then (FAST_TESTNET_TRANSFER_MEAN_DELAY_BLOCKS, FAST_TESTNET_TRANSFER_MAX_DELAY_BLOCKS)
      else (REGTEST_TRANSFER_MEAN_DELAY_BLOCKS, REGTEST_TRANSFER_MAX_DELAY_BLOCKS))"
| "schedule_parameters_with_policy network policy =
     (if network = Test \<and> policy = FastTestnet
      then (FAST_TESTNET_TRANSFER_MEAN_DELAY_BLOCKS, FAST_TESTNET_TRANSFER_MAX_DELAY_BLOCKS)
      else if policy \<in> {Standard90Minutes, Standard90MinutesLatestAnchor}
      then (NINETY_MINUTE_TRANSFER_MEAN_DELAY_BLOCKS, ZIP318_TRANSFER_MAX_DELAY_BLOCKS)
      else (ZIP318_TRANSFER_MEAN_DELAY_BLOCKS, ZIP318_TRANSFER_MAX_DELAY_BLOCKS))"

definition schedule_parameters_with_policy_for_part_count ::
  "wallet_network \<Rightarrow> migration_timing_policy \<Rightarrow> nat \<Rightarrow> nat \<times> nat" where
  "schedule_parameters_with_policy_for_part_count network policy part_count =
     (let (mean_delay_blocks, max_delay_blocks) = schedule_parameters_with_policy network policy;
          effective_mean = (if part_count > DENSE_MIGRATION_PART_THRESHOLD
                            then max (mean_delay_blocks div 2) 1 else mean_delay_blocks)
      in (effective_mean, max_delay_blocks))"

definition schedule_parameters :: "policy_state \<Rightarrow> wallet_network \<Rightarrow> nat \<times> nat" where
  "schedule_parameters st network =
     schedule_parameters_with_policy network (configured_timing_policy st network)"

definition schedule_parameters_for_part_count ::
  "policy_state \<Rightarrow> wallet_network \<Rightarrow> nat \<Rightarrow> nat \<times> nat" where
  "schedule_parameters_for_part_count st network part_count =
     schedule_parameters_with_policy_for_part_count network
       (configured_timing_policy st network) part_count"

section \<open>Preparation timing policies\<close>

definition ZIP318_PREPARATION_MEAN_DELAY_BLOCKS :: nat where [policy_consts]:
  "ZIP318_PREPARATION_MEAN_DELAY_BLOCKS = 16"

definition ZIP318_PREPARATION_MAX_DELAY_BLOCKS :: nat where [policy_consts]:
  "ZIP318_PREPARATION_MAX_DELAY_BLOCKS = 96"

definition REGTEST_PREPARATION_MEAN_DELAY_BLOCKS :: nat where [policy_consts]:
  "REGTEST_PREPARATION_MEAN_DELAY_BLOCKS = 1"

definition REGTEST_PREPARATION_MAX_DELAY_BLOCKS :: nat where [policy_consts]:
  "REGTEST_PREPARATION_MAX_DELAY_BLOCKS = 4"

definition FAST_TESTNET_PREPARATION_MEAN_DELAY_BLOCKS :: nat where [policy_consts]:
  "FAST_TESTNET_PREPARATION_MEAN_DELAY_BLOCKS = 4"

definition FAST_TESTNET_PREPARATION_MAX_DELAY_BLOCKS :: nat where [policy_consts]:
  "FAST_TESTNET_PREPARATION_MAX_DELAY_BLOCKS = 16"

definition DENSE_PREPARATION_TRANSACTION_THRESHOLD :: nat where [policy_consts]:
  "DENSE_PREPARATION_TRANSACTION_THRESHOLD = 3"

datatype preparation_timing_policy = Immediate | Zip318Spaced

definition from_spacing_enabled :: "bool \<Rightarrow> preparation_timing_policy" where
  "from_spacing_enabled enabled = (if enabled then Zip318Spaced else Immediate)"

fun preparation_policy_as_str :: "preparation_timing_policy \<Rightarrow> string" where
  "preparation_policy_as_str Immediate = ''immediate''"
| "preparation_policy_as_str Zip318Spaced = ''zip318_spaced''"

definition preparation_policy_from_str :: "string \<Rightarrow> policy_error + preparation_timing_policy" where
  "preparation_policy_from_str value =
     (if value = ''immediate'' then Inr Immediate
      else if value = ''zip318_spaced'' then Inr Zip318Spaced
      else Inl (UnsupportedPreparationPolicy value))"

fun preparation_schedule_parameters ::
  "wallet_network \<Rightarrow> migration_timing_policy \<Rightarrow> nat \<times> nat" where
  "preparation_schedule_parameters Regtest policy =
     (if policy = FastTestnet
      then (FAST_TESTNET_PREPARATION_MEAN_DELAY_BLOCKS, FAST_TESTNET_PREPARATION_MAX_DELAY_BLOCKS)
      else (REGTEST_PREPARATION_MEAN_DELAY_BLOCKS, REGTEST_PREPARATION_MAX_DELAY_BLOCKS))"
| "preparation_schedule_parameters network policy =
     (if network = Test \<and> policy = FastTestnet
      then (FAST_TESTNET_PREPARATION_MEAN_DELAY_BLOCKS, FAST_TESTNET_PREPARATION_MAX_DELAY_BLOCKS)
      else (ZIP318_PREPARATION_MEAN_DELAY_BLOCKS, ZIP318_PREPARATION_MAX_DELAY_BLOCKS))"

definition preparation_schedule_parameters_for_transaction_count ::
  "wallet_network \<Rightarrow> migration_timing_policy \<Rightarrow> nat \<Rightarrow> nat \<times> nat" where
  "preparation_schedule_parameters_for_transaction_count network policy transaction_count =
     (let (mean_delay_blocks, max_delay_blocks) = preparation_schedule_parameters network policy;
          effective_mean = (if transaction_count > DENSE_PREPARATION_TRANSACTION_THRESHOLD
                            then max (mean_delay_blocks div 2) 1 else mean_delay_blocks)
      in (effective_mean, max_delay_blocks))"

definition estimated_preparation_spacing_delay_blocks ::
  "policy_state \<Rightarrow> wallet_network \<Rightarrow> preparation_timing_policy \<Rightarrow> nat \<Rightarrow> policy_error + nat" where
  "estimated_preparation_spacing_delay_blocks st network preparation_policy transaction_count =
     (if preparation_policy = Immediate then Inr 0
      else ok_or
        (checked_mul 32
          (fst (preparation_schedule_parameters_for_transaction_count network
                  (configured_timing_policy st network) transaction_count))
          transaction_count)
        SpacingEstimateOverflow)"

section \<open>Facts\<close>

lemma timing_policy_roundtrip [simp]:
  "timing_policy_from_str (timing_policy_as_str p) = Inr p"
  by (cases p) (simp_all add: timing_policy_from_str_def)

lemma timing_policy_from_str_Inr:
  "timing_policy_from_str s = Inr p \<longleftrightarrow> s = timing_policy_as_str p"
  by (cases p) (auto simp: timing_policy_from_str_def)

lemma preparation_policy_roundtrip [simp]:
  "preparation_policy_from_str (preparation_policy_as_str p) = Inr p"
  by (cases p) (simp_all add: preparation_policy_from_str_def)

lemma schedule_parameters_positive:
  "0 < fst (schedule_parameters_with_policy network policy)"
  "0 < snd (schedule_parameters_with_policy network policy)"
  by (cases network; cases policy; simp add: policy_consts)+

lemma schedule_parameters_for_part_count_max [simp]:
  "snd (schedule_parameters_with_policy_for_part_count network policy n)
     = snd (schedule_parameters_with_policy network policy)"
  by (simp add: schedule_parameters_with_policy_for_part_count_def case_prod_beta)

lemma schedule_parameters_for_part_count_mean_positive:
  "0 < fst (schedule_parameters_with_policy_for_part_count network policy n)"
  using schedule_parameters_positive(1) [of network policy]
  by (simp add: schedule_parameters_with_policy_for_part_count_def case_prod_beta less_max_iff_disj)

lemma preparation_parameters_positive:
  "0 < fst (preparation_schedule_parameters_for_transaction_count network policy n)"
  "0 < snd (preparation_schedule_parameters_for_transaction_count network policy n)"
  by (cases network; cases policy;
      simp add: preparation_schedule_parameters_for_transaction_count_def policy_consts)+

end
