(* ===== verification/Denominations.thy ===== *)
theory Denominations
  imports MigrationPolicy
begin

text \<open>
  ZIP 318 denominations, anchor boundaries and expiry heights
  (\<open>rust/src/wallet/sync/migration/denomination_policy.rs\<close>). The number of confirmations of
  the backend's default policy, \<open>ConfirmationsPolicy::default().trusted()\<close>, belongs to a library:
  it is the argument \<open>trusted\<close>. The random number drawn from \<open>OsRng\<close> is an argument too.
\<close>

section \<open>Canonical denominations\<close>

datatype denomination_error =
  SplitFeeUnderflow
| CanonicalFeeUnderflow
| MigratableTotalOverflow
| ExpiryWindowOverflow
| ExpiryHeightOverflow
| ProofReadinessOverflow
| AnchorBoundaryOverflow
| RetryHeightOverflow

record denomination_plan =
  migration_outputs :: "nat list"
  orchard_change :: "nat option"
  split_fee_zatoshi :: nat
  migration_fee_zatoshi :: nat
  total_input_zatoshi :: nat
  total_migratable_zatoshi :: nat

definition denomination_pick :: "nat \<Rightarrow> nat \<Rightarrow> nat option \<Rightarrow> nat \<Rightarrow> nat option" where
  "denomination_pick value magnitude best multiplier =
     (case checked_mul 64 magnitude multiplier of
        None \<Rightarrow> best
      | Some denomination \<Rightarrow>
          if denomination \<le> value \<and> denomination \<le> ZIP318_MAX_MIGRATION_DENOMINATION_ZATOSHI
          then Some denomination else best)"

text \<open>
  The loop over the magnitudes. It starts at a positive magnitude; the guard \<open>0 < magnitude\<close>
  only makes the recursion well-founded on the magnitude 0, which never occurs.
\<close>

function denomination_loop :: "nat \<Rightarrow> nat \<Rightarrow> nat option \<Rightarrow> nat option" where
  "denomination_loop value magnitude best =
     (let best' = foldl (denomination_pick value magnitude) best [1, 2, 5] in
      if ZIP318_MAX_MIGRATION_DENOMINATION_ZATOSHI \<le> magnitude \<or> \<not> 0 < magnitude then best'
      else (case checked_mul 64 magnitude 10 of
              None \<Rightarrow> None
            | Some magnitude' \<Rightarrow> denomination_loop value magnitude' best'))"
  by pat_completeness auto
termination
  by (relation "measure (\<lambda>(v, m, b). ZIP318_MAX_MIGRATION_DENOMINATION_ZATOSHI - m)")
    (auto dest: checked_mul_SomeD)

declare denomination_loop.simps [simp del]

definition largest_zip318_denomination_at_or_below :: "nat \<Rightarrow> nat option" where
  "largest_zip318_denomination_at_or_below value_zatoshi =
     (if value_zatoshi < ZIP318_MAX_RESIDUAL_VALUE_ZATOSHI then None
      else denomination_loop value_zatoshi ZIP318_MAX_RESIDUAL_VALUE_ZATOSHI None)"

definition is_zip318_canonical_denomination :: "nat \<Rightarrow> bool" where
  "is_zip318_canonical_denomination value_zatoshi \<longleftrightarrow>
     largest_zip318_denomination_at_or_below value_zatoshi = Some value_zatoshi"

text \<open>The abstract set of canonical denominations: \<open>{1, 2, 5} * 10^k\<close> from 0.01 to 10,000 ZEC.\<close>

definition zip318_decades :: "nat \<Rightarrow> nat list" where
  "zip318_decades j = concat (map (\<lambda>k. [10 ^ k, 2 * 10 ^ k, 5 * 10 ^ k]) [6..<6 + j])"

definition zip318_denominations :: "nat list" where
  "zip318_denominations = zip318_decades 6 @ [10 ^ 12]"

lemma zip318_denominations_eval: "zip318_denominations =
   [1000000, 2000000, 5000000, 10000000, 20000000, 50000000, 100000000, 200000000, 500000000,
    1000000000, 2000000000, 5000000000, 10000000000, 20000000000, 50000000000, 100000000000,
    200000000000, 500000000000, 1000000000000]"
  by (simp add: zip318_denominations_def zip318_decades_def upt_conv_Cons)

lemma denominations_sorted: "sorted_wrt (<) zip318_denominations"
  by (simp add: zip318_denominations_eval)

text \<open>Folding ``keep the last that fits'' over an ascending list finds the largest that fits.\<close>

lemma foldl_last_fit:
  "foldl (\<lambda>best d. if d \<le> v then Some d else best) b ds =
     (if \<exists>d \<in> set ds. d \<le> v then Some (last (filter (\<lambda>d. d \<le> v) ds)) else b)"
  by (induction ds arbitrary: b rule: rev_induct) auto

lemma last_filter_greatest:
  assumes "sorted_wrt (<) (ds :: nat list)" and "d \<in> set ds" and "d \<le> v"
  shows "last (filter (\<lambda>d. d \<le> v) ds) \<in> set ds \<and> last (filter (\<lambda>d. d \<le> v) ds) \<le> v
    \<and> (\<forall>d' \<in> set ds. d' \<le> v \<longrightarrow> d' \<le> last (filter (\<lambda>d. d \<le> v) ds))"
proof -
  let ?fs = "filter (\<lambda>d. d \<le> v) ds"
  have ne: "?fs \<noteq> []" using assms(2,3) by (auto simp: filter_empty_conv)
  have "last ?fs \<in> set ?fs" using ne by (rule last_in_set)
  moreover have "sorted ?fs"
    using sorted_wrt_filter [OF assms(1)] by (rule strict_sorted_imp_sorted)
  then have "\<forall>d' \<in> set ?fs. d' \<le> last ?fs" by (blast intro: sorted_last_greatest)
  ultimately show ?thesis by auto
qed

abbreviation (input) keep_fitting :: "nat \<Rightarrow> nat option \<Rightarrow> nat \<Rightarrow> nat option" where
  "keep_fitting v \<equiv> \<lambda>best d. if d \<le> v then Some d else best"

lemma denomination_loop_step:
  assumes "0 < m" and "5 * m \<le> 10 ^ 12"
  shows "denomination_loop v m b = denomination_loop v (10 * m) (foldl (keep_fitting v) b [m, 2 * m, 5 * m])"
proof -
  have pick: "foldl (denomination_pick v m) b [1, 2, 5] = foldl (keep_fitting v) b [m, 2 * m, 5 * m]"
    using assms by (simp add: denomination_pick_def checked_mul_def policy_consts mult.commute)
  have mul: "checked_mul 64 m 10 = Some (10 * m)" and small: "\<not> (10 ^ 12 \<le> m \<or> \<not> 0 < m)"
    using assms by (simp_all add: checked_mul_def)
  have max: "ZIP318_MAX_MIGRATION_DENOMINATION_ZATOSHI = 10 ^ 12" by (simp add: policy_consts)
  show ?thesis
    unfolding denomination_loop.simps [of v m] Let_def pick mul max if_not_P [OF small] option.case ..
qed

lemma zip318_decades_Suc:
  "zip318_decades (Suc j) = zip318_decades j @ [10 ^ (6 + j), 2 * 10 ^ (6 + j), 5 * 10 ^ (6 + j)]"
  by (simp only: zip318_decades_def add_Suc_right upt_Suc le_add1 if_True map_append concat_append
      list.map concat.simps append_Nil2)

lemma denomination_loop_prefix:
  "j \<le> 6 \<Longrightarrow> denomination_loop v (10 ^ 6) None =
     denomination_loop v (10 ^ (6 + j)) (foldl (keep_fitting v) None (zip318_decades j))"
proof (induction j)
  case 0
  show ?case by (simp add: zip318_decades_def)
next
  case (Suc j)
  have "5 * 10 ^ (6 + j) \<le> (5 * 10 ^ 11 :: nat)"
    using Suc.prems by (intro mult_le_mono2 power_increasing) auto
  then have "denomination_loop v (10 ^ (6 + j)) b =
      denomination_loop v (10 ^ (6 + Suc j))
        (foldl (keep_fitting v) b [10 ^ (6 + j), 2 * 10 ^ (6 + j), 5 * 10 ^ (6 + j)])" for b
    by (subst denomination_loop_step) (simp_all only: add_Suc_right power_Suc, simp_all)
  with Suc.IH Suc.prems show ?case
    by (simp only: zip318_decades_Suc foldl_append Suc_leD)
qed

lemma largest_denomination_fold:
  "largest_zip318_denomination_at_or_below v = foldl (keep_fitting v) None zip318_denominations"
proof (cases "v < 1000000")
  case True
  then have "\<not> (\<exists>d \<in> set zip318_denominations. d \<le> v)"
    by (auto simp: zip318_denominations_eval)
  with True show ?thesis
    by (simp add: largest_zip318_denomination_at_or_below_def policy_consts foldl_last_fit)
next
  case False
  have base: "denomination_loop v (10 ^ 12) b = keep_fitting v b (10 ^ 12)" for b
    by (simp add: denomination_loop.simps denomination_pick_def checked_mul_def policy_consts)
  have "denomination_loop v (10 ^ 6) None =
      denomination_loop v (10 ^ 12) (foldl (keep_fitting v) None (zip318_decades 6))"
    using denomination_loop_prefix [of 6 v] by simp
  also have "\<dots> = foldl (keep_fitting v) None zip318_denominations"
    by (simp only: base zip318_denominations_def foldl_append foldl_Cons foldl_Nil)
  finally show ?thesis
    using False by (simp add: largest_zip318_denomination_at_or_below_def policy_consts)
qed

lemma largest_denomination_Some:
  "largest_zip318_denomination_at_or_below v = Some d \<longleftrightarrow>
     d \<in> set zip318_denominations \<and> d \<le> v \<and> (\<forall>d' \<in> set zip318_denominations. d' \<le> v \<longrightarrow> d' \<le> d)"
  (is "?L \<longleftrightarrow> ?R")
proof
  assume ?L
  then show ?R
    using last_filter_greatest [OF denominations_sorted]
    by (auto simp: largest_denomination_fold foldl_last_fit split: if_splits)
next
  assume R: ?R
  let ?l = "last (filter (\<lambda>d. d \<le> v) zip318_denominations)"
  from R have "?l = d"
    using last_filter_greatest [OF denominations_sorted, of d v] by (auto intro: antisym)
  with R show ?L by (auto simp: largest_denomination_fold foldl_last_fit)
qed

lemma largest_denomination_None:
  "largest_zip318_denomination_at_or_below v = None \<longleftrightarrow> v < 1000000"
  by (auto simp: largest_denomination_fold foldl_last_fit zip318_denominations_eval)

lemma canonical_iff: "is_zip318_canonical_denomination v \<longleftrightarrow> v \<in> set zip318_denominations"
  by (auto simp: is_zip318_canonical_denomination_def largest_denomination_Some)

lemma denomination_bounds:
  "d \<in> set zip318_denominations \<Longrightarrow> 1000000 \<le> d \<and> d \<le> 1000000000000"
  by (auto simp: zip318_denominations_eval)

lemma canonical_bounds:
  "is_zip318_canonical_denomination v \<Longrightarrow> 1000000 \<le> v \<and> v \<le> 1000000000000"
  by (simp add: canonical_iff denomination_bounds)

lemma largest_denomination_canonical:
  "largest_zip318_denomination_at_or_below v = Some d \<Longrightarrow>
     is_zip318_canonical_denomination d \<and> d \<le> v \<and> 1000000 \<le> d"
  by (simp add: largest_denomination_Some canonical_iff denomination_bounds)

lemma largest_denomination_mono:
  "largest_zip318_denomination_at_or_below v = Some d \<Longrightarrow>
   largest_zip318_denomination_at_or_below w = Some e \<Longrightarrow> w \<le> v \<Longrightarrow> e \<le> d"
  by (simp add: largest_denomination_Some)

section \<open>Greedy planning of the denominations of one balance\<close>

function plan_denominations_loop ::
  "nat \<Rightarrow> nat \<Rightarrow> nat list \<Rightarrow> denomination_error + (nat list \<times> nat)" where
  "plan_denominations_loop fee remaining outputs =
     (case checked_sub remaining fee of
        None \<Rightarrow> Inr (outputs, remaining)
      | Some spendable_after_fee \<Rightarrow>
          (case largest_zip318_denomination_at_or_below spendable_after_fee of
             None \<Rightarrow> Inr (outputs, remaining)
           | Some denomination \<Rightarrow>
               and_then
                 (ok_or (Option.bind (checked_sub remaining denomination) (\<lambda>value. checked_sub value fee))
                   CanonicalFeeUnderflow)
                 (\<lambda>remaining'. plan_denominations_loop fee remaining' (outputs @ [denomination]))))"
  by pat_completeness auto
termination
  by (relation "measure (\<lambda>(fee, remaining, outputs). remaining)")
    (auto simp: ok_or_eq_Inr bind_eq_Some_conv
      dest!: largest_denomination_canonical checked_sub_SomeD)

declare plan_denominations_loop.simps [simp del]

definition plan_denominations ::
  "nat \<Rightarrow> nat \<Rightarrow> nat \<Rightarrow> nat \<Rightarrow> denomination_error + denomination_plan" where
  "plan_denominations total_input split_fee migration_fee minimum_output =
     (if total_input \<le> split_fee then
        Inr \<lparr> migration_outputs = [], orchard_change = None, split_fee_zatoshi = total_input,
              migration_fee_zatoshi = migration_fee, total_input_zatoshi = total_input,
              total_migratable_zatoshi = 0 \<rparr>
      else
        and_then (ok_or (checked_sub total_input split_fee) SplitFeeUnderflow) (\<lambda>start.
        and_then (plan_denominations_loop migration_fee start []) (\<lambda>(outputs, remaining).
        and_then (checked_sum outputs MigratableTotalOverflow) (\<lambda>total_migratable.
        Inr \<lparr> migration_outputs = outputs,
              orchard_change = (if minimum_output \<le> remaining then Some remaining else None),
              split_fee_zatoshi = split_fee, migration_fee_zatoshi = migration_fee,
              total_input_zatoshi = total_input,
              total_migratable_zatoshi = total_migratable \<rparr>))))"

definition orchard_balance_can_create_migration_output :: "nat \<Rightarrow> denomination_error + bool" where
  "orchard_balance_can_create_migration_output orchard_spendable =
     (if orchard_spendable = 0 then Inr False
      else and_then
        (plan_denominations orchard_spendable DENOMINATION_SPLIT_STATUS_FEE_ESTIMATE_ZATOSHI
           MIGRATION_STATUS_FEE_ESTIMATE_ZATOSHI MIN_IRONWOOD_MIGRATION_OUTPUT_ZATOSHI)
        (\<lambda>plan. Inr (migration_outputs plan \<noteq> [])))"

text \<open>What the greedy loop leaves: the outputs it appended and the remainder.\<close>

definition greedy_split :: "nat \<Rightarrow> nat \<Rightarrow> nat list \<Rightarrow> nat \<Rightarrow> bool" where
  "greedy_split fee start new remaining \<longleftrightarrow>
     (\<forall>d \<in> set new. is_zip318_canonical_denomination d) \<and> sorted_wrt (\<ge>) new \<and>
     sum_list new + length new * fee + remaining = start \<and> remaining < fee + 1000000"

lemma greedy_split_bound: "greedy_split fee start new rest \<Longrightarrow> d \<in> set new \<Longrightarrow> d + fee \<le> start"
proof -
  assume g: "greedy_split fee start new rest" and d: "d \<in> set new"
  have "d \<le> sum_list new" using d by (rule member_le_sum_list_nat)
  moreover have "fee \<le> length new * fee" using d by (cases new) auto
  ultimately show ?thesis using g unfolding greedy_split_def by linarith
qed

lemma plan_denominations_loop_spec:
  "\<exists>new rest. plan_denominations_loop fee start outputs = Inr (outputs @ new, rest)
     \<and> greedy_split fee start new rest"
proof (induction fee start outputs rule: plan_denominations_loop.induct)
  case (1 fee start outputs)
  show ?case
  proof (cases "fee \<le> start \<and> 1000000 \<le> start - fee")
    case False
    then have "plan_denominations_loop fee start outputs = Inr (outputs, start)"
      by (auto simp: plan_denominations_loop.simps [of fee start] checked_sub_def
          largest_denomination_None [THEN iffD2])
    moreover have "greedy_split fee start [] start"
      using False by (auto simp: greedy_split_def)
    ultimately show ?thesis by fastforce
  next
    case True
    then obtain d where d: "largest_zip318_denomination_at_or_below (start - fee) = Some d"
      using largest_denomination_None [of "start - fee"] by (cases "largest_zip318_denomination_at_or_below (start - fee)") auto
    note canonical = largest_denomination_canonical [OF d]
    let ?rest = "start - d - fee"
    have sub: "checked_sub start fee = Some (start - fee)"
      and bind: "Option.bind (checked_sub start d) (\<lambda>value. checked_sub value fee) = Some ?rest"
      using True canonical by (auto simp: checked_sub_def)
    have step: "plan_denominations_loop fee start outputs
        = plan_denominations_loop fee ?rest (outputs @ [d])"
      by (subst plan_denominations_loop.simps) (simp add: sub d bind)
    obtain new rest where IH: "plan_denominations_loop fee ?rest (outputs @ [d]) = Inr ((outputs @ [d]) @ new, rest)"
      and g: "greedy_split fee ?rest new rest"
      using "1.IH" [OF sub d] bind by (metis ok_or_simps(2))
    have "\<forall>e \<in> set new. e \<le> d"
    proof
      fix e assume e: "e \<in> set new"
      then have "e \<in> set zip318_denominations" and "e \<le> start - fee"
        using g greedy_split_bound [OF g e] by (auto simp: greedy_split_def canonical_iff)
      then show "e \<le> d" using d by (simp add: largest_denomination_Some)
    qed
    with g canonical True have "greedy_split fee start (d # new) rest"
      by (auto simp: greedy_split_def)
    with IH step show ?thesis by (intro exI [of _ "d # new"] exI [of _ rest]) simp
  qed
qed

lemma plan_denominations_spec:
  assumes "balance < 2 ^ 64"
  shows "\<exists>plan. plan_denominations balance split_fee fee minimum = Inr plan
    \<and> total_input_zatoshi plan = balance
    \<and> total_migratable_zatoshi plan = sum_list (migration_outputs plan)
    \<and> (if balance \<le> split_fee then migration_outputs plan = [] \<and> split_fee_zatoshi plan = balance
         \<and> orchard_change plan = None
       else split_fee_zatoshi plan = split_fee \<and>
         (\<exists>rest. greedy_split fee (balance - split_fee) (migration_outputs plan) rest
            \<and> orchard_change plan = (if minimum \<le> rest then Some rest else None)))"
proof (cases "balance \<le> split_fee")
  case True
  then show ?thesis by (simp add: plan_denominations_def)
next
  case False
  obtain new rest where loop: "plan_denominations_loop fee (balance - split_fee) [] = Inr (new, rest)"
    and g: "greedy_split fee (balance - split_fee) new rest"
    using plan_denominations_loop_spec [of fee "balance - split_fee" "[]"] by auto
  have "sum_list new < 2 ^ 64" using g assms unfolding greedy_split_def by linarith
  with False loop g show ?thesis
    by (auto simp: plan_denominations_def checked_sub_def checked_sum_eq)
qed

end
