(* ===== verification/Anchors.thy ===== *)
theory Anchors
  imports Denominations
begin

text \<open>
  Anchor boundaries, their aging and drawing, proof-ready and retry heights and canonical expiry
  heights (the second half of \<open>rust/src/wallet/sync/migration/denomination_policy.rs\<close>).
\<close>

section \<open>Anchor boundaries and expiry heights\<close>

definition zip318_canonical_migration_expiry_height :: "nat \<Rightarrow> denomination_error + nat" where
  "zip318_canonical_migration_expiry_height scheduled_height =
     (let boundary = scheduled_height - scheduled_height mod ZIP318_EXPIRY_MODULUS in
      and_then (ok_or (checked_mul 32 ZIP318_EXPIRY_MODULUS 2) ExpiryWindowOverflow) (\<lambda>window.
      ok_or (checked_add 32 boundary window) ExpiryHeightOverflow))"

fun anchor_bucket_modulus :: "wallet_network \<Rightarrow> migration_timing_policy \<Rightarrow> nat" where
  "anchor_bucket_modulus Regtest policy =
     (if policy = FastTestnet then FAST_TESTNET_ANCHOR_BUCKET_MODULUS
      else REGTEST_ANCHOR_BUCKET_MODULUS)"
| "anchor_bucket_modulus network policy =
     (if network = Test \<and> policy = FastTestnet then FAST_TESTNET_ANCHOR_BUCKET_MODULUS
      else ZIP318_ANCHOR_BUCKET_MODULUS)"

fun anchor_bucket_min_age :: "wallet_network \<Rightarrow> migration_timing_policy \<Rightarrow> nat" where
  "anchor_bucket_min_age Regtest policy = (if policy = FastTestnet then 1 else 0)"
| "anchor_bucket_min_age network policy =
     (if network = Test \<and> policy = FastTestnet then 1
      else if policy = Standard90MinutesLatestAnchor then 0
      else 1)"

definition anchor_boundary_containing_note_with_policy ::
  "wallet_network \<Rightarrow> migration_timing_policy \<Rightarrow> nat \<Rightarrow> denomination_error + nat" where
  "anchor_boundary_containing_note_with_policy network policy mined_height =
     (let modulus = anchor_bucket_modulus network policy; remainder = mined_height mod modulus in
      if remainder = 0 then Inr mined_height
      else ok_or (checked_add 32 mined_height (modulus - remainder)) AnchorBoundaryOverflow)"

definition proof_ready_height_for_note_mined_height ::
  "nat \<Rightarrow> wallet_network \<Rightarrow> migration_timing_policy \<Rightarrow> nat \<Rightarrow> denomination_error + nat" where
  "proof_ready_height_for_note_mined_height trusted network policy mined_height =
     (let modulus = anchor_bucket_modulus network policy;
          confirmation_lag = saturating_sub trusted 1 in
      and_then (anchor_boundary_containing_note_with_policy network policy mined_height)
        (\<lambda>containing_boundary.
      and_then (ok_or (checked_mul 32 modulus (anchor_bucket_min_age network policy))
          ProofReadinessOverflow) (\<lambda>aging_blocks.
      ok_or (Option.bind (checked_add 32 containing_boundary aging_blocks)
          (\<lambda>height. checked_add 32 height confirmation_lag)) ProofReadinessOverflow)))"

definition estimated_proof_ready_height ::
  "nat \<Rightarrow> policy_state \<Rightarrow> wallet_network \<Rightarrow> nat \<Rightarrow> denomination_error + nat" where
  "estimated_proof_ready_height trusted st network estimated_mined_height =
     proof_ready_height_for_note_mined_height trusted network
       (configured_timing_policy st network) estimated_mined_height"

definition next_anchor_retry_height_after ::
  "nat \<Rightarrow> wallet_network \<Rightarrow> migration_timing_policy \<Rightarrow> nat \<Rightarrow> denomination_error + nat" where
  "next_anchor_retry_height_after trusted network policy fully_scanned_height =
     (let modulus = anchor_bucket_modulus network policy;
          confirmation_lag = saturating_sub trusted 1;
          boundary_reference =
            (if anchor_bucket_min_age network policy > 0
             then saturating_sub fully_scanned_height confirmation_lag
             else fully_scanned_height);
          distance = modulus - boundary_reference mod modulus in
      ok_or (Option.bind (checked_add 32 boundary_reference distance)
          (\<lambda>boundary. checked_add 32 boundary confirmation_lag)) RetryHeightOverflow)"

definition zip318_anchor_boundary_at_or_before_with_policy ::
  "wallet_network \<Rightarrow> migration_timing_policy \<Rightarrow> nat \<Rightarrow> nat option" where
  "zip318_anchor_boundary_at_or_before_with_policy network policy height =
     (let modulus = anchor_bucket_modulus network policy; boundary = height - height mod modulus
      in if boundary > 0 then Some boundary else None)"

definition zip318_anchor_boundary_age ::
  "wallet_network \<Rightarrow> migration_timing_policy \<Rightarrow> nat \<Rightarrow> nat \<Rightarrow> nat option" where
  "zip318_anchor_boundary_age network policy latest_boundary anchor_boundary =
     (if anchor_boundary > latest_boundary then None
      else Option.bind (checked_sub latest_boundary anchor_boundary) (\<lambda>delta.
        let modulus = anchor_bucket_modulus network policy in
        if delta mod modulus \<noteq> 0 then None
        else let age = delta div modulus in
          if anchor_bucket_min_age network policy \<le> age \<and> age \<le> ZIP318_ANCHOR_AGE_CAP
          then Some age else None))"

text \<open>The loop over the ages; each early exit is the code's \<open>break\<close>.\<close>

fun candidate_boundaries_loop :: "nat \<Rightarrow> nat \<Rightarrow> nat \<Rightarrow> nat list \<Rightarrow> nat list \<Rightarrow> nat list" where
  "candidate_boundaries_loop modulus latest lower_bound [] candidates = candidates"
| "candidate_boundaries_loop modulus latest lower_bound (age # ages) candidates =
     (case checked_mul 32 age modulus of
        None \<Rightarrow> candidates
      | Some distance \<Rightarrow>
          (case checked_sub latest distance of
             None \<Rightarrow> candidates
           | Some boundary \<Rightarrow>
               if boundary < lower_bound then candidates
               else candidate_boundaries_loop modulus latest lower_bound ages (candidates @ [boundary])))"

definition zip318_anchor_candidate_boundaries_with_policy ::
  "wallet_network \<Rightarrow> migration_timing_policy \<Rightarrow> nat \<Rightarrow> nat \<Rightarrow> nat \<Rightarrow> nat list" where
  "zip318_anchor_candidate_boundaries_with_policy network policy observed_anchor_height
       note_mined_height nu6_3_activation_height =
     (case zip318_anchor_boundary_at_or_before_with_policy network policy observed_anchor_height of
        None \<Rightarrow> []
      | Some latest_boundary \<Rightarrow>
          candidate_boundaries_loop (anchor_bucket_modulus network policy) latest_boundary
            (max note_mined_height (saturating_add 32 nu6_3_activation_height 1))
            [anchor_bucket_min_age network policy..<ZIP318_ANCHOR_AGE_CAP + 1] [])"

definition zip318_anchor_boundary_is_candidate_with_policy ::
  "wallet_network \<Rightarrow> migration_timing_policy \<Rightarrow> nat \<Rightarrow> nat \<Rightarrow> nat \<Rightarrow> nat \<Rightarrow> bool" where
  "zip318_anchor_boundary_is_candidate_with_policy network policy anchor_boundary
       observed_anchor_height note_mined_height nu6_3_activation_height =
     (if anchor_boundary = 0 \<or> \<not> anchor_bucket_modulus network policy dvd anchor_boundary then False
      else if anchor_boundary < note_mined_height \<or> anchor_boundary \<le> nu6_3_activation_height
      then False
      else (case zip318_anchor_boundary_at_or_before_with_policy network policy observed_anchor_height of
              None \<Rightarrow> False
            | Some latest_boundary \<Rightarrow>
                zip318_anchor_boundary_age network policy latest_boundary anchor_boundary \<noteq> None))"

text \<open>Weighted drawing: \<open>gen_range total\<close> is the number the generator returns for \<open>0..total\<close>.\<close>

fun weigh_candidates ::
  "wallet_network \<Rightarrow> migration_timing_policy \<Rightarrow> nat \<Rightarrow> nat list \<Rightarrow> nat \<Rightarrow> (nat \<times> nat) list \<Rightarrow>
     ((nat \<times> nat) list \<times> nat) option" where
  "weigh_candidates network policy latest [] total_weight weighted = Some (weighted, total_weight)"
| "weigh_candidates network policy latest (boundary # rest) total_weight weighted =
     Option.bind (zip318_anchor_boundary_age network policy latest boundary) (\<lambda>age.
     let weight = 2 ^ (ZIP318_ANCHOR_AGE_CAP - age) in
     Option.bind (checked_add 32 total_weight weight) (\<lambda>total'.
     weigh_candidates network policy latest rest total' (weighted @ [(boundary, weight)])))"

fun draw_weighted :: "nat \<Rightarrow> (nat \<times> nat) list \<Rightarrow> nat option" where
  "draw_weighted draw [] = None"
| "draw_weighted draw ((boundary, weight) # rest) =
     (if draw < weight then Some boundary else draw_weighted (draw - weight) rest)"

definition zip318_draw_anchor_boundary_from_available_with_policy ::
  "(nat \<Rightarrow> nat) \<Rightarrow> wallet_network \<Rightarrow> migration_timing_policy \<Rightarrow> nat \<Rightarrow> nat list \<Rightarrow> nat option" where
  "zip318_draw_anchor_boundary_from_available_with_policy gen_range network policy
       observed_anchor_height available_candidates =
     Option.bind (zip318_anchor_boundary_at_or_before_with_policy network policy observed_anchor_height)
       (\<lambda>latest_boundary.
     if available_candidates = [] then None
     else Option.bind (weigh_candidates network policy latest_boundary available_candidates 0 [])
       (\<lambda>(weighted, total_weight).
     if total_weight = 0 then None else draw_weighted (gen_range total_weight) weighted))"

section \<open>Facts about the boundaries\<close>

lemma modulus_bounds: "0 < anchor_bucket_modulus network policy" "anchor_bucket_modulus network policy \<le> 144"
  by (cases network; cases policy; simp add: policy_consts)+

lemma min_age_bound: "anchor_bucket_min_age network policy \<le> 1"
  by (cases network; cases policy; simp)

lemma age_cap [simp]: "ZIP318_ANCHOR_AGE_CAP = 4"
  by (simp add: policy_consts)

lemma age_mul: "age \<le> 4 \<Longrightarrow>
  checked_mul 32 age (anchor_bucket_modulus network policy) = Some (age * anchor_bucket_modulus network policy)"
proof -
  assume "age \<le> 4"
  then have "age * anchor_bucket_modulus network policy \<le> 4 * 144"
    using modulus_bounds(2) by (rule mult_le_mono)
  then show ?thesis by (simp add: checked_mul_def)
qed

lemma boundary_at_or_before_Some:
  "zip318_anchor_boundary_at_or_before_with_policy network policy height = Some b \<longleftrightarrow>
     0 < b \<and> b = height - height mod anchor_bucket_modulus network policy"
  by (auto simp: zip318_anchor_boundary_at_or_before_with_policy_def Let_def)

lemma boundary_age_Some:
  "zip318_anchor_boundary_age network policy latest b = Some age \<longleftrightarrow>
     b \<le> latest \<and> (latest - b) = age * anchor_bucket_modulus network policy \<and>
     anchor_bucket_min_age network policy \<le> age \<and> age \<le> 4"
  using modulus_bounds(1) [of network policy]
  by (auto simp: zip318_anchor_boundary_age_def checked_sub_def Let_def elim: dvdE)

text \<open>A predicate that holds downwards: its prefix is its filter.\<close>

lemma takeWhile_filter_down:
  assumes "sorted xs" and "\<And>a b. P b \<Longrightarrow> a \<le> b \<Longrightarrow> P (a :: nat)"
  shows "takeWhile P xs = filter P xs"
  using assms(1)
proof (induction xs)
  case (Cons x xs)
  then show ?case using assms(2) [of _ x] by (fastforce simp: empty_filter_conv)
qed simp

lemma candidate_loop_eq:
  assumes "\<forall>age \<in> set ages. age \<le> 4"
  shows "candidate_boundaries_loop (anchor_bucket_modulus network policy) latest lower ages cs =
    cs @ map (\<lambda>age. latest - age * anchor_bucket_modulus network policy)
      (takeWhile (\<lambda>age. age * anchor_bucket_modulus network policy \<le> latest
          \<and> lower \<le> latest - age * anchor_bucket_modulus network policy) ages)"
  using assms
  by (induction ages arbitrary: cs) (auto simp: age_mul checked_sub_def)

lemma candidate_boundaries_eq:
  assumes "zip318_anchor_boundary_at_or_before_with_policy network policy observed = Some latest"
  shows "zip318_anchor_candidate_boundaries_with_policy network policy observed mined activation =
    map (\<lambda>age. latest - age * anchor_bucket_modulus network policy)
      (filter (\<lambda>age. age * anchor_bucket_modulus network policy \<le> latest
          \<and> max mined (saturating_add 32 activation 1) \<le> latest - age * anchor_bucket_modulus network policy)
        [anchor_bucket_min_age network policy..<5])"
proof -
  let ?m = "anchor_bucket_modulus network policy"
  let ?P = "\<lambda>age. age * ?m \<le> latest \<and> max mined (saturating_add 32 activation 1) \<le> latest - age * ?m"
  have down: "?P a" if "?P b" "a \<le> b" for a b
  proof -
    have "a * ?m \<le> b * ?m" using that(2) by (rule mult_le_mono1)
    with that(1) show ?thesis by linarith
  qed
  have "takeWhile ?P [anchor_bucket_min_age network policy..<5] = filter ?P [anchor_bucket_min_age network policy..<5]"
    by (rule takeWhile_filter_down) (simp, rule down)
  moreover have "candidate_boundaries_loop ?m latest (max mined (saturating_add 32 activation 1))
      [anchor_bucket_min_age network policy..<5] [] =
    map (\<lambda>age. latest - age * ?m) (takeWhile ?P [anchor_bucket_min_age network policy..<5])"
    by (subst candidate_loop_eq) auto
  ultimately show ?thesis
    using assms by (simp add: zip318_anchor_candidate_boundaries_with_policy_def)
qed

lemma candidates_mem:
  assumes "zip318_anchor_boundary_at_or_before_with_policy network policy observed = Some latest"
  shows "b \<in> set (zip318_anchor_candidate_boundaries_with_policy network policy observed mined activation)
    \<longleftrightarrow> (\<exists>age. zip318_anchor_boundary_age network policy latest b = Some age) \<and>
        max mined (saturating_add 32 activation 1) \<le> b"
proof -
  have "(\<exists>age. b = latest - age * anchor_bucket_modulus network policy \<and>
        age * anchor_bucket_modulus network policy \<le> latest \<and> anchor_bucket_min_age network policy \<le> age \<and> age < 5)
      \<longleftrightarrow> (\<exists>age. zip318_anchor_boundary_age network policy latest b = Some age)"
    unfolding boundary_age_Some by (intro ex_cong1) auto
  then show ?thesis by (auto simp: candidate_boundaries_eq [OF assms])
qed

lemma boundary_at_or_before_None:
  "zip318_anchor_boundary_at_or_before_with_policy network policy height = None \<longleftrightarrow>
     height < anchor_bucket_modulus network policy"
proof -
  let ?m = "anchor_bucket_modulus network policy"
  have "height mod ?m < height \<longleftrightarrow> \<not> height < ?m"
    using modulus_bounds(1) [of network policy]
    by (cases "height < ?m") (auto intro: less_le_trans [OF mod_less_divisor])
  then show ?thesis
    by (simp add: zip318_anchor_boundary_at_or_before_with_policy_def Let_def)
qed

lemma latest_boundary_props:
  assumes "zip318_anchor_boundary_at_or_before_with_policy network policy observed = Some latest"
  shows "anchor_bucket_modulus network policy dvd latest" "latest \<le> observed" "0 < latest"
    "observed < latest + anchor_bucket_modulus network policy"
proof -
  let ?m = "anchor_bucket_modulus network policy"
  have L: "latest = observed - observed mod ?m" "0 < latest"
    using assms unfolding boundary_at_or_before_Some by blast+
  show "?m dvd latest" by (simp add: L(1) minus_mod_eq_mult_div)
  have "observed mod ?m < ?m" using modulus_bounds(1) by (rule mod_less_divisor)
  then show "latest \<le> observed" "0 < latest" "observed < latest + ?m" using L by auto
qed

lemma candidate_iff_is_candidate:
  assumes "activation + 1 < 2 ^ 32"
  shows "b \<in> set (zip318_anchor_candidate_boundaries_with_policy network policy observed mined activation)
    \<longleftrightarrow> zip318_anchor_boundary_is_candidate_with_policy network policy b observed mined activation"
proof (cases "zip318_anchor_boundary_at_or_before_with_policy network policy observed")
  case None
  then show ?thesis
    by (simp add: zip318_anchor_candidate_boundaries_with_policy_def
        zip318_anchor_boundary_is_candidate_with_policy_def)
next
  case (Some latest)
  have sat: "saturating_add 32 activation 1 = activation + 1"
    using assms by (simp add: saturating_add_def)
  have dvd: "anchor_bucket_modulus network policy dvd b"
    if "zip318_anchor_boundary_age network policy latest b = Some age" for age
  proof -
    have "b \<le> latest" and "latest - b = age * anchor_bucket_modulus network policy"
      using that by (simp_all add: boundary_age_Some)
    then have "b = latest - age * anchor_bucket_modulus network policy" by linarith
    then show ?thesis using latest_boundary_props(1) [OF Some] by (simp add: dvd_diff_nat)
  qed
  show ?thesis
    unfolding candidates_mem [OF Some] sat
    using dvd by (cases "zip318_anchor_boundary_age network policy latest b")
      (auto simp: zip318_anchor_boundary_is_candidate_with_policy_def Some)
qed

subsection \<open>Proof-ready heights\<close>

lemma containing_boundary:
  assumes "anchor_boundary_containing_note_with_policy network policy mined = Inr c"
  shows "anchor_bucket_modulus network policy dvd c" "mined \<le> c"
    "c < mined + anchor_bucket_modulus network policy"
    "anchor_bucket_modulus network policy dvd b \<Longrightarrow> mined \<le> b \<Longrightarrow> c \<le> b"
proof -
  let ?m = "anchor_bucket_modulus network policy"
  have m: "0 < ?m" by (rule modulus_bounds)
  have c: "c = (if mined mod ?m = 0 then mined else mined + (?m - mined mod ?m))"
    using assms by (auto simp: anchor_boundary_containing_note_with_policy_def Let_def
        ok_or_eq_Inr dest: checked_add_SomeD split: if_splits)
  have r: "mined mod ?m < ?m" using m by simp
  have "mined + (?m - mined mod ?m) = ?m * Suc (mined div ?m)"
    using r mult_div_mod_eq [of ?m mined] unfolding mult_Suc_right by linarith
  then have "?m dvd mined + (?m - mined mod ?m)" by (metis dvd_triv_left)
  then show dvd: "?m dvd c" by (auto simp: c)
  have "mined \<le> c \<and> c < mined + ?m"
  proof (cases "mined mod ?m = 0")
    case False
    then have "c = mined + (?m - mined mod ?m)" using c by simp
    with r False show ?thesis by linarith
  qed (use c m in simp)
  then show le: "mined \<le> c" and lt: "c < mined + ?m" by simp_all
  show "c \<le> b" if b: "?m dvd b" "mined \<le> b"
  proof (rule ccontr)
    assume "\<not> c \<le> b"
    with b(2) lt have "c - b < ?m" "0 < c - b" by linarith+
    moreover have "?m dvd c - b" using dvd b(1) by (rule dvd_diff_nat)
    ultimately show False by (meson nat_dvd_not_less)
  qed
qed

lemma candidates_nonempty_iff:
  assumes "activation + 1 < 2 ^ 32"
    and c: "anchor_boundary_containing_note_with_policy network policy mined = Inr c"
    and "activation < c"
  shows "zip318_anchor_candidate_boundaries_with_policy network policy observed mined activation \<noteq> []
    \<longleftrightarrow> c + anchor_bucket_modulus network policy * anchor_bucket_min_age network policy \<le> observed"
    (is "?cs \<noteq> [] \<longleftrightarrow> c + ?m * ?a \<le> observed")
proof (cases "zip318_anchor_boundary_at_or_before_with_policy network policy observed")
  case None
  then have "observed < ?m" by (simp add: boundary_at_or_before_None)
  moreover have "?m \<le> c"
    using containing_boundary(1) [OF c] assms(3) by (auto intro: dvd_imp_le)
  ultimately show ?thesis
    using None by (simp add: zip318_anchor_candidate_boundaries_with_policy_def)
next
  case (Some latest)
  note L = latest_boundary_props [OF Some]
  have sat: "saturating_add 32 activation 1 = activation + 1"
    using assms(1) by (simp add: saturating_add_def)
  have dvdc: "?m dvd c + ?m * ?a" using containing_boundary(1) [OF c] by simp
  show ?thesis
  proof
    assume "?cs \<noteq> []"
    then obtain b where "b \<in> set ?cs" by (cases ?cs) auto
    then obtain age where age: "b \<le> latest" "latest - b = age * ?m" "?a \<le> age" and b: "mined \<le> b"
      by (auto simp: candidates_mem [OF Some] boundary_age_Some)
    have "b = latest - age * ?m" using age by linarith
    then have "c \<le> b" using L(1) b by (intro containing_boundary(4) [OF c]) (simp_all add: dvd_diff_nat)
    moreover have "?m * ?a \<le> latest - b" using age(2,3) by (simp add: mult.commute)
    ultimately show "c + ?m * ?a \<le> observed" using L(2) age(1) by linarith
  next
    assume le: "c + ?m * ?a \<le> observed"
    have "c + ?m * ?a \<le> latest"
    proof (rule ccontr)
      assume gt: "\<not> c + ?m * ?a \<le> latest"
      have "?m dvd (c + ?m * ?a) - latest" using dvdc L(1) by (rule dvd_diff_nat)
      then have "?m \<le> (c + ?m * ?a) - latest" using gt by (intro dvd_imp_le) auto
      with le L(4) gt show False by linarith
    qed
    then have "zip318_anchor_boundary_age network policy latest (latest - ?m * ?a) = Some ?a"
      and "max mined (activation + 1) \<le> latest - ?m * ?a"
      using assms(3) containing_boundary(2) [OF c] min_age_bound [of network policy]
      by (auto simp: boundary_age_Some mult.commute)
    then have "latest - ?m * ?a \<in> set ?cs" unfolding candidates_mem [OF Some] sat by blast
    then show "?cs \<noteq> []" by (metis empty_iff empty_set)
  qed
qed

lemma proof_ready_Inr:
  "proof_ready_height_for_note_mined_height trusted network policy mined = Inr h \<longleftrightarrow>
    (\<exists>c. anchor_boundary_containing_note_with_policy network policy mined = Inr c \<and>
      h = c + anchor_bucket_modulus network policy * anchor_bucket_min_age network policy + (trusted - 1)
      \<and> h < 2 ^ 32)"
proof -
  have "checked_mul 32 (anchor_bucket_modulus network policy) (anchor_bucket_min_age network policy)
      = Some (anchor_bucket_modulus network policy * anchor_bucket_min_age network policy)"
    using age_mul [of "anchor_bucket_min_age network policy" network policy] min_age_bound [of network policy]
    by (simp add: checked_mul_def mult.commute split: if_splits)
  then show ?thesis
    by (auto simp: proof_ready_height_for_note_mined_height_def Let_def result_simps
        bind_eq_Some_conv checked_add_def split: if_splits)
qed

subsection \<open>Retry heights\<close>

lemma retry_height_spec:
  assumes "next_anchor_retry_height_after trusted network policy scanned = Inr h"
  shows "scanned < h"
    and "\<exists>b. anchor_bucket_modulus network policy dvd b \<and> h = b + (trusted - 1)"
    and "\<lbrakk> anchor_bucket_modulus network policy dvd b;
            (if anchor_bucket_min_age network policy > 0 then scanned - (trusted - 1) else scanned) < b \<rbrakk>
        \<Longrightarrow> h \<le> b + (trusted - 1)"
proof -
  let ?m = "anchor_bucket_modulus network policy"
  define ref where "ref = (if anchor_bucket_min_age network policy > 0 then scanned - (trusted - 1) else scanned)"
  have m: "0 < ?m" by (rule modulus_bounds)
  have r: "ref mod ?m < ?m" using m by simp
  have h: "h = ref + (?m - ref mod ?m) + (trusted - 1)"
  proof -
    have "Option.bind (checked_add 32 ref (?m - ref mod ?m)) (\<lambda>boundary. checked_add 32 boundary (trusted - 1)) = Some h"
      using assms unfolding next_anchor_retry_height_after_def Let_def ref_def ok_or_eq_Inr by simp
    then show ?thesis by (auto simp: bind_eq_Some_conv dest: checked_add_SomeD)
  qed
  have next_multiple: "ref + (?m - ref mod ?m) = ?m * Suc (ref div ?m)"
    using r mult_div_mod_eq [of ?m ref] unfolding mult_Suc_right by linarith
  have "ref < ref + (?m - ref mod ?m)" using r by linarith
  moreover have "scanned \<le> ref + (trusted - 1)" unfolding ref_def by (simp split: if_splits) linarith
  ultimately show "scanned < h" unfolding h by linarith
  show "\<exists>b. ?m dvd b \<and> h = b + (trusted - 1)"
    unfolding h next_multiple by (intro exI conjI) (rule dvd_triv_left, rule refl)
  show "h \<le> b + (trusted - 1)" if b: "?m dvd b" "(if anchor_bucket_min_age network policy > 0
      then scanned - (trusted - 1) else scanned) < b"
  proof -
    obtain k where k: "b = ?m * k" using b(1) by (elim dvdE)
    have "ref < b" using b(2) by (simp add: ref_def)
    then have "ref div ?m < k" using m by (simp add: k less_mult_imp_div_less mult.commute)
    then have "?m * Suc (ref div ?m) \<le> b" unfolding k by (intro mult_le_mono2) simp
    then show ?thesis unfolding h next_multiple by simp
  qed
qed

subsection \<open>Weighted drawing\<close>

lemma weigh_candidates_eq:
  assumes "\<forall>b \<in> set bs. zip318_anchor_boundary_age network policy latest b = Some (age b)"
    and "tw + sum_list (map (\<lambda>b. 2 ^ (4 - age b)) bs) < 2 ^ 32"
  shows "weigh_candidates network policy latest bs tw ws =
    Some (ws @ map (\<lambda>b. (b, 2 ^ (4 - age b))) bs, tw + sum_list (map (\<lambda>b. 2 ^ (4 - age b)) bs))"
  using assms
proof (induction bs arbitrary: tw ws)
  case (Cons b bs)
  let ?w = "2 ^ (4 - age b)"
  have add: "checked_add 32 tw ?w = Some (tw + ?w)"
    using Cons.prems(2) by (simp add: checked_add_def)
  have "weigh_candidates network policy latest bs (tw + ?w) (ws @ [(b, ?w)]) =
    Some ((ws @ [(b, ?w)]) @ map (\<lambda>b. (b, 2 ^ (4 - age b))) bs,
      (tw + ?w) + sum_list (map (\<lambda>b. 2 ^ (4 - age b)) bs))"
    by (rule Cons.IH) (use Cons.prems in \<open>simp_all add: add.assoc\<close>)
  then show ?case using Cons.prems(1) by (simp add: add Let_def add.assoc)
qed simp

lemma draw_weighted_Some:
  "t < sum_list (map snd ws) \<Longrightarrow> \<exists>b \<in> fst ` set ws. draw_weighted t ws = Some b"
  by (induction t ws rule: draw_weighted.induct) auto

lemma draw_weighted_member: "draw_weighted t ws = Some b \<Longrightarrow> b \<in> fst ` set ws"
  by (induction t ws rule: draw_weighted.induct) (auto split: if_splits)

text \<open>Each boundary is drawn by exactly as many numbers as its weight.\<close>

lemma draw_weighted_count:
  assumes "distinct (map fst ws)" and "(b, w) \<in> set ws"
  shows "card {t. t < sum_list (map snd ws) \<and> draw_weighted t ws = Some b} = w"
  using assms
proof (induction ws)
  case (Cons p ws)
  obtain b' w' where p: "p = (b', w')" by fastforce
  let ?W = "sum_list (map snd ws)"
  show ?case
  proof (cases "b = b'")
    case True
    then have w: "w = w'" and notin: "b \<notin> fst ` set ws"
      using Cons.prems p by (auto simp: rev_image_eqI)
    have "{t. t < w' + ?W \<and> draw_weighted t (p # ws) = Some b} = {..<w'}"
      using notin True draw_weighted_member [of _ ws b] by (auto simp: p split: if_splits)
    then show ?thesis by (simp add: p w)
  next
    case False
    then have IH: "card {t. t < ?W \<and> draw_weighted t ws = Some b} = w"
      using Cons by (auto simp: p)
    have "{t. t < w' + ?W \<and> draw_weighted t (p # ws) = Some b}
        = (\<lambda>t. t + w') ` {t. t < ?W \<and> draw_weighted t ws = Some b}"
    proof (intro equalityI subsetI)
      fix t assume "t \<in> {t. t < w' + ?W \<and> draw_weighted t (p # ws) = Some b}"
      then have "w' \<le> t" "t - w' < ?W" "draw_weighted (t - w') ws = Some b"
        using False by (auto simp: p split: if_splits)
      then show "t \<in> (\<lambda>t. t + w') ` {t. t < ?W \<and> draw_weighted t ws = Some b}"
        by (intro image_eqI [of _ _ "t - w'"]) auto
    qed (auto simp: p False)
    then show ?thesis by (simp add: card_image IH p)
  qed
qed simp

lemma candidates_distinct:
  "distinct (zip318_anchor_candidate_boundaries_with_policy network policy observed mined activation)"
proof (cases "zip318_anchor_boundary_at_or_before_with_policy network policy observed")
  case None
  then show ?thesis by (simp add: zip318_anchor_candidate_boundaries_with_policy_def)
next
  case (Some latest)
  have "a = b" if "latest - a * anchor_bucket_modulus network policy = latest - b * anchor_bucket_modulus network policy"
    "a * anchor_bucket_modulus network policy \<le> latest" "b * anchor_bucket_modulus network policy \<le> latest" for a b
  proof -
    have "a * anchor_bucket_modulus network policy = b * anchor_bucket_modulus network policy"
      using that by linarith
    then show ?thesis using modulus_bounds(1) [of network policy] by simp
  qed
  note inj = this
  show ?thesis
    unfolding candidate_boundaries_eq [OF Some] distinct_map
    by (intro conjI inj_onI; (rule inj)?) simp_all
qed

lemma candidates_length:
  "length (zip318_anchor_candidate_boundaries_with_policy network policy observed mined activation) \<le> 5"
proof (cases "zip318_anchor_boundary_at_or_before_with_policy network policy observed")
  case None
  then show ?thesis by (simp add: zip318_anchor_candidate_boundaries_with_policy_def)
next
  case (Some latest)
  show ?thesis
    unfolding candidate_boundaries_eq [OF Some] length_map
    by (rule order_trans [OF length_filter_le]) simp
qed

text \<open>The whole draw: the weights of the available candidates are the frequencies.\<close>

definition boundary_weight :: "wallet_network \<Rightarrow> migration_timing_policy \<Rightarrow> nat \<Rightarrow> nat \<Rightarrow> nat" where
  "boundary_weight network policy latest b =
     (case zip318_anchor_boundary_age network policy latest b of None \<Rightarrow> 0 | Some age \<Rightarrow> 2 ^ (4 - age))"

lemma draw_anchor_eq:
  assumes latest: "zip318_anchor_boundary_at_or_before_with_policy network policy observed = Some latest"
    and available: "distinct bs" "bs \<noteq> []"
      "set bs \<subseteq> set (zip318_anchor_candidate_boundaries_with_policy network policy observed mined activation)"
  shows "0 < sum_list (map (boundary_weight network policy latest) bs)"
    and "zip318_draw_anchor_boundary_from_available_with_policy gen network policy observed bs
      = draw_weighted (gen (sum_list (map (boundary_weight network policy latest) bs)))
          (map (\<lambda>b. (b, boundary_weight network policy latest b)) bs)"
proof -
  let ?w = "boundary_weight network policy latest"
  define age where "age b = the (zip318_anchor_boundary_age network policy latest b)" for b
  have ages: "\<forall>b \<in> set bs. zip318_anchor_boundary_age network policy latest b = Some (age b)"
    using available(3) candidates_mem [OF latest] by (auto simp: age_def)
  have w: "\<forall>b \<in> set bs. ?w b = 2 ^ (4 - age b)" using ages by (simp add: boundary_weight_def)
  have "(2 :: nat) ^ (4 - age b) \<le> 2 ^ 4" for b by (rule power_increasing) simp_all
  then have small: "\<forall>b \<in> set bs. ?w b \<le> 16" using w by simp
  have "length bs \<le> length (zip318_anchor_candidate_boundaries_with_policy network policy observed mined activation)"
    using available candidates_distinct by (metis card_mono distinct_card List.finite_set)
  then have "length bs \<le> 5" using candidates_length by (meson le_trans)
  moreover have "sum_list (map ?w bs) \<le> 16 * length bs"
    using small by (induction bs) auto
  ultimately have bound: "sum_list (map ?w bs) < 2 ^ 32" by simp
  have eq: "map (\<lambda>b. (b, 2 ^ (4 - age b))) bs = map (\<lambda>b. (b, ?w b)) bs"
    "map (\<lambda>b. 2 ^ (4 - age b)) bs = map ?w bs" using w by simp_all
  obtain b bs' where "bs = b # bs'" using available(2) by (cases bs) auto
  then show pos: "0 < sum_list (map ?w bs)" using w by simp
  have "weigh_candidates network policy latest bs 0 [] =
      Some (map (\<lambda>b. (b, ?w b)) bs, sum_list (map ?w bs))"
    using weigh_candidates_eq [OF ages, of 0 "[]"] bound unfolding eq by simp
  then show "zip318_draw_anchor_boundary_from_available_with_policy gen network policy observed bs
      = draw_weighted (gen (sum_list (map ?w bs))) (map (\<lambda>b. (b, ?w b)) bs)"
    using latest available(2) pos
    by (simp add: zip318_draw_anchor_boundary_from_available_with_policy_def del: sum_list_eq_0_iff)
qed

lemma draw_anchor_count:
  assumes latest: "zip318_anchor_boundary_at_or_before_with_policy network policy observed = Some latest"
    and available: "distinct bs"
      "set bs \<subseteq> set (zip318_anchor_candidate_boundaries_with_policy network policy observed mined activation)"
    and b: "b \<in> set bs"
  shows "card {t. t < sum_list (map (boundary_weight network policy latest) bs) \<and>
      zip318_draw_anchor_boundary_from_available_with_policy (\<lambda>_. t) network policy observed bs = Some b}
    = boundary_weight network policy latest b"
proof -
  let ?ws = "map (\<lambda>b. (b, boundary_weight network policy latest b)) bs"
  have "bs \<noteq> []" using b by auto
  note draw = draw_anchor_eq(2) [OF latest available(1) this available(2)]
  have "map fst ?ws = bs" "map snd ?ws = map (boundary_weight network policy latest) bs" by (simp_all add: comp_def)
  then show ?thesis
    unfolding draw using draw_weighted_count [of ?ws b] available(1) b by (simp add: comp_def)
qed

end
