(* ===== verification/PrepPlan.thy ===== *)
theory PrepPlan
  imports Prelude
begin

text \<open>
  The note-preparation planner, \<open>rust/src/wallet/sync/migration/preparation_plan.rs\<close>: from the
  values of the wallet's spendable notes and of the funding notes a migration needs, the layers of
  transactions that mint the latter. This theory holds its data and its functions, in the order of
  the source; \<open>PrepPlanFacts\<close> and \<open>PrepPlanSound\<close> hold what is proved of them.

  \<open>Zatoshis\<close> is a library type of amounts up to the maximum money supply: an amount is a \<open>nat\<close>,
  the maximum is the argument \<open>mm\<close>, the conversion from \<open>u64\<close> fails above it, and so does a sum
  of amounts. The planner's own \<open>u64\<close> sums and differences panic on overflow (\<open>add_u\<close>, \<open>sub_u\<close>,
  \<open>sum_u\<close>), as does \<open>zat\<close> above \<open>mm\<close>; that none of it ever panics is proved in \<open>PrepPlanSound\<close>.
  Counts and indices (\<open>usize\<close>) are bounded by the lengths of vectors in memory and are plain \<open>nat\<close>.

  \<open>sort_unstable_by_key\<close> leaves the order of notes of equal value open: \<open>tie\<close> is an arbitrary
  ranking, which may depend on the whole list, that decides it.
\<close>

section \<open>Data\<close>

definition PREP_TX_ACTIONS :: nat where "PREP_TX_ACTIONS = 16"

definition FUNDING_OUTPUTS_PER_TX :: nat where "FUNDING_OUTPUTS_PER_TX = PREP_TX_ACTIONS - 2"

definition CONSOLIDATION_INPUTS_PER_TX :: nat where
  "CONSOLIDATION_INPUTS_PER_TX = PREP_TX_ACTIONS - 1"

datatype prep_input =
  WalletNote (note_index: nat) (wallet_value: nat)
| PriorNote (prior_layer: nat) (prior_transaction: nat) (prior_output: nat) (prior_value: nat)

fun prep_input_value :: "prep_input \<Rightarrow> nat" where
  "prep_input_value (WalletNote _ value) = value"
| "prep_input_value (PriorNote _ _ _ value) = value"

datatype prep_output = Funding nat | Intermediate nat | Change nat

fun prep_output_value :: "prep_output \<Rightarrow> nat" where
  "prep_output_value (Funding v) = v"
| "prep_output_value (Intermediate v) = v"
| "prep_output_value (Change v) = v"

datatype parse_prep_output_error = ParsePrepOutputError

definition prep_output_from_role :: "string \<Rightarrow> nat \<Rightarrow> parse_prep_output_error + prep_output" where
  "prep_output_from_role role value =
     (if role = ''funding'' then Inr (Funding value)
      else if role = ''intermediate'' then Inr (Intermediate value)
      else if role = ''change'' then Inr (Change value)
      else Inl ParsePrepOutputError)"

fun prep_output_as_ref :: "prep_output \<Rightarrow> string" where
  "prep_output_as_ref (Funding _) = ''funding''"
| "prep_output_as_ref (Intermediate _) = ''intermediate''"
| "prep_output_as_ref (Change _) = ''change''"

record prep_transaction =
  prep_inputs :: "prep_input list"
  prep_outputs :: "prep_output list"

definition action_count :: "prep_transaction \<Rightarrow> nat" where
  "action_count tx = length (prep_inputs tx) + length (prep_outputs tx)"

type_synonym prep_layers = "prep_transaction list list"

record preparation_plan =
  plan_layers :: prep_layers
  direct_funding :: "(nat \<times> nat) list"

definition layer_count :: "preparation_plan \<Rightarrow> nat" where
  "layer_count plan = length (plan_layers plan)"

definition transaction_count :: "preparation_plan \<Rightarrow> nat" where
  "transaction_count plan = sum_list (map length (plan_layers plan))"

definition all_outputs :: "prep_layers \<Rightarrow> prep_output list" where
  "all_outputs layers = concat (map prep_outputs (concat layers))"

fun funding_value :: "prep_output \<Rightarrow> nat option" where
  "funding_value (Funding v) = Some v"
| "funding_value _ = None"

fun change_value :: "prep_output \<Rightarrow> nat option" where
  "change_value (Change v) = Some v"
| "change_value _ = None"

definition funding_notes :: "preparation_plan \<Rightarrow> nat list" where
  "funding_notes plan =
     List.map_filter funding_value (all_outputs (plan_layers plan)) @ map snd (direct_funding plan)"

definition residual_notes :: "preparation_plan \<Rightarrow> nat list" where
  "residual_notes plan = List.map_filter change_value (all_outputs (plan_layers plan))"

definition residual_count :: "preparation_plan \<Rightarrow> nat" where
  "residual_count plan = length (residual_notes plan)"

datatype prep_error = InsufficientFunds | BalanceInvalid

type_synonym 'a planner = "prep_error failure + 'a"

definition zat :: "nat \<Rightarrow> nat \<Rightarrow> nat planner" where
  "zat mm value = (if value \<le> mm then Inr value else Inl Panic)"

text \<open>\<open>Iterator::sum::<Option<Zatoshis>>\<close>: \<open>None\<close> as soon as a partial sum exceeds the maximum.\<close>

definition zatoshi_sum :: "nat \<Rightarrow> nat list \<Rightarrow> nat option" where
  "zatoshi_sum mm values = (if sum_list values \<le> mm then Some (sum_list values) else None)"

text \<open>Notes by descending value; \<open>tie\<close> ranks notes of equal value.\<close>

definition sort_notes_desc :: "(prep_input list \<Rightarrow> prep_input \<Rightarrow> nat) \<Rightarrow> prep_input list \<Rightarrow> prep_input list" where
  "sort_notes_desc tie notes =
     sort_key (\<lambda>n. - int (prep_input_value n)) (sort_key (tie notes) notes)"

section \<open>Exact matches\<close>

text \<open>The closure of \<open>remaining.retain\<close>, run over the funding values in order.\<close>

fun extract_direct_funding_loop ::
  "nat \<Rightarrow> nat list \<Rightarrow> nat list \<Rightarrow> bool list \<Rightarrow> (nat \<times> nat) list \<Rightarrow> nat list \<Rightarrow>
     (bool list \<times> (nat \<times> nat) list \<times> nat list) planner" where
  "extract_direct_funding_loop mm available [] used direct kept = Inr (used, direct, kept)"
| "extract_direct_funding_loop mm available (funding # rest) used direct kept =
     (case find (\<lambda>index. \<not> used ! index \<and> available ! index = funding) [0..<length available] of
        Some index \<Rightarrow>
          and_then (zat mm funding) (\<lambda>v.
          extract_direct_funding_loop mm available rest (used[index := True]) (direct @ [(index, v)]) kept)
      | None \<Rightarrow> extract_direct_funding_loop mm available rest used direct (kept @ [funding]))"

definition extract_direct_funding ::
  "nat \<Rightarrow> nat list \<Rightarrow> nat list \<Rightarrow> (bool list \<times> (nat \<times> nat) list \<times> nat list) planner" where
  "extract_direct_funding mm available remaining =
     extract_direct_funding_loop mm available remaining (replicate (length available) False) [] []"

section \<open>Consolidation\<close>

function consolidation_batch_sizes :: "nat \<Rightarrow> nat list" where
  "consolidation_batch_sizes n =
     (if n = 0 then []
      else let max = CONSOLIDATION_INPUTS_PER_TX;
               take = (if n \<le> max then n else if n - max = 1 then max - 1 else max)
           in take # consolidation_batch_sizes (n - take))"
  by pat_completeness auto
termination
  by (relation "measure id") (auto simp: CONSOLIDATION_INPUTS_PER_TX_def PREP_TX_ACTIONS_def)

declare consolidation_batch_sizes.simps [simp del]

fun consolidate_batches ::
  "nat \<Rightarrow> nat \<Rightarrow> nat \<Rightarrow> nat list \<Rightarrow> prep_input list \<Rightarrow> prep_transaction list \<Rightarrow> prep_input list \<Rightarrow>
     prep_input list \<Rightarrow> (prep_input list \<times> prep_transaction list \<times> prep_input list) planner" where
  "consolidate_batches mm layer fee [] pool txs next leftover = Inr (leftover, txs, next)"
| "consolidate_batches mm layer fee (n # sizes) pool txs next leftover =
     (let batch = take n pool; pool' = drop n pool in
      and_then (sum_u 64 (map prep_input_value batch)) (\<lambda>sum.
      if sum \<le> fee then
        consolidate_batches mm layer fee sizes pool' txs next (leftover @ batch)
      else
        and_then (sub_u sum fee) (\<lambda>feeder.
        and_then (zat mm feeder) (\<lambda>v.
        consolidate_batches mm layer fee sizes pool'
          (txs @ [\<lparr> prep_inputs = batch, prep_outputs = [Intermediate v] \<rparr>])
          (next @ [PriorNote layer (length txs) 0 v]) leftover))))"

text \<open>Returns the notes left over, and the extended \<open>txs\<close> and \<open>next\<close>.\<close>

definition consolidate ::
  "nat \<Rightarrow> (prep_input list \<Rightarrow> prep_input \<Rightarrow> nat) \<Rightarrow> prep_input list \<Rightarrow> nat \<Rightarrow> nat \<Rightarrow>
     prep_transaction list \<Rightarrow> prep_input list \<Rightarrow>
     (prep_input list \<times> prep_transaction list \<times> prep_input list) planner" where
  "consolidate mm tie pool layer fee txs next =
     (if length pool < 2 then Inr (pool, txs, next)
      else consolidate_batches mm layer fee (consolidation_batch_sizes (length pool))
             (sort_notes_desc tie pool) txs next [])"

section \<open>Positions of notes in a plan\<close>

text \<open>The loops over layers, transactions and outputs, with their indices.\<close>

definition located_outputs :: "prep_layers \<Rightarrow> ((nat \<times> nat \<times> nat) \<times> prep_output) list" where
  "located_outputs layers =
     concat (map (\<lambda>(li, layer).
       concat (map (\<lambda>(ti, tx).
         map (\<lambda>(oi, out). ((li, ti, oi), out)) (enumerate 0 (prep_outputs tx)))
       (enumerate 0 layer)))
     (enumerate 0 layers))"

fun prior_position :: "prep_input \<Rightarrow> (nat \<times> nat \<times> nat) option" where
  "prior_position (WalletNote _ _) = None"
| "prior_position (PriorNote layer transaction out _) = Some (layer, transaction, out)"

definition spent_positions :: "prep_layers \<Rightarrow> (nat \<times> nat \<times> nat) list" where
  "spent_positions layers =
     List.map_filter prior_position (concat (map prep_inputs (concat layers)))"

fun feeder_at :: "(nat \<times> nat \<times> nat) list \<Rightarrow> (nat \<times> nat \<times> nat) \<times> prep_output \<Rightarrow> prep_input option" where
  "feeder_at spent ((li, ti, oi), Intermediate v) =
     (if (li, ti, oi) \<in> set spent then None else Some (PriorNote li ti oi v))"
| "feeder_at spent _ = None"

definition unconsumed_feeders :: "prep_layers \<Rightarrow> prep_input list" where
  "unconsumed_feeders layers =
     List.map_filter (feeder_at (spent_positions layers)) (located_outputs layers)"

text \<open>Relabel every intermediate output that no transaction spends as change.\<close>

fun relabel_output ::
  "(nat \<times> nat \<times> nat) list \<Rightarrow> nat \<times> nat \<times> nat \<Rightarrow> prep_output \<Rightarrow> prep_output" where
  "relabel_output spent position (Intermediate v) =
     (if position \<in> set spent then Intermediate v else Change v)"
| "relabel_output spent position out = out"

definition relabel_unspent :: "prep_layers \<Rightarrow> prep_layers" where
  "relabel_unspent layers =
     (let spent = spent_positions layers in
      map (\<lambda>(li, layer).
        map (\<lambda>(ti, tx).
          tx\<lparr>prep_outputs := map (\<lambda>(oi, out). relabel_output spent (li, ti, oi) out)
                                (enumerate 0 (prep_outputs tx))\<rparr>)
        (enumerate 0 layer))
      (enumerate 0 layers))"

section \<open>Balanced splits\<close>

definition subtree_capacity :: "nat \<Rightarrow> nat" where
  "subtree_capacity depth = FUNDING_OUTPUTS_PER_TX ^ depth"

lemma less_subtree_capacity: "depth < subtree_capacity depth"
  by (simp add: subtree_capacity_def FUNDING_OUTPUTS_PER_TX_def PREP_TX_ACTIONS_def
      power_gt_expt)

function split_depth_loop :: "nat \<Rightarrow> nat \<Rightarrow> nat" where
  "split_depth_loop n depth =
     (if subtree_capacity depth < n then split_depth_loop n (depth + 1) else depth)"
  by pat_completeness auto
termination
  by (relation "measure (\<lambda>(n, depth). n - depth)")
    (auto intro: diff_less_mono2 less_trans [OF less_subtree_capacity])

declare split_depth_loop.simps [simp del]

definition split_depth :: "nat \<Rightarrow> nat" where
  "split_depth n = (if n = 0 then 0 else split_depth_loop n 1)"

definition even_group_sizes :: "nat \<Rightarrow> nat \<Rightarrow> nat list" where
  "even_group_sizes len g =
     (let base = len div g; extra = len mod g in
      map (\<lambda>i. base + (if i < extra then 1 else 0)) [0..<g])"

definition div_ceil :: "nat \<Rightarrow> nat \<Rightarrow> nat" where
  "div_ceil a b = a div b + (if a mod b = 0 then 0 else 1)"

text \<open>The slices \<open>targets[start..start + size]\<close> with \<open>start\<close> running over the sizes.\<close>

fun group_slices :: "nat list \<Rightarrow> 'a list \<Rightarrow> 'a list list" where
  "group_slices [] xs = []"
| "group_slices (n # sizes) xs = take n xs # group_slices sizes (drop n xs)"

definition child_groups :: "'a list \<Rightarrow> 'a list list" where
  "child_groups targets =
     (let child_cap = subtree_capacity (split_depth (length targets) - 1);
          g = div_ceil (length targets) child_cap
      in group_slices (even_group_sizes (length targets) g) targets)"

lemma div_ceil_bounds:
  assumes "0 < b"
  shows "a \<le> div_ceil a b * b" and "div_ceil a b * b < a + b"
proof -
  define q r where "q = a div b" and "r = a mod b"
  have "a = q * b + r" and "r < b" using assms by (simp_all add: q_def r_def)
  moreover have "div_ceil a b = q + (if r = 0 then 0 else 1)"
    by (simp add: div_ceil_def q_def r_def)
  ultimately show "a \<le> div_ceil a b * b" "div_ceil a b * b < a + b"
    by (simp_all add: algebra_simps)
qed

lemma sum_list_even_group_sizes: "0 < g \<Longrightarrow> sum_list (even_group_sizes len g) = len"
proof -
  assume "0 < g"
  have ones: "sum_list (map (\<lambda>i. if i < e then 1 else 0) [0..<g]) = (min e g :: nat)" for e
    by (induction g) (auto simp: min_def)
  have "sum_list (even_group_sizes len g) =
      sum_list (map (\<lambda>i. len div g) [0..<g]) +
      sum_list (map (\<lambda>i. if i < len mod g then 1 else 0) [0..<g])"
    by (simp add: even_group_sizes_def Let_def sum_list_addf)
  also have "\<dots> = g * (len div g) + len mod g"
    using \<open>0 < g\<close> by (simp add: ones sum_list_triv min_absorb1 less_imp_le del: upt_Suc)
  finally show ?thesis by simp
qed

lemma length_even_group_sizes [simp]: "length (even_group_sizes len g) = g"
  by (simp add: even_group_sizes_def Let_def)

lemma even_group_sizes_bounds:
  "s \<in> set (even_group_sizes len g) \<Longrightarrow> len div g \<le> s \<and> s \<le> div_ceil len g"
  by (auto simp: even_group_sizes_def Let_def div_ceil_def)

lemma length_group_slices [simp]: "length (group_slices counts xs) = length counts"
  by (induction counts xs rule: group_slices.induct) auto

lemma group_slices_lengths:
  "sum_list counts \<le> length xs \<Longrightarrow> map length (group_slices counts xs) = counts"
  by (induction counts xs rule: group_slices.induct) auto

lemma concat_group_slices:
  "concat (group_slices counts xs) = take (sum_list counts) xs"
  by (induction counts xs rule: group_slices.induct) (simp_all add: take_add)

lemma subtree_capacity_pos: "0 < subtree_capacity d"
  by (simp add: subtree_capacity_def FUNDING_OUTPUTS_PER_TX_def PREP_TX_ACTIONS_def)

lemma split_depth_loop_spec:
  "(depth = d0 \<or> subtree_capacity (depth - 1) < n) \<Longrightarrow> d0 \<le> depth \<Longrightarrow>
   (let d = split_depth_loop n depth in
      n \<le> subtree_capacity d \<and> (d = d0 \<or> subtree_capacity (d - 1) < n) \<and> d0 \<le> d)"
proof (induction n depth rule: split_depth_loop.induct)
  case (1 n depth)
  show ?case
  proof (cases "subtree_capacity depth < n")
    case True
    have "split_depth_loop n depth = split_depth_loop n (depth + 1)"
      using True by (subst split_depth_loop.simps) simp
    then show ?thesis using 1 True by (simp add: Let_def)
  next
    case False
    then have "split_depth_loop n depth = depth"
      by (subst split_depth_loop.simps) simp
    then show ?thesis using 1 False by (simp add: Let_def)
  qed
qed

text \<open>\<open>split_depth\<close> is the least depth whose capacity reaches \<open>n\<close>.\<close>

lemma split_depth_capacity: "n \<le> subtree_capacity (split_depth n)"
  using split_depth_loop_spec [of 1 1 n] by (simp add: split_depth_def Let_def)

lemma split_depth_least: "1 < split_depth n \<Longrightarrow> subtree_capacity (split_depth n - 1) < n"
  using split_depth_loop_spec [of 1 1 n] by (auto simp: split_depth_def Let_def split: if_splits)

lemma subtree_capacity_mono: "a \<le> b \<Longrightarrow> subtree_capacity a \<le> subtree_capacity b"
  unfolding subtree_capacity_def
  by (rule power_increasing) (simp_all add: FUNDING_OUTPUTS_PER_TX_def PREP_TX_ACTIONS_def)

lemma split_depth_le: "n \<le> subtree_capacity d \<Longrightarrow> 1 \<le> d \<Longrightarrow> split_depth n \<le> d"
proof (rule ccontr)
  assume n: "n \<le> subtree_capacity d" and d: "1 \<le> d" and "\<not> split_depth n \<le> d"
  then have "1 < split_depth n" and "d \<le> split_depth n - 1" by auto
  then show False
    using n split_depth_least [of n] subtree_capacity_mono [of d "split_depth n - 1"] by simp
qed

lemma split_depth_leaf: "split_depth n \<le> 1 \<longleftrightarrow> n \<le> FUNDING_OUTPUTS_PER_TX"
proof
  assume "split_depth n \<le> 1"
  then show "n \<le> FUNDING_OUTPUTS_PER_TX"
    using split_depth_capacity [of n] subtree_capacity_mono [of "split_depth n" 1]
    by (simp add: subtree_capacity_def)
next
  assume "n \<le> FUNDING_OUTPUTS_PER_TX"
  then show "split_depth n \<le> 1"
    using split_depth_le [of n 1] by (simp add: subtree_capacity_def)
qed

definition group_count :: "nat \<Rightarrow> nat" where
  "group_count n = div_ceil n (subtree_capacity (split_depth n - 1))"

lemma group_count_bounds:
  assumes "1 < split_depth n"
  shows "2 \<le> group_count n" and "group_count n \<le> FUNDING_OUTPUTS_PER_TX"
    and "n \<le> group_count n * subtree_capacity (split_depth n - 1)"
proof -
  let ?c = "subtree_capacity (split_depth n - 1)"
  have c: "0 < ?c" by (rule subtree_capacity_pos)
  show upper: "n \<le> group_count n * ?c"
    unfolding group_count_def by (rule div_ceil_bounds(1) [OF c])
  have "?c < n" by (rule split_depth_least [OF assms])
  have "\<not> group_count n \<le> 1"
  proof
    assume "group_count n \<le> 1"
    then have "group_count n * ?c \<le> 1 * ?c" by (rule mult_le_mono1)
    then show False using upper \<open>?c < n\<close> by linarith
  qed
  then show "2 \<le> group_count n" by simp
  have "n \<le> FUNDING_OUTPUTS_PER_TX * ?c"
    using split_depth_capacity [of n] assms
    by (simp add: subtree_capacity_def flip: power_Suc)
  then have "group_count n * ?c < FUNDING_OUTPUTS_PER_TX * ?c + ?c"
    using div_ceil_bounds(2) [OF c, of n] unfolding group_count_def by linarith
  then have "group_count n * ?c < Suc FUNDING_OUTPUTS_PER_TX * ?c" by simp
  then have "group_count n < Suc FUNDING_OUTPUTS_PER_TX" by (simp only: mult_less_cancel2)
  then show "group_count n \<le> FUNDING_OUTPUTS_PER_TX" by simp
qed

lemma child_groups_eq:
  "child_groups targets =
     group_slices (even_group_sizes (length targets) (group_count (length targets))) targets"
  by (simp add: child_groups_def group_count_def Let_def)

lemma concat_child_groups: "1 < split_depth (length targets) \<Longrightarrow> concat (child_groups targets) = targets"
  using group_count_bounds(1) [of "length targets"]
  by (simp add: child_groups_eq concat_group_slices sum_list_even_group_sizes)

lemma length_child_groups [simp]: "length (child_groups targets) = group_count (length targets)"
  by (simp add: child_groups_eq)

lemma child_group_bounds:
  assumes d: "1 < split_depth (length targets)" and g: "grp \<in> set (child_groups targets)"
  shows "0 < length grp" and "length grp < length targets"
    and "length grp \<le> subtree_capacity (split_depth (length targets) - 1)"
proof -
  let ?n = "length targets" and ?g = "group_count (length targets)"
  let ?c = "subtree_capacity (split_depth (length targets) - 1)"
  note gb = group_count_bounds [OF d]
  have g0: "0 < ?g" using gb by simp
  have "length grp \<in> set (even_group_sizes ?n ?g)"
    using g g0 group_slices_lengths [of "even_group_sizes ?n ?g" targets]
    by (metis child_groups_eq image_eqI list.set_map order_refl sum_list_even_group_sizes)
  then have lo: "?n div ?g \<le> length grp" and hi: "length grp \<le> div_ceil ?n ?g"
    using even_group_sizes_bounds by blast+
  have c: "?c < ?n" by (rule split_depth_least [OF d])
  have "FUNDING_OUTPUTS_PER_TX < ?n" using d split_depth_leaf [of ?n] by simp
  then have "?g \<le> ?n" using gb by simp
  then have "0 < ?n div ?g" using g0 by (simp add: div_greater_zero_iff)
  then show "0 < length grp" using lo by (rule less_le_trans)
  have "div_ceil ?n ?g * ?g < ?n + ?g" by (rule div_ceil_bounds(2) [OF g0])
  also have "\<dots> \<le> ?c * ?g + ?g" using gb(3) by (simp add: mult.commute)
  finally have "div_ceil ?n ?g * ?g < Suc ?c * ?g" by simp
  then have "div_ceil ?n ?g < Suc ?c" by (simp only: mult_less_cancel2)
  then show "length grp \<le> ?c" using hi by simp
  then show "length grp < ?n" using c by simp
qed

function subtree_cost :: "nat list \<Rightarrow> nat \<Rightarrow> (nat \<times> nat) planner" where
  "subtree_cost targets fee =
     (if split_depth (length targets) \<le> 1 then
        and_then (sum_u 64 targets) (\<lambda>sum.
        and_then (add_u 64 sum fee) (\<lambda>value. Inr (1, value)))
      else
        try_fold (\<lambda>state grp. case state of (txs, value) \<Rightarrow>
          and_then (subtree_cost grp fee) (\<lambda>(t, v).
          and_then (add_u 64 txs t) (\<lambda>txs'.
          and_then (add_u 64 value v) (\<lambda>value'. Inr (txs', value')))))
        (1, fee) (child_groups targets))"
  by pat_completeness auto
termination
  by (relation "measure (\<lambda>(targets, fee). length targets)")
    (auto simp: not_le intro: child_group_bounds)

declare subtree_cost.simps [simp del]

text \<open>The values the children of an internal node must carry, in order.\<close>

definition child_values :: "nat \<Rightarrow> nat list list \<Rightarrow> nat list planner" where
  "child_values fee groups =
     collect_results (map (\<lambda>grp. and_then (subtree_cost grp fee) (\<lambda>(t, v). Inr v)) groups)"

text \<open>The transaction of one node: its outputs, and any leftover as an intermediate note.\<close>

definition split_transaction ::
  "nat \<Rightarrow> prep_input \<Rightarrow> nat \<Rightarrow> nat \<Rightarrow> (nat \<Rightarrow> prep_output) \<Rightarrow> nat list \<Rightarrow> prep_transaction planner" where
  "split_transaction mm source source_value fee label values =
     and_then (collect_results (map (zat mm) values)) (\<lambda>zs.
     and_then (sum_u 64 values) (\<lambda>spent.
     and_then (sub_u source_value fee) (\<lambda>rest.
     and_then (sub_u rest spent) (\<lambda>leftover.
     if 0 < leftover then
       and_then (zat mm leftover) (\<lambda>l.
       Inr \<lparr> prep_inputs = [source], prep_outputs = map label zs @ [Intermediate l] \<rparr>)
     else Inr \<lparr> prep_inputs = [source], prep_outputs = map label zs \<rparr>))))"

definition ensure_layer :: "nat \<Rightarrow> prep_layers \<Rightarrow> prep_layers" where
  "ensure_layer layer layers = layers @ replicate (Suc layer - length layers) []"

definition push_transaction :: "nat \<Rightarrow> prep_transaction \<Rightarrow> prep_layers \<Rightarrow> prep_layers" where
  "push_transaction layer tx layers = layers[layer := layers ! layer @ [tx]]"

function build_split ::
  "nat \<Rightarrow> prep_input \<Rightarrow> nat \<Rightarrow> nat list \<Rightarrow> nat \<Rightarrow> nat \<Rightarrow> prep_layers \<Rightarrow> prep_layers planner" where
  "build_split mm source source_value targets fee layer layers0 =
     (let layers = ensure_layer layer layers0;
          tx_index = length (layers ! layer)
      in
      if split_depth (length targets) \<le> 1 then
        and_then (split_transaction mm source source_value fee Funding targets) (\<lambda>tx.
        Inr (push_transaction layer tx layers))
      else
        and_then (child_values fee (child_groups targets)) (\<lambda>values.
        and_then (split_transaction mm source source_value fee Intermediate values) (\<lambda>tx.
        try_fold (\<lambda>ls (out, grp).
            and_then (zat mm (values ! out)) (\<lambda>cv.
            build_split mm (PriorNote layer tx_index out cv) (values ! out) grp fee (layer + 1) ls))
          (push_transaction layer tx layers) (enumerate 0 (child_groups targets)))))"
  by pat_completeness auto
termination
  by (relation "measure (\<lambda>(mm, source, v, targets, rest). length targets)")
    (auto simp: not_le enumerate_eq_zip intro: child_group_bounds dest: set_zip_rightD)

declare build_split.simps [simp del]

end
