(* ===== verification/PrepPlanner.thy ===== *)
theory PrepPlanner
  imports PrepPlan
begin

text \<open>
  The planning algorithms of \<open>preparation_plan.rs\<close>: the layered greedy planner, the loop that
  merges its residual notes, the fallback through one consolidated note, and \<open>plan_preparation\<close>
  that tries them in turn. The loops are total functions; the facts their termination needs come
  before them.
\<close>

section \<open>What a consolidation does\<close>

lemma consolidation_batch_sizes_0 [simp]: "consolidation_batch_sizes 0 = []"
  by (simp add: consolidation_batch_sizes.simps)

lemma batch_limit: "CONSOLIDATION_INPUTS_PER_TX = 15"
  by (simp add: CONSOLIDATION_INPUTS_PER_TX_def PREP_TX_ACTIONS_def)

lemma consolidation_batch_sizes_bounds:
  "2 \<le> n \<Longrightarrow>
   sum_list (consolidation_batch_sizes n) = n \<and>
   (\<forall>s \<in> set (consolidation_batch_sizes n). 2 \<le> s \<and> s \<le> CONSOLIDATION_INPUTS_PER_TX)"
proof (induction n rule: consolidation_batch_sizes.induct)
  case (1 n)
  define m where "m = (if n \<le> 15 then n else if n - 15 = 1 then 15 - 1 else (15 :: nat))"
  have unfold: "consolidation_batch_sizes n = m # consolidation_batch_sizes (n - m)"
    using 1(2)
    by (subst consolidation_batch_sizes.simps) (simp add: m_def batch_limit Let_def)
  have m: "2 \<le> m" "m \<le> 15" "m \<le> n" "n - m = 0 \<or> 2 \<le> n - m"
    using 1(2) by (auto simp: m_def)
  show ?case
  proof (cases "n - m = 0")
    case True
    then have "consolidation_batch_sizes n = [m]" by (simp add: unfold)
    then show ?thesis using m True by (simp add: batch_limit)
  next
    case False
    have "n \<noteq> 0" using 1(2) by simp
    have "m = (if n \<le> CONSOLIDATION_INPUTS_PER_TX then n
        else if n - CONSOLIDATION_INPUTS_PER_TX = 1 then CONSOLIDATION_INPUTS_PER_TX - 1
        else CONSOLIDATION_INPUTS_PER_TX)"
      by (simp add: m_def batch_limit)
    moreover have "2 \<le> n - m" using m(4) False by blast
    ultimately have
      "sum_list (consolidation_batch_sizes (n - m)) = n - m \<and>
       (\<forall>s \<in> set (consolidation_batch_sizes (n - m)). 2 \<le> s \<and> s \<le> CONSOLIDATION_INPUTS_PER_TX)"
      by (rule 1(1) [OF \<open>n \<noteq> 0\<close> refl])
    then show ?thesis using m by (simp add: unfold batch_limit)
  qed
qed

definition inputs_value :: "prep_input list \<Rightarrow> nat" where
  "inputs_value notes = sum_list (map prep_input_value notes)"

lemma inputs_value_simps [simp]:
  "inputs_value [] = 0" "inputs_value (n # ns) = prep_input_value n + inputs_value ns"
  "inputs_value (ms @ ns) = inputs_value ms + inputs_value ns"
  by (simp_all add: inputs_value_def)

lemma inputs_value_mset: "mset ms = mset ns \<Longrightarrow> inputs_value ms = inputs_value ns"
  unfolding inputs_value_def by (intro sum_list_mset_eq) simp

text \<open>A transaction merging a batch of notes into one feeder.\<close>

definition is_consolidation :: "nat \<Rightarrow> nat set \<Rightarrow> prep_transaction \<Rightarrow> bool" where
  "is_consolidation fee sizes tx \<longleftrightarrow>
     (\<exists>v. prep_outputs tx = [Intermediate v] \<and> 0 < v \<and> length (prep_inputs tx) \<in> sizes \<and>
          inputs_value (prep_inputs tx) = v + fee)"

definition feeder_note :: "nat \<Rightarrow> nat \<times> prep_transaction \<Rightarrow> prep_input" where
  "feeder_note layer p =
     PriorNote layer (fst p) 0 (prep_output_value (hd (prep_outputs (snd p))))"

lemma zat_InrD: "zat mm v = Inr z \<Longrightarrow> z = v \<and> v \<le> mm"
  by (auto simp: zat_def split: if_splits)

lemma zat_eq [simp]: "v \<le> mm \<Longrightarrow> zat mm v = Inr v"
  by (simp add: zat_def)

lemma is_consolidation_mono: "is_consolidation fee A tx \<Longrightarrow> A \<subseteq> B \<Longrightarrow> is_consolidation fee B tx"
  by (auto simp: is_consolidation_def)

lemma consolidate_batches_shape:
  assumes "consolidate_batches mm layer fee sizes pool txs next left = Inr (left', txs', next')"
    and "sum_list sizes \<le> length pool"
  shows "\<exists>new. txs' = txs @ new \<and>
    next' = next @ map (feeder_note layer) (enumerate (length txs) new) \<and>
    (\<forall>tx \<in> set new. is_consolidation fee (set sizes) tx) \<and>
    mset left' + mset (concat (map prep_inputs new)) = mset left + mset (take (sum_list sizes) pool)"
  using assms
proof (induction sizes arbitrary: pool txs "next" left)
  case Nil
  then show ?case by simp
next
  case (Cons n sizes)
  let ?batch = "take n pool" and ?rest = "drop n pool"
  have rest: "sum_list sizes \<le> length ?rest" using Cons.prems by auto
  obtain sum where sum: "sum_u 64 (map prep_input_value ?batch) = (Inr sum :: nat planner)"
    using Cons.prems(1) by (auto simp: and_then_eq_Inr Let_def)
  then have val: "sum = inputs_value ?batch" unfolding inputs_value_def by (rule sum_u_InrD)
  have split: "mset (take (sum_list (n # sizes)) pool) = mset ?batch + mset (take (sum_list sizes) ?rest)"
    by (simp add: take_add)
  show ?case
  proof (cases "sum \<le> fee")
    case True
    then have "consolidate_batches mm layer fee sizes ?rest txs next (left @ ?batch) = Inr (left', txs', next')"
      using Cons.prems(1) by (simp only: consolidate_batches.simps Let_def sum and_then_Inr if_True)
    from Cons.IH [OF this rest] show ?thesis
      unfolding split by (auto intro: is_consolidation_mono simp: ac_simps)
  next
    case False
    then have sub: "sub_u sum fee = (Inr (sum - fee) :: nat planner)" by simp
    let ?tx = "\<lparr> prep_inputs = ?batch, prep_outputs = [Intermediate (sum - fee)] \<rparr>"
    let ?next = "next @ [PriorNote layer (length txs) 0 (sum - fee)]"
    have "consolidate_batches mm layer fee sizes ?rest (txs @ [?tx]) ?next left = Inr (left', txs', next')"
      using Cons.prems(1)
      by (auto simp only: consolidate_batches.simps Let_def sum and_then_Inr if_not_P [OF False]
          sub and_then_eq_Inr dest: zat_InrD)
    from Cons.IH [OF this rest] obtain new where
      new: "txs' = (txs @ [?tx]) @ new"
        "next' = ?next @ map (feeder_note layer) (enumerate (length (txs @ [?tx])) new)" and
      txs: "\<forall>tx \<in> set new. is_consolidation fee (set sizes) tx" and
      left: "mset left' + mset (concat (map prep_inputs new)) =
        mset left + mset (take (sum_list sizes) ?rest)"
      by blast
    have "is_consolidation fee (set (n # sizes)) ?tx"
      using False val Cons.prems by (auto simp: is_consolidation_def min_absorb2)
    moreover have "\<forall>tx \<in> set new. is_consolidation fee (set (n # sizes)) tx"
      using txs by (auto simp: is_consolidation_def)
    moreover have "mset left' + mset (concat (map prep_inputs (?tx # new))) =
        mset left + mset (take (sum_list (n # sizes)) pool)"
      using left by (simp only: split) (simp add: ac_simps)
    ultimately show ?thesis
      using new by (intro exI [of _ "?tx # new"]) (simp add: feeder_note_def)
  qed
qed

lemma consolidate_batches_total:
  assumes "inputs_value pool \<le> mm" and "mm < 2 ^ 64"
  shows "\<exists>r. consolidate_batches mm layer fee sizes pool txs next left = Inr r"
  using assms(1)
proof (induction sizes arbitrary: pool txs "next" left)
  case (Cons n sizes)
  let ?batch = "take n pool" and ?rest = "drop n pool"
  have pool: "inputs_value pool = inputs_value ?batch + inputs_value ?rest"
    by (metis append_take_drop_id inputs_value_simps(3))
  have rest: "inputs_value ?rest \<le> mm" using Cons.prems pool by linarith
  have sum: "sum_u 64 (map prep_input_value ?batch) = (Inr (inputs_value ?batch) :: nat planner)"
    using Cons.prems pool assms(2) unfolding inputs_value_def by (intro sum_u_eq) linarith
  show ?case
  proof (cases "inputs_value ?batch \<le> fee")
    case True
    then show ?thesis using Cons.IH [OF rest] by (simp add: Let_def sum)
  next
    case False
    let ?v = "inputs_value ?batch - fee"
    have "zat mm ?v = Inr ?v" using Cons.prems pool by (intro zat_eq) linarith
    moreover have "sub_u (inputs_value ?batch) fee = (Inr ?v :: nat planner)" using False by simp
    ultimately show ?thesis
      unfolding consolidate_batches.simps Let_def sum and_then_Inr if_not_P [OF False]
      using Cons.IH [OF rest] by simp
  qed
qed simp

lemma mset_sort_notes_desc [simp]: "mset (sort_notes_desc tie notes) = mset notes"
  by (simp add: sort_notes_desc_def)

lemma length_sort_notes_desc [simp]: "length (sort_notes_desc tie notes) = length notes"
  by (simp add: sort_notes_desc_def)

lemma consolidate_shape:
  assumes "consolidate mm tie pool layer fee txs next = Inr (left, txs', next')"
  shows "\<exists>new. txs' = txs @ new \<and>
    next' = next @ map (feeder_note layer) (enumerate (length txs) new) \<and>
    (\<forall>tx \<in> set new. is_consolidation fee {2..15} tx) \<and>
    mset left + mset (concat (map prep_inputs new)) = mset pool"
proof (cases "length pool < 2")
  case True
  then show ?thesis using assms by (simp add: consolidate_def)
next
  case False
  let ?sizes = "consolidation_batch_sizes (length pool)"
  have sizes: "sum_list ?sizes = length pool" "set ?sizes \<subseteq> {2..15}"
    using consolidation_batch_sizes_bounds [of "length pool"] False by (auto simp: batch_limit)
  have "consolidate_batches mm layer fee ?sizes (sort_notes_desc tie pool) txs next [] =
      Inr (left, txs', next')"
    using assms False by (simp add: consolidate_def)
  from consolidate_batches_shape [OF this] sizes show ?thesis
    by (auto intro: is_consolidation_mono)
qed

lemma consolidate_total:
  assumes "inputs_value pool \<le> mm" and "mm < 2 ^ 64"
  shows "\<exists>r. consolidate mm tie pool layer fee txs next = Inr r"
proof -
  have "inputs_value (sort_notes_desc tie pool) = inputs_value pool"
    by (rule inputs_value_mset) simp
  then show ?thesis
    using consolidate_batches_total [OF _ assms(2)] assms(1) by (simp add: consolidate_def)
qed

section \<open>One layer of the greedy planner\<close>

function assign_funding ::
  "nat \<Rightarrow> nat list \<Rightarrow> nat \<Rightarrow> nat list \<Rightarrow> nat \<Rightarrow> (nat list \<times> nat list \<times> nat) planner" where
  "assign_funding budget remaining i assigned used =
     (if i < length remaining \<and> length assigned < FUNDING_OUTPUTS_PER_TX then
        and_then (add_u 64 used (remaining ! i)) (\<lambda>sum.
        if sum \<le> budget then
          assign_funding budget (take i remaining @ drop (Suc i) remaining) i
            (assigned @ [remaining ! i]) sum
        else assign_funding budget remaining (i + 1) assigned used)
      else Inr (remaining, assigned, used))"
  by pat_completeness auto
termination
  by (relation "measure (\<lambda>(budget, remaining, i, assigned, used). length remaining - i)") auto

declare assign_funding.simps [simp del]

type_synonym partial_spend = "prep_input \<times> nat list \<times> nat"

text \<open>Pass 1. Once nothing remains, the rest of the notes stay unspent.\<close>

fun assign_pass ::
  "nat \<Rightarrow> prep_input list \<Rightarrow> nat list \<Rightarrow> partial_spend list \<Rightarrow> prep_input list \<Rightarrow>
     (nat list \<times> partial_spend list \<times> prep_input list) planner" where
  "assign_pass fee [] remaining partial consolidatable = Inr (remaining, partial, consolidatable)"
| "assign_pass fee (input # rest) remaining partial consolidatable =
     (if remaining = [] then assign_pass fee rest remaining partial consolidatable
      else
        let value = prep_input_value input; smallest = last remaining in
        if value \<le> fee \<or> value - fee < smallest then
          assign_pass fee rest remaining partial (consolidatable @ [input])
        else
          let budget = value - fee in
          and_then (assign_funding budget remaining 0 [] 0) (\<lambda>(remaining', assigned, used).
          and_then (sub_u budget used) (\<lambda>leftover.
          assign_pass fee rest remaining' (partial @ [(input, assigned, leftover)]) consolidatable)))"

text \<open>Pass 2: mint the assigned notes, and route every leftover forward.\<close>

fun mint_pass ::
  "nat \<Rightarrow> nat \<Rightarrow> partial_spend list \<Rightarrow> prep_transaction list \<Rightarrow> prep_input list \<Rightarrow>
     (prep_transaction list \<times> prep_input list) planner" where
  "mint_pass mm layer [] txs next = Inr (txs, next)"
| "mint_pass mm layer ((input, assigned, leftover) # rest) txs next =
     and_then (collect_results (map (\<lambda>v. and_then (zat mm v) (\<lambda>z. Inr (Funding z))) assigned)) (\<lambda>outputs.
     if 0 < leftover then
       and_then (zat mm leftover) (\<lambda>l.
       mint_pass mm layer rest
         (txs @ [\<lparr> prep_inputs = [input], prep_outputs = outputs @ [Intermediate l] \<rparr>])
         (next @ [PriorNote layer (length txs) (length outputs) l]))
     else mint_pass mm layer rest (txs @ [\<lparr> prep_inputs = [input], prep_outputs = outputs \<rparr>]) next)"

definition greedy_layer ::
  "nat \<Rightarrow> (prep_input list \<Rightarrow> prep_input \<Rightarrow> nat) \<Rightarrow> nat \<Rightarrow> nat \<Rightarrow> nat list \<Rightarrow> prep_input list \<Rightarrow>
     (nat list \<times> prep_transaction list \<times> prep_input list) planner" where
  "greedy_layer mm tie fee layer remaining current =
     and_then (assign_pass fee (sort_notes_desc tie current) remaining [] []) (\<lambda>(remaining', partial, consolidatable).
     and_then (mint_pass mm layer partial [] []) (\<lambda>(txs, next).
     and_then (consolidate mm tie consolidatable layer fee txs next) (\<lambda>(leftover, txs', next').
     Inr (remaining', txs', next'))))"

text \<open>
  What an assignment does: it moves values from \<open>remaining\<close> to \<open>assigned\<close>, within the budget and
  the output limit; and it assigns something when the last value fits.
\<close>

lemma assign_funding_shape:
  "assign_funding budget remaining i assigned used = Inr (remaining', assigned', used') \<Longrightarrow>
   used \<le> budget \<Longrightarrow> length assigned \<le> FUNDING_OUTPUTS_PER_TX \<Longrightarrow>
   mset remaining' + mset assigned' = mset remaining + mset assigned \<and>
   used' + sum_list assigned = used + sum_list assigned' \<and> used' \<le> budget \<and>
   length assigned' \<le> FUNDING_OUTPUTS_PER_TX \<and> length assigned \<le> length assigned'"
proof (induction budget remaining i assigned used rule: assign_funding.induct)
  case (1 budget remaining i assigned used)
  show ?case
  proof (cases "i < length remaining \<and> length assigned < FUNDING_OUTPUTS_PER_TX")
    case True
    then obtain sum where
      sum: "add_u 64 used (remaining ! i) = (Inr sum :: nat planner)" and
      eq: "(if sum \<le> budget then
          assign_funding budget (take i remaining @ drop (Suc i) remaining) i
            (assigned @ [remaining ! i]) sum
        else assign_funding budget remaining (i + 1) assigned used) =
          Inr (remaining', assigned', used')"
      using 1(3) by (subst (asm) assign_funding.simps) (auto simp: and_then_eq_Inr)
    have s: "sum = used + remaining ! i" using add_u_InrD [OF sum] by simp
    have m: "mset (take i remaining @ drop (Suc i) remaining) + {#remaining ! i#} = mset remaining"
      using True by (simp only: mset_remove_nth)
    show ?thesis
    proof (cases "sum \<le> budget")
      case fits: True
      then show ?thesis
        using 1(1) [OF True sum fits] eq True s m 1(5) by (auto simp: ac_simps)
    next
      case False
      then show ?thesis using 1(2) [OF True sum False] eq 1(4,5) by simp
    qed
  next
    case False
    then show ?thesis using 1 by (subst (asm) (3) assign_funding.simps) auto
  qed
qed

lemma assign_funding_progress:
  "assign_funding budget remaining i [] 0 = Inr (remaining', assigned', used') \<Longrightarrow>
   i < length remaining \<Longrightarrow> last remaining \<le> budget \<Longrightarrow> assigned' \<noteq> []"
proof (induction "length remaining - i" arbitrary: i)
  case 0
  then show ?case by simp
next
  case (Suc k)
  have lim: "length [] < FUNDING_OUTPUTS_PER_TX"
    by (simp add: FUNDING_OUTPUTS_PER_TX_def PREP_TX_ACTIONS_def)
  obtain sum where
    sum: "add_u 64 0 (remaining ! i) = (Inr sum :: nat planner)" and
    eq: "(if sum \<le> budget then
        assign_funding budget (take i remaining @ drop (Suc i) remaining) i ([] @ [remaining ! i]) sum
      else assign_funding budget remaining (i + 1) [] 0) = Inr (remaining', assigned', used')"
    using Suc.prems(1,2) lim unfolding assign_funding.simps [of budget remaining i "[]" 0]
    by (auto simp: and_then_eq_Inr)
  have s: "sum = remaining ! i" using add_u_InrD [OF sum] by simp
  show ?case
  proof (cases "sum \<le> budget")
    case True
    then have "length [remaining ! i] \<le> length assigned'"
      using assign_funding_shape [of budget _ i "[remaining ! i]" sum] eq lim by auto
    then show ?thesis by auto
  next
    case False
    have "i \<noteq> length remaining - 1"
      using False s Suc.prems(2,3) last_conv_nth [of remaining] by (cases "remaining = []") auto
    then have "i + 1 < length remaining" using Suc.prems by simp
    moreover have "assign_funding budget remaining (i + 1) [] 0 = Inr (remaining', assigned', used')"
      using eq False by simp
    moreover have "k = length remaining - (i + 1)" using Suc.hyps(2) by simp
    ultimately show ?thesis using Suc.hyps(1) Suc.prems(3) by blast
  qed
qed

lemma assign_funding_total:
  "used \<le> budget \<Longrightarrow> (\<forall>v \<in> set remaining. budget + v < 2 ^ 64) \<Longrightarrow>
   \<exists>r. assign_funding budget remaining i assigned used = Inr r"
proof (induction budget remaining i assigned used rule: assign_funding.induct)
  case (1 budget remaining i assigned used)
  show ?case
  proof (cases "i < length remaining \<and> length assigned < FUNDING_OUTPUTS_PER_TX")
    case True
    then have "budget + remaining ! i < 2 ^ 64" using 1(4) by (meson nth_mem)
    then have sum: "add_u 64 used (remaining ! i) = (Inr (used + remaining ! i) :: nat planner)"
      using 1(3) by (intro add_u_eq) linarith
    have sub: "\<forall>v \<in> set (take i remaining @ drop (Suc i) remaining). budget + v < 2 ^ 64"
      using 1(4) by (auto dest: in_set_takeD in_set_dropD)
    show ?thesis
      using 1(1) [OF True sum _ _ sub] 1(2) [OF True sum _ 1(3,4)] True
      by (subst assign_funding.simps) (auto simp: sum)
  next
    case False
    then show ?thesis by (subst assign_funding.simps) auto
  qed
qed

text \<open>A note with the values it will mint and what is left of it.\<close>

definition partial_ok :: "nat \<Rightarrow> partial_spend \<Rightarrow> bool" where
  "partial_ok fee p \<longleftrightarrow> (case p of (input, assigned, leftover) \<Rightarrow>
     assigned \<noteq> [] \<and> length assigned \<le> FUNDING_OUTPUTS_PER_TX \<and>
     prep_input_value input = fee + sum_list assigned + leftover)"

definition partial_values :: "partial_spend list \<Rightarrow> nat list" where
  "partial_values ps = concat (map (\<lambda>p. fst (snd p)) ps)"

lemma partial_values_simps [simp]:
  "partial_values [] = []" "partial_values (p # ps) = fst (snd p) @ partial_values ps"
  by (simp_all add: partial_values_def)

lemma assign_pass_shape:
  "assign_pass fee pool remaining partial consolidatable = Inr (remaining', partial', consolidatable') \<Longrightarrow>
   \<exists>ps cs. partial' = partial @ ps \<and> consolidatable' = consolidatable @ cs \<and>
     mset (map fst ps) + mset cs \<subseteq># mset pool \<and>
     mset remaining' + mset (partial_values ps) = mset remaining \<and>
     (\<forall>p \<in> set ps. partial_ok fee p) \<and>
     (remaining' \<noteq> [] \<longrightarrow> mset (map fst ps) + mset cs = mset pool)"
proof (induction pool arbitrary: remaining partial consolidatable)
  case Nil
  then show ?case by simp
next
  case (Cons input rest)
  let ?v = "prep_input_value input"
  consider (finished) "remaining = []"
    | (small) "remaining \<noteq> []" "?v \<le> fee \<or> ?v - fee < last remaining"
    | (fund) "remaining \<noteq> []" "fee < ?v" "last remaining \<le> ?v - fee"
    by linarith
  then show ?case
  proof cases
    case finished
    have "assign_pass fee rest [] partial consolidatable = Inr (remaining', partial', consolidatable')"
      using Cons.prems unfolding finished by simp
    from Cons.IH [OF this] obtain ps cs where
      h: "partial' = partial @ ps" "consolidatable' = consolidatable @ cs"
        "mset (map fst ps) + mset cs \<subseteq># mset rest" "mset remaining' + mset (partial_values ps) = {#}"
        "\<forall>p \<in> set ps. partial_ok fee p" by auto
    moreover have "mset (map fst ps) + mset cs \<subseteq># mset (input # rest)"
      using h(3) by (simp add: subset_mset.order_trans)
    ultimately show ?thesis using finished by auto
  next
    case small
    then have "assign_pass fee rest remaining partial (consolidatable @ [input]) =
        Inr (remaining', partial', consolidatable')"
      using Cons.prems by (simp add: Let_def)
    from Cons.IH [OF this] obtain ps cs where
      h: "partial' = partial @ ps" "consolidatable' = (consolidatable @ [input]) @ cs"
        "mset (map fst ps) + mset cs \<subseteq># mset rest" "mset remaining' + mset (partial_values ps) = mset remaining"
        "\<forall>p \<in> set ps. partial_ok fee p"
        "remaining' \<noteq> [] \<longrightarrow> mset (map fst ps) + mset cs = mset rest" by blast
    then show ?thesis by (intro exI [of _ ps] exI [of _ "input # cs"]) auto
  next
    case fund
    then obtain r a u left where
      af: "assign_funding (?v - fee) remaining 0 [] 0 = Inr (r, a, u)" and
      left: "sub_u (?v - fee) u = (Inr left :: nat planner)" and
      eq: "assign_pass fee rest r (partial @ [(input, a, left)]) consolidatable =
        Inr (remaining', partial', consolidatable')"
      using Cons.prems by (auto simp: and_then_eq_Inr Let_def)
    have sh: "mset r + mset a = mset remaining" "u = sum_list a" "u \<le> ?v - fee"
        "length a \<le> FUNDING_OUTPUTS_PER_TX"
      using assign_funding_shape [OF af] by auto
    have "a \<noteq> []" using assign_funding_progress [OF af] fund by simp
    then have ok: "partial_ok fee (input, a, left)"
      using sh sub_u_InrD [OF left] fund unfolding partial_ok_def by auto
    from Cons.IH [OF eq] obtain ps cs where
      h: "partial' = (partial @ [(input, a, left)]) @ ps" "consolidatable' = consolidatable @ cs"
        "mset (map fst ps) + mset cs \<subseteq># mset rest" "mset remaining' + mset (partial_values ps) = mset r"
        "\<forall>p \<in> set ps. partial_ok fee p"
        "remaining' \<noteq> [] \<longrightarrow> mset (map fst ps) + mset cs = mset rest" by blast
    then show ?thesis
      using ok sh(1) by (intro exI [of _ "(input, a, left) # ps"] exI [of _ cs]) (auto simp: ac_simps)
  qed
qed

definition mint_transaction :: "partial_spend \<Rightarrow> prep_transaction" where
  "mint_transaction p = (case p of (input, assigned, leftover) \<Rightarrow>
     \<lparr> prep_inputs = [input],
       prep_outputs = map Funding assigned @ (if 0 < leftover then [Intermediate leftover] else []) \<rparr>)"

definition mint_feeder :: "nat \<Rightarrow> nat \<times> partial_spend \<Rightarrow> prep_input list" where
  "mint_feeder layer e = (case e of (k, input, assigned, leftover) \<Rightarrow>
     if 0 < leftover then [PriorNote layer k (length assigned) leftover] else [])"

lemma zat_funding_InrD:
  "collect_results (map (\<lambda>v. and_then (zat mm v) (\<lambda>z. Inr (f z))) vs) = Inr outs \<Longrightarrow> outs = map f vs"
  by (induction vs arbitrary: outs) (auto simp: and_then_eq_Inr dest: zat_InrD)

lemma mint_pass_shape:
  "mint_pass mm layer partial txs next = Inr (txs', next') \<Longrightarrow>
   txs' = txs @ map mint_transaction partial \<and>
   next' = next @ concat (map (mint_feeder layer) (enumerate (length txs) partial))"
proof (induction partial arbitrary: txs "next")
  case Nil
  then show ?case by simp
next
  case (Cons p rest)
  obtain input assigned leftover where p: "p = (input, assigned, leftover)" by (cases p)
  obtain outputs where
    outs: "collect_results (map (\<lambda>v. and_then (zat mm v) (\<lambda>z. Inr (Funding z))) assigned) = Inr outputs"
    using Cons.prems by (auto simp: p and_then_eq_Inr)
  then have o: "outputs = map Funding assigned" by (rule zat_funding_InrD)
  show ?case
  proof (cases "0 < leftover")
    case True
    then have "mint_pass mm layer rest (txs @ [mint_transaction p])
        (next @ mint_feeder layer (length txs, p)) = Inr (txs', next')"
      using Cons.prems outs
      by (auto simp: p o and_then_eq_Inr mint_transaction_def mint_feeder_def dest: zat_InrD)
    from Cons.IH [OF this] show ?thesis by simp
  next
    case False
    then have "mint_pass mm layer rest (txs @ [mint_transaction p]) next = Inr (txs', next')"
      using Cons.prems outs by (simp add: p o mint_transaction_def)
    from Cons.IH [OF this] False show ?thesis by (simp add: p mint_feeder_def)
  qed
qed

lemma zat_funding_total:
  "\<forall>v \<in> set vs. v \<le> mm \<Longrightarrow>
   collect_results (map (\<lambda>v. and_then (zat mm v) (\<lambda>z. Inr (f z))) vs) = Inr (map f vs)"
  by (induction vs) auto

lemma mint_pass_total:
  "\<forall>p \<in> set partial. partial_ok fee p \<and> prep_input_value (fst p) \<le> mm \<Longrightarrow>
   \<exists>r. mint_pass mm layer partial txs next = Inr r"
proof (induction partial arbitrary: txs "next")
  case (Cons p rest)
  obtain input assigned leftover where p: "p = (input, assigned, leftover)" by (cases p)
  have "prep_input_value input = fee + sum_list assigned + leftover" "prep_input_value input \<le> mm"
    using Cons.prems by (auto simp: p partial_ok_def)
  then have "sum_list assigned \<le> mm" "leftover \<le> mm" by linarith+
  moreover then have "\<forall>v \<in> set assigned. v \<le> mm"
    using member_le_sum_list_nat order_trans by blast
  ultimately show ?case
    using Cons by (simp add: p zat_funding_total)
qed simp

text \<open>What one layer does, and why the loop over the layers ends.\<close>

lemma greedy_layer_shape:
  assumes "greedy_layer mm tie fee layer remaining current = Inr (remaining', txs, next)"
  shows "\<exists>ps cs left new.
    txs = map mint_transaction ps @ new \<and>
    next = concat (map (mint_feeder layer) (enumerate 0 ps)) @
           map (feeder_note layer) (enumerate (length ps) new) \<and>
    mset remaining' + mset (partial_values ps) = mset remaining \<and>
    mset (map fst ps) + mset cs \<subseteq># mset current \<and>
    mset left + mset (concat (map prep_inputs new)) = mset cs \<and>
    (\<forall>p \<in> set ps. partial_ok fee p) \<and> (\<forall>tx \<in> set new. is_consolidation fee {2..15} tx)"
proof -
  obtain ps cs txs1 next1 left where
    a: "assign_pass fee (sort_notes_desc tie current) remaining [] [] = Inr (remaining', ps, cs)" and
    m: "mint_pass mm layer ps [] [] = Inr (txs1, next1)" and
    c: "consolidate mm tie cs layer fee txs1 next1 = Inr (left, txs, next)"
    using assms by (auto simp: greedy_layer_def and_then_eq_Inr)
  from mint_pass_shape [OF m] have m': "txs1 = map mint_transaction ps"
      "next1 = concat (map (mint_feeder layer) (enumerate 0 ps))" by simp_all
  from consolidate_shape [OF c] obtain new where
    "txs = txs1 @ new" "next = next1 @ map (feeder_note layer) (enumerate (length txs1) new)"
    "\<forall>tx \<in> set new. is_consolidation fee {2..15} tx"
    "mset left + mset (concat (map prep_inputs new)) = mset cs" by blast
  then show ?thesis
    using assign_pass_shape [OF a] m'
    by (intro exI [of _ ps] exI [of _ cs] exI [of _ left] exI [of _ new]) simp
qed

lemma length_consolidated:
  "\<forall>tx \<in> set new. is_consolidation fee {2..15} tx \<Longrightarrow>
   2 * length new \<le> length (concat (map prep_inputs new))"
  by (induction new) (auto simp: is_consolidation_def)

lemma greedy_layer_progress:
  assumes "greedy_layer mm tie fee layer remaining current = Inr (remaining', txs, next)" and "txs \<noteq> []"
  shows "length remaining' < length remaining \<or>
    length remaining' = length remaining \<and> length next < length current"
proof -
  obtain ps cs left new where
    sh: "txs = map mint_transaction ps @ new"
      "next = concat (map (mint_feeder layer) (enumerate 0 ps)) @
           map (feeder_note layer) (enumerate (length ps) new)"
      "mset remaining' + mset (partial_values ps) = mset remaining"
      "mset (map fst ps) + mset cs \<subseteq># mset current"
      "mset left + mset (concat (map prep_inputs new)) = mset cs"
      "\<forall>p \<in> set ps. partial_ok fee p" "\<forall>tx \<in> set new. is_consolidation fee {2..15} tx"
    using greedy_layer_shape [OF assms(1)] by blast
  have r: "length remaining' + length (partial_values ps) = length remaining"
    using arg_cong [OF sh(3), of size] by simp
  show ?thesis
  proof (cases ps)
    case (Cons p qs)
    then have "0 < length (partial_values ps)" using sh(6) by (auto simp: partial_ok_def)
    then show ?thesis using r by linarith
  next
    case Nil
    then have "0 < length new" using sh(1) assms(2) by simp
    moreover have "length left + length (concat (map prep_inputs new)) = length cs"
      using arg_cong [OF sh(5), of size] by simp
    moreover have "length cs \<le> length current"
      using size_mset_mono [OF sh(4)] Nil by simp
    ultimately have "length new < length current"
      using length_consolidated [OF sh(7)] by linarith
    then show ?thesis using r Nil sh(2) by simp
  qed
qed

section \<open>The loops over layers\<close>

function greedy_layers ::
  "nat \<Rightarrow> (prep_input list \<Rightarrow> prep_input \<Rightarrow> nat) \<Rightarrow> nat \<Rightarrow> nat list \<Rightarrow> prep_input list \<Rightarrow> prep_layers \<Rightarrow>
     prep_layers planner" where
  "greedy_layers mm tie fee remaining current layers =
     (if remaining = [] then Inr layers
      else if current = [] then Inl (Err InsufficientFunds)
      else
        and_then (greedy_layer mm tie fee (length layers) remaining current) (\<lambda>(remaining', txs, next).
        if txs = [] then Inl (Err InsufficientFunds)
        else greedy_layers mm tie fee remaining' next (layers @ [txs])))"
  by pat_completeness auto
termination
  by (relation "measures [\<lambda>(mm, tie, fee, remaining, current, layers). length remaining,
                          \<lambda>(mm, tie, fee, remaining, current, layers). length current]")
    (auto dest: greedy_layer_progress)

declare greedy_layers.simps [simp del]

text \<open>Positions in a plan: what \<open>located_outputs\<close> lists, and how it grows with a layer.\<close>

definition layer_outputs :: "nat \<Rightarrow> prep_transaction list \<Rightarrow> ((nat \<times> nat \<times> nat) \<times> prep_output) list" where
  "layer_outputs li layer =
     concat (map (\<lambda>(ti, tx).
       map (\<lambda>(oi, out). ((li, ti, oi), out)) (enumerate 0 (prep_outputs tx)))
     (enumerate 0 layer))"

lemma located_outputs_eq:
  "located_outputs layers = concat (map (\<lambda>(li, layer). layer_outputs li layer) (enumerate 0 layers))"
  by (simp add: located_outputs_def layer_outputs_def)

lemma located_outputs_append [simp]:
  "located_outputs (layers @ [txs]) = located_outputs layers @ layer_outputs (length layers) txs"
  by (simp add: located_outputs_eq enumerate_append_eq)

lemma spent_positions_append [simp]:
  "spent_positions (layers @ [txs]) =
     spent_positions layers @ List.map_filter prior_position (concat (map prep_inputs txs))"
  by (simp add: spent_positions_def map_filter_def)

lemma layer_outputs_snoc:
  "layer_outputs li (layer @ [tx]) = layer_outputs li layer @
     map (\<lambda>(oi, out). ((li, length layer, oi), out)) (enumerate 0 (prep_outputs tx))"
  by (simp add: layer_outputs_def enumerate_append_eq)

lemma length_layer_outputs: "length (layer_outputs li layer) = length (concat (map prep_outputs layer))"
  by (induction layer rule: rev_induct) (simp_all add: layer_outputs_snoc, simp add: layer_outputs_def)

lemma feeder_at_append:
  "feeder_at (spent @ spent') e =
     (case feeder_at spent e of None \<Rightarrow> None
      | Some n \<Rightarrow> if prior_position n \<in> Some ` set spent' then None else Some n)"
  by (cases "(spent, e)" rule: feeder_at.cases) auto

lemma map_filter_feeder_append:
  "List.map_filter (feeder_at (spent @ spent')) es =
     filter (\<lambda>n. prior_position n \<notin> Some ` set spent') (List.map_filter (feeder_at spent) es)"
  by (induction es) (auto simp: map_filter_def feeder_at_append split: option.splits)

lemma length_map_filter_le: "length (List.map_filter f xs) \<le> length xs"
  by (simp add: map_filter_def)

lemma map_filter_append: "List.map_filter f (xs @ ys) = List.map_filter f xs @ List.map_filter f ys"
  by (simp add: map_filter_def)

lemma residual_progress:
  assumes "consolidate mm tie (unconsumed_feeders layers) (length layers) fee [] [] = Inr (left, txs, next)"
    and "txs \<noteq> []"
  shows "length (unconsumed_feeders (layers @ [txs])) < length (unconsumed_feeders layers)"
proof -
  let ?pool = "unconsumed_feeders layers" and ?used = "concat (map prep_inputs txs)"
  let ?spent = "List.map_filter prior_position ?used"
  let ?taken = "\<lambda>n. prior_position n \<in> Some ` set ?spent"
  have txs: "\<forall>tx \<in> set txs. is_consolidation fee {2..15} tx"
    and pool: "mset left + mset ?used = mset ?pool"
    using consolidate_shape [OF assms(1)] by auto
  have priors: "\<forall>n \<in> set ?pool. prior_position n \<noteq> None"
    by (auto simp: unconsumed_feeders_def map_filter_def elim!: feeder_at.elims split: if_splits)
  have "set ?used \<subseteq> set ?pool" by (metis pool mset_subset_eq_add_right set_mset_mono set_mset_mset)
  then have "\<forall>n \<in> set ?used. ?taken n"
    using priors by (force simp: map_filter_def)
  then have "filter ?taken ?used = ?used" by (simp add: filter_id_conv)
  moreover have "mset (filter ?taken ?used) \<subseteq># mset (filter ?taken ?pool)"
    using pool by (metis mset_filter multiset_filter_mono mset_subset_eq_add_right)
  ultimately have "length ?used \<le> length (filter ?taken ?pool)"
    by (metis size_mset size_mset_mono)
  then have taken: "2 * length txs \<le> length (filter ?taken ?pool)"
    using length_consolidated [OF txs] by linarith
  have "length (concat (map prep_outputs txs)) = length txs"
    using txs by (induction txs) (auto simp: is_consolidation_def)
  then have "length (List.map_filter (feeder_at (spent_positions layers @ ?spent))
      (layer_outputs (length layers) txs)) \<le> length txs"
    using length_map_filter_le length_layer_outputs by metis
  moreover have "length (filter (\<lambda>n. \<not> ?taken n) ?pool) + length (filter ?taken ?pool) = length ?pool"
    using sum_length_filter_compl [of ?taken ?pool] by simp
  moreover have "0 < length txs" using assms(2) by simp
  moreover have "length (unconsumed_feeders (layers @ [txs])) = length (filter (\<lambda>n. \<not> ?taken n) ?pool) +
      length (List.map_filter (feeder_at (spent_positions layers @ ?spent)) (layer_outputs (length layers) txs))"
    by (simp only: length_append [symmetric] unconsumed_feeders_def located_outputs_append spent_positions_append
        map_filter_append map_filter_feeder_append [of _ _ "located_outputs layers"])
  ultimately show ?thesis using taken by linarith
qed

function consolidate_residuals ::
  "nat \<Rightarrow> (prep_input list \<Rightarrow> prep_input \<Rightarrow> nat) \<Rightarrow> nat \<Rightarrow> prep_layers \<Rightarrow> prep_layers planner" where
  "consolidate_residuals mm tie fee layers =
     (let pool = unconsumed_feeders layers in
      if length pool \<le> 1 then Inr layers
      else
        and_then (consolidate mm tie pool (length layers) fee [] []) (\<lambda>(leftover, txs, next).
        if txs = [] then Inr layers
        else consolidate_residuals mm tie fee (layers @ [txs])))"
  by pat_completeness auto
termination
  by (relation "measure (\<lambda>(mm, tie, fee, layers). length (unconsumed_feeders layers))")
    (auto intro: residual_progress)

declare consolidate_residuals.simps [simp del]

text \<open>The fallback merges everything, the notes left over by a round included, into one note.\<close>

lemma consolidate_all_progress:
  assumes "consolidate mm tie current layer fee [] [] = Inr (left, txs, next)" and "txs \<noteq> []"
  shows "length (next @ left) < length current"
proof -
  have txs: "\<forall>tx \<in> set txs. is_consolidation fee {2..15} tx" and n: "length next = length txs"
    and pool: "mset left + mset (concat (map prep_inputs txs)) = mset current"
    using consolidate_shape [OF assms(1)] by auto
  have "length left + length (concat (map prep_inputs txs)) = length current"
    using arg_cong [OF pool, of size] by simp
  moreover have "0 < length txs" using assms(2) by simp
  ultimately show ?thesis using length_consolidated [OF txs] n unfolding length_append by linarith
qed

function consolidate_all ::
  "nat \<Rightarrow> (prep_input list \<Rightarrow> prep_input \<Rightarrow> nat) \<Rightarrow> nat \<Rightarrow> prep_input list \<Rightarrow> prep_layers \<Rightarrow>
     (prep_input list \<times> prep_layers) planner" where
  "consolidate_all mm tie fee current layers =
     (if 1 < length current then
        and_then (consolidate mm tie current (length layers) fee [] []) (\<lambda>(leftover, txs, next).
        if txs = [] then Inl (Err InsufficientFunds)
        else consolidate_all mm tie fee (next @ leftover) (layers @ [txs]))
      else Inr (current, layers))"
  by pat_completeness auto
termination
  by (relation "measure (\<lambda>(mm, tie, fee, current, layers). length current)")
    (auto dest: consolidate_all_progress)

declare consolidate_all.simps [simp del]

section \<open>The planner\<close>

text \<open>\<open>max_by_key\<close> over the notes not used: of equal values the last one.\<close>

definition unused_notes :: "bool list \<Rightarrow> nat list \<Rightarrow> (nat \<times> nat) list" where
  "unused_notes used available = filter (\<lambda>(i, v). \<not> used ! i) (enumerate 0 available)"

fun max_by_value :: "(nat \<times> nat) list \<Rightarrow> (nat \<times> nat) option" where
  "max_by_value [] = None"
| "max_by_value (p # ps) = Some (foldl (\<lambda>x y. if snd y < snd x then x else y) p ps)"

definition wallet_notes :: "nat \<Rightarrow> (nat \<times> nat) list \<Rightarrow> prep_input list planner" where
  "wallet_notes mm notes =
     collect_results (map (\<lambda>(i, v). and_then (zat mm v) (\<lambda>z. Inr (WalletNote i z))) notes)"

text \<open>The fast path: one wallet note that pays for a balanced tree of all that remains.\<close>

definition fan_out_fast_path ::
  "nat \<Rightarrow> (nat \<times> nat) list \<Rightarrow> nat list \<Rightarrow> nat \<Rightarrow> (nat list \<times> prep_layers) planner" where
  "fan_out_fast_path mm notes remaining fee =
     (case max_by_value notes of
        None \<Rightarrow> Inr (remaining, [])
      | Some (idx, big) \<Rightarrow>
          and_then (subtree_cost remaining fee) (\<lambda>(txs, cost).
          if cost \<le> big then
            and_then (zat mm big) (\<lambda>z.
            and_then (build_split mm (WalletNote idx z) big remaining fee 0 []) (\<lambda>layers.
            Inr ([], layers)))
          else Inr (remaining, [])))"

definition plan_preparation_greedy ::
  "nat \<Rightarrow> (prep_input list \<Rightarrow> prep_input \<Rightarrow> nat) \<Rightarrow> nat list \<Rightarrow> nat list \<Rightarrow> nat \<Rightarrow> preparation_plan planner" where
  "plan_preparation_greedy mm tie available funding fee =
     and_then (ok_or (zatoshi_sum mm available) (Err BalanceInvalid)) (\<lambda>_.
     and_then (ok_or (zatoshi_sum mm funding) (Err BalanceInvalid)) (\<lambda>_.
     and_then (extract_direct_funding mm available (sort_desc (filter (\<lambda>v. 0 < v) funding)))
       (\<lambda>(used, direct, remaining).
     if remaining = [] then Inr \<lparr> plan_layers = [], direct_funding = direct \<rparr>
     else
       and_then (fan_out_fast_path mm (unused_notes used available) remaining fee) (\<lambda>(remaining', layers).
       and_then (wallet_notes mm (unused_notes used available)) (\<lambda>current.
       and_then (greedy_layers mm tie fee remaining' current layers) (\<lambda>layers'.
       and_then (consolidate_residuals mm tie fee layers') (\<lambda>layers''.
       Inr \<lparr> plan_layers = relabel_unspent layers'', direct_funding = direct \<rparr>)))))))"

definition plan_preparation_via_consolidation ::
  "nat \<Rightarrow> (prep_input list \<Rightarrow> prep_input \<Rightarrow> nat) \<Rightarrow> nat list \<Rightarrow> nat list \<Rightarrow> nat \<Rightarrow> preparation_plan planner" where
  "plan_preparation_via_consolidation mm tie available funding fee =
     and_then (ok_or (zatoshi_sum mm available) (Err BalanceInvalid)) (\<lambda>_.
     and_then (ok_or (zatoshi_sum mm funding) (Err BalanceInvalid)) (\<lambda>_.
     and_then (extract_direct_funding mm available (sort_desc (filter (\<lambda>v. 0 < v) funding)))
       (\<lambda>(used, direct, targets).
     if targets = [] then Inr \<lparr> plan_layers = [], direct_funding = direct \<rparr>
     else
       and_then (wallet_notes mm (filter (\<lambda>(i, v). 0 < v) (unused_notes used available))) (\<lambda>current.
       if current = [] then Inl (Err InsufficientFunds)
       else
         and_then (consolidate_all mm tie fee current []) (\<lambda>(merged, layers).
         and_then (if merged = [] then Inl Panic else Inr (last merged)) (\<lambda>source.
         and_then (subtree_cost targets fee) (\<lambda>(txs, cost).
         if prep_input_value source < cost then Inl (Err InsufficientFunds)
         else
           and_then (build_split mm source (prep_input_value source) targets fee (length layers) layers)
             (\<lambda>layers'.
           Inr \<lparr> plan_layers = relabel_unspent layers', direct_funding = direct \<rparr>))))))))"

definition plan_preparation ::
  "nat \<Rightarrow> (prep_input list \<Rightarrow> prep_input \<Rightarrow> nat) \<Rightarrow> nat list \<Rightarrow> nat list \<Rightarrow> nat \<Rightarrow> preparation_plan planner" where
  "plan_preparation mm tie available funding fee =
     (case plan_preparation_greedy mm tie available funding fee of
        Inr plan \<Rightarrow> Inr plan
      | Inl (Err InsufficientFunds) \<Rightarrow> plan_preparation_via_consolidation mm tie available funding fee
      | Inl e \<Rightarrow> Inl e)"

end
