(* ===== verification/PrepPlanSound.thy ===== *)
theory PrepPlanSound
  imports PrepPlanner
begin

text \<open>
  Soundness of the note-preparation planner. A list of layers is well formed when every
  transaction balances, keeps to the action budget and spends notes that exist before it: wallet
  notes, or intermediate outputs of strictly earlier layers, none of them twice. Every step of the
  planner keeps this, and none of its internal conversions or sums can fail.
\<close>

section \<open>Positions\<close>

lemma in_layer_outputs:
  "((l, t, p), x) \<in> set (layer_outputs li layer) \<longleftrightarrow>
     l = li \<and> t < length layer \<and> p < length (prep_outputs (layer ! t)) \<and> x = prep_outputs (layer ! t) ! p"
  by (fastforce simp: layer_outputs_def in_set_enumerate_eq)

lemma in_located_outputs:
  "((l, t, p), x) \<in> set (located_outputs layers) \<longleftrightarrow>
     l < length layers \<and> t < length (layers ! l) \<and> p < length (prep_outputs (layers ! l ! t)) \<and>
     x = prep_outputs (layers ! l ! t) ! p"
  by (force simp: located_outputs_eq in_set_enumerate_eq in_layer_outputs)

lemma distinct_layer_outputs: "distinct (map fst (layer_outputs li layer))"
proof (induction layer rule: rev_induct)
  case Nil
  show ?case by (simp add: layer_outputs_def)
next
  case (snoc tx layer)
  let ?new = "map (\<lambda>(oi, out). ((li, length layer, oi), out)) (enumerate 0 (prep_outputs tx))"
  have "distinct (map fst ?new)"
  proof -
    have "map fst ?new = map (\<lambda>oi. (li, length layer, oi)) (map fst (enumerate 0 (prep_outputs tx)))"
      by (simp only: map_map comp_def case_prod_unfold fst_conv)
    also have "distinct \<dots>" by (simp add: distinct_map inj_on_def)
    finally show ?thesis .
  qed
  moreover have "fst ` set (layer_outputs li layer) \<inter> fst ` set ?new = {}"
    by (auto simp: in_layer_outputs)
  ultimately show ?case using snoc unfolding layer_outputs_snoc map_append distinct_append set_map by blast
qed

lemma distinct_located_outputs: "distinct (map fst (located_outputs layers))"
proof (induction layers rule: rev_induct)
  case Nil
  show ?case by (simp add: located_outputs_def)
next
  case (snoc txs layers)
  have "fst ` set (located_outputs layers) \<inter> fst ` set (layer_outputs (length layers) txs) = {}"
    by (auto simp: in_located_outputs in_layer_outputs)
  then show ?case using snoc distinct_layer_outputs by simp
qed

lemma located_output_unique:
  "(p, x) \<in> set (located_outputs layers) \<Longrightarrow> (p, y) \<in> set (located_outputs layers) \<Longrightarrow> x = y"
  using distinct_located_outputs [of layers] by (rule eq_key_imp_eq_value)

lemma map_snd_layer_outputs: "map snd (layer_outputs li layer) = concat (map prep_outputs layer)"
  by (induction layer rule: rev_induct)
    (simp_all add: layer_outputs_snoc case_prod_unfold comp_def, simp add: layer_outputs_def)

lemma map_snd_located_outputs: "map snd (located_outputs layers) = all_outputs layers"
  by (induction layers rule: rev_induct)
    (simp_all add: map_snd_layer_outputs all_outputs_def, simp add: located_outputs_def)

section \<open>Well-formed plans\<close>

definition input_ok :: "(nat \<rightharpoonup> nat) \<Rightarrow> prep_layers \<Rightarrow> nat \<Rightarrow> prep_input \<Rightarrow> bool" where
  "input_ok wallet layers limit note = (case note of
     WalletNote i v \<Rightarrow> wallet i = Some v
   | PriorNote l t p v \<Rightarrow> l < limit \<and> ((l, t, p), Intermediate v) \<in> set (located_outputs layers))"

definition outputs_value :: "prep_output list \<Rightarrow> nat" where
  "outputs_value outs = sum_list (map prep_output_value outs)"

definition tx_ok :: "nat \<Rightarrow> prep_transaction \<Rightarrow> bool" where
  "tx_ok fee tx \<longleftrightarrow>
     inputs_value (prep_inputs tx) = outputs_value (prep_outputs tx) + fee \<and>
     action_count tx \<le> PREP_TX_ACTIONS"

fun note_ref :: "prep_input \<Rightarrow> nat + nat \<times> nat \<times> nat" where
  "note_ref (WalletNote i _) = Inl i"
| "note_ref (PriorNote l t p _) = Inr (l, t, p)"

definition plan_inputs :: "prep_layers \<Rightarrow> prep_input list" where
  "plan_inputs layers = concat (map prep_inputs (concat layers))"

definition used_refs :: "prep_layers \<Rightarrow> (nat + nat \<times> nat \<times> nat) set" where
  "used_refs layers = note_ref ` set (plan_inputs layers)"

definition plan_ok :: "(nat \<rightharpoonup> nat) \<Rightarrow> nat \<Rightarrow> prep_layers \<Rightarrow> bool" where
  "plan_ok wallet fee layers \<longleftrightarrow>
     (\<forall>l < length layers. \<forall>tx \<in> set (layers ! l).
        tx_ok fee tx \<and> (\<forall>note \<in> set (prep_inputs tx). input_ok wallet layers l note)) \<and>
     distinct (map note_ref (plan_inputs layers))"

definition minted :: "prep_layers \<Rightarrow> nat multiset" where
  "minted layers = mset (List.map_filter funding_value (all_outputs layers))"

definition count_txs :: "prep_layers \<Rightarrow> nat" where
  "count_txs layers = length (concat layers)"

lemma outputs_value_simps [simp]:
  "outputs_value [] = 0" "outputs_value (x # xs) = prep_output_value x + outputs_value xs"
  "outputs_value (xs @ ys) = outputs_value xs + outputs_value ys"
  "outputs_value (map Funding vs) = sum_list vs" "outputs_value (map Intermediate vs) = sum_list vs"
  by (simp_all add: outputs_value_def comp_def)

lemma empty_plan [simp]:
  "plan_inputs [] = []" "used_refs [] = {}" "plan_ok wallet fee []" "minted [] = {#}" "count_txs [] = 0"
  by (simp_all add: plan_inputs_def used_refs_def plan_ok_def minted_def all_outputs_def
      map_filter_def count_txs_def)

lemma input_ok_mono:
  "input_ok wallet layers l note \<Longrightarrow> l \<le> l' \<Longrightarrow>
   set (located_outputs layers) \<subseteq> set (located_outputs layers') \<Longrightarrow> input_ok wallet layers' l' note"
  by (auto simp: input_ok_def split: prep_input.splits)

lemma used_refs_located:
  assumes "plan_ok wallet fee layers" and "Inr p \<in> used_refs layers"
  shows "\<exists>x. (p, x) \<in> set (located_outputs layers)"
proof -
  obtain tx n l where "n \<in> set (prep_inputs tx)" "tx \<in> set (layers ! l)" "l < length layers"
    "note_ref n = Inr p"
    using assms(2) by (auto simp: used_refs_def plan_inputs_def in_set_conv_nth) (metis nth_mem)
  then have "input_ok wallet layers l n" using assms(1) by (auto simp: plan_ok_def)
  then show ?thesis using \<open>note_ref n = Inr p\<close>
    by (auto simp: input_ok_def split: prep_input.splits)
qed

section \<open>Adding transactions\<close>

lemma concat_push:
  "l < length layers \<Longrightarrow> mset (concat (push_transaction l tx layers)) = mset (concat layers) + {#tx#}"
proof -
  assume l: "l < length layers"
  have "mset (concat (xs @ [ys @ [tx]] @ zs)) = mset (concat (xs @ [ys] @ zs)) + {#tx#}" for xs ys zs
    by simp
  then show ?thesis
    unfolding push_transaction_def using id_take_nth_drop [OF l] upd_conv_take_nth_drop [OF l]
    by (metis append_Cons append_Nil)
qed

lemma mset_concat_map: "mset xs = mset ys \<Longrightarrow> mset (concat (map f xs)) = mset (concat (map f ys))"
proof -
  assume "mset xs = mset ys"
  then have "\<Sum>\<^sub># (image_mset (mset \<circ> f) (mset xs)) = \<Sum>\<^sub># (image_mset (mset \<circ> f) (mset ys))" by simp
  then show ?thesis by (simp add: mset_concat comp_def flip: sum_mset_sum_list)
qed

lemma plan_inputs_push:
  "l < length layers \<Longrightarrow>
   mset (plan_inputs (push_transaction l tx layers)) = mset (plan_inputs layers) + mset (prep_inputs tx)"
  unfolding plan_inputs_def
  using mset_concat_map [of "concat (push_transaction l tx layers)" "concat layers @ [tx]" prep_inputs]
  by (simp add: concat_push)

lemma used_refs_push [simp]:
  "l < length layers \<Longrightarrow>
   used_refs (push_transaction l tx layers) = used_refs layers \<union> note_ref ` set (prep_inputs tx)"
  unfolding used_refs_def using plan_inputs_push by (metis image_Un set_mset_mset set_mset_union)

lemma minted_push:
  assumes "l < length layers"
  shows "minted (push_transaction l tx layers) =
    minted layers + mset (List.map_filter funding_value (prep_outputs tx))"
proof -
  have eq: "mset (all_outputs (push_transaction l tx layers)) = mset (all_outputs layers) + mset (prep_outputs tx)"
    unfolding all_outputs_def
    using mset_concat_map [of "concat (push_transaction l tx layers)" "concat layers @ [tx]" prep_outputs] assms
    by (simp add: concat_push)
  show ?thesis
    unfolding minted_def map_filter_def mset_map mset_filter eq by simp
qed

lemma count_txs_push: "l < length layers \<Longrightarrow> count_txs (push_transaction l tx layers) = Suc (count_txs layers)"
  unfolding count_txs_def using concat_push [of l layers tx]
  by (metis add_mset_add_single size_add_mset size_mset)

lemma length_push [simp]: "length (push_transaction l tx layers) = length layers"
  by (simp add: push_transaction_def)

lemma nth_push:
  "l < length layers \<Longrightarrow> l' < length layers \<Longrightarrow>
   push_transaction l tx layers ! l' = (if l' = l then layers ! l @ [tx] else layers ! l')"
  by (simp add: push_transaction_def)

lemma located_outputs_push:
  assumes "l < length layers"
  shows "set (located_outputs layers) \<subseteq> set (located_outputs (push_transaction l tx layers))"
proof
  fix e assume e: "e \<in> set (located_outputs layers)"
  obtain l' t p x where "e = ((l', t, p), x)" by (cases e) auto
  then show "e \<in> set (located_outputs (push_transaction l tx layers))"
    using e assms by (auto simp: in_located_outputs nth_push nth_append)
qed

lemma plan_ok_push:
  assumes ok: "plan_ok wallet fee layers" and l: "l < length layers"
    and tx: "tx_ok fee tx" "\<And>n. n \<in> set (prep_inputs tx) \<Longrightarrow> input_ok wallet layers l n"
    and new: "distinct (map note_ref (prep_inputs tx))"
      "note_ref ` set (prep_inputs tx) \<inter> used_refs layers = {}"
  shows "plan_ok wallet fee (push_transaction l tx layers)"
  unfolding plan_ok_def
proof (intro conjI allI impI ballI)
  fix l' tx' assume l': "l' < length (push_transaction l tx layers)" and
    tx': "tx' \<in> set (push_transaction l tx layers ! l')"
  then have old_new: "tx' \<in> set (layers ! l') \<or> l' = l \<and> tx' = tx"
    using l by (auto simp: nth_push split: if_splits)
  then show "tx_ok fee tx'" using ok l' tx by (auto simp: plan_ok_def)
  fix n assume "n \<in> set (prep_inputs tx')"
  then have "input_ok wallet layers l' n" using old_new ok l' tx by (auto simp: plan_ok_def)
  then show "input_ok wallet (push_transaction l tx layers) l' n"
    by (rule input_ok_mono) (use located_outputs_push [OF l] in auto)
next
  have "mset (map note_ref (plan_inputs (push_transaction l tx layers))) =
      mset (map note_ref (plan_inputs layers @ prep_inputs tx))"
    using plan_inputs_push [OF l] by simp
  moreover have "distinct (map note_ref (plan_inputs layers @ prep_inputs tx))"
    using ok new by (auto simp: plan_ok_def used_refs_def)
  ultimately show "distinct (map note_ref (plan_inputs (push_transaction l tx layers)))"
    using mset_eq_imp_distinct_iff by blast
qed

text \<open>A new empty layer, and a whole layer at once.\<close>

lemma input_ok_append: "input_ok wallet layers l n \<Longrightarrow> input_ok wallet (layers @ [txs]) l n"
  by (erule input_ok_mono) auto

lemma plan_ok_empty_layer: "plan_ok wallet fee layers \<Longrightarrow> plan_ok wallet fee (layers @ [[]])"
  by (auto simp: plan_ok_def nth_append plan_inputs_def less_Suc_eq intro: input_ok_append)

lemma snoc_layer_eq: "layers @ [txs @ [tx]] = push_transaction (length layers) tx (layers @ [txs])"
  by (simp add: push_transaction_def)

lemma layer_facts [simp]:
  "plan_inputs (layers @ [txs]) = plan_inputs layers @ concat (map prep_inputs txs)"
  "used_refs (layers @ [txs]) = used_refs layers \<union> note_ref ` set (concat (map prep_inputs txs))"
  "minted (layers @ [txs]) = minted layers + mset (List.map_filter funding_value (concat (map prep_outputs txs)))"
  "count_txs (layers @ [txs]) = count_txs layers + length txs"
  by (simp_all add: plan_inputs_def used_refs_def minted_def all_outputs_def map_filter_def
      count_txs_def image_Un)

lemma plan_ok_layer:
  assumes "plan_ok wallet fee layers"
    and "\<And>tx. tx \<in> set txs \<Longrightarrow> tx_ok fee tx"
    and "\<And>n. n \<in> set (concat (map prep_inputs txs)) \<Longrightarrow> input_ok wallet layers (length layers) n"
    and "distinct (map note_ref (concat (map prep_inputs txs)))"
    and "note_ref ` set (concat (map prep_inputs txs)) \<inter> used_refs layers = {}"
  shows "plan_ok wallet fee (layers @ [txs])"
  using assms
proof (induction txs rule: rev_induct)
  case Nil
  then show ?case using plan_ok_empty_layer by simp
next
  case (snoc tx txs)
  have disjoint: "note_ref ` set (concat (map prep_inputs txs)) \<inter> used_refs layers = {}"
      "note_ref ` set (prep_inputs tx) \<inter> used_refs layers = {}"
    using snoc.prems(5) by (simp_all add: image_Un Int_Un_distrib2)
  have ok: "plan_ok wallet fee (layers @ [txs])"
    by (rule snoc.IH [OF snoc.prems(1) _ _ _ disjoint(1)]) (use snoc.prems in auto)
  show ?case
    unfolding snoc_layer_eq
  proof (rule plan_ok_push [OF ok])
    fix n assume "n \<in> set (prep_inputs tx)"
    then have "input_ok wallet layers (length layers) n" using snoc.prems by auto
    then show "input_ok wallet (layers @ [txs]) (length layers) n" by (rule input_ok_append)
  next
    show "note_ref ` set (prep_inputs tx) \<inter> used_refs (layers @ [txs]) = {}"
      using snoc.prems(4) disjoint(2) by auto
  qed (use snoc.prems in auto)
qed

section \<open>Conservation of value\<close>

fun is_wallet_note :: "prep_input \<Rightarrow> bool" where
  "is_wallet_note (WalletNote _ _) = True"
| "is_wallet_note (PriorNote _ _ _ _) = False"

definition wallet_spent :: "prep_layers \<Rightarrow> nat" where
  "wallet_spent layers = inputs_value (filter is_wallet_note (plan_inputs layers))"

definition unspent_outputs :: "prep_layers \<Rightarrow> ((nat \<times> nat \<times> nat) \<times> prep_output) list" where
  "unspent_outputs layers = filter (\<lambda>e. fst e \<notin> set (spent_positions layers)) (located_outputs layers)"

fun prior_entry :: "prep_input \<Rightarrow> (nat \<times> nat \<times> nat) \<times> prep_output" where
  "prior_entry (WalletNote _ v) = ((0, 0, 0), Intermediate v)"
| "prior_entry (PriorNote l t p v) = ((l, t, p), Intermediate v)"

lemma spent_positions_eq:
  "set (spent_positions layers) =
     {fst (prior_entry n) | n. n \<in> set (plan_inputs layers) \<and> \<not> is_wallet_note n}"
proof -
  have pos: "prior_position n = Some q \<longleftrightarrow> \<not> is_wallet_note n \<and> fst (prior_entry n) = q" for n q
    by (cases n) auto
  have mem: "q \<in> set (spent_positions layers) \<longleftrightarrow>
      (\<exists>n \<in> set (plan_inputs layers). \<not> is_wallet_note n \<and> fst (prior_entry n) = q)" for q
    unfolding spent_positions_def in_set_map_filter pos plan_inputs_def by (rule refl)
  show ?thesis
    by (rule set_eqI) (unfold mem mem_Collect_eq, blast)
qed

lemma plan_input_ok:
  assumes "plan_ok wallet fee layers" and "n \<in> set (plan_inputs layers)"
  shows "input_ok wallet layers (length layers) n"
proof -
  obtain l tx where "l < length layers" "tx \<in> set (layers ! l)" "n \<in> set (prep_inputs tx)"
    using assms(2) by (auto simp: plan_inputs_def in_set_conv_nth [of _ layers])
  then have "input_ok wallet layers l n" "l \<le> length layers" using assms(1) by (auto simp: plan_ok_def)
  then show ?thesis by (auto intro: input_ok_mono)
qed

lemma prior_entry_located:
  "input_ok wallet layers l n \<Longrightarrow> \<not> is_wallet_note n \<Longrightarrow> prior_entry n \<in> set (located_outputs layers)"
  by (cases n) (auto simp: input_ok_def)

lemma distinct_prior_entries:
  assumes "distinct (map note_ref ns)"
  shows "distinct (map prior_entry (filter (\<lambda>n. \<not> is_wallet_note n) ns))"
  unfolding distinct_map
proof
  show "distinct (filter (\<lambda>n. \<not> is_wallet_note n) ns)" using assms by (simp add: distinct_map)
  have same: "\<not> is_wallet_note m \<Longrightarrow> \<not> is_wallet_note n \<Longrightarrow> prior_entry m = prior_entry n \<Longrightarrow>
      note_ref m = note_ref n" for m n
    by (cases m; cases n) auto
  have "inj_on note_ref (set ns)" using assms by (simp add: distinct_map)
  then show "inj_on prior_entry (set (filter (\<lambda>n. \<not> is_wallet_note n) ns))"
    by (intro inj_onI) (use same in \<open>auto dest: inj_onD\<close>)
qed

lemma spent_entries:
  assumes ok: "plan_ok wallet fee layers"
  shows "mset (map prior_entry (filter (\<lambda>n. \<not> is_wallet_note n) (plan_inputs layers))) =
    mset (filter (\<lambda>e. fst e \<in> set (spent_positions layers)) (located_outputs layers))"
proof -
  let ?priors = "filter (\<lambda>n. \<not> is_wallet_note n) (plan_inputs layers)"
  let ?spent = "filter (\<lambda>e. fst e \<in> set (spent_positions layers)) (located_outputs layers)"
  have d1: "distinct (map prior_entry ?priors)"
    using ok by (intro distinct_prior_entries) (simp add: plan_ok_def)
  have d2: "distinct ?spent"
    using distinct_located_outputs [of layers] by (simp add: distinct_map)
  have "set (map prior_entry ?priors) = set ?spent"
  proof (intro equalityI subsetI)
    fix e assume "e \<in> set (map prior_entry ?priors)"
    then obtain n where n: "n \<in> set (plan_inputs layers)" "\<not> is_wallet_note n" "e = prior_entry n" by auto
    have "e \<in> set (located_outputs layers)"
      using prior_entry_located [OF plan_input_ok [OF ok n(1)] n(2)] n(3) by simp
    moreover have "fst e \<in> set (spent_positions layers)" using n unfolding spent_positions_eq by blast
    ultimately show "e \<in> set ?spent" by simp
  next
    fix e assume e: "e \<in> set ?spent"
    then obtain n where n: "n \<in> set (plan_inputs layers)" "\<not> is_wallet_note n" "fst (prior_entry n) = fst e"
      by (auto simp: spent_positions_eq)
    have "prior_entry n \<in> set (located_outputs layers)"
      by (rule prior_entry_located [OF plan_input_ok [OF ok n(1)] n(2)])
    moreover have "e \<in> set (located_outputs layers)" using e by simp
    ultimately have "prior_entry n = e"
      using n(3) located_output_unique by (metis prod.collapse)
    then show "e \<in> set (map prior_entry ?priors)" using n by auto
  qed
  then show ?thesis using d1 d2 set_eq_iff_mset_eq_distinct by blast
qed

lemma plan_inputs_value:
  assumes "plan_ok wallet fee layers"
  shows "inputs_value (plan_inputs layers) = outputs_value (all_outputs layers) + fee * count_txs layers"
proof -
  have "\<forall>tx \<in> set (concat layers). tx_ok fee tx"
    using assms by (auto simp: plan_ok_def in_set_conv_nth [of _ layers])
  then have "inputs_value (concat (map prep_inputs txs)) =
      outputs_value (concat (map prep_outputs txs)) + fee * length txs" if "set txs \<subseteq> set (concat layers)" for txs
    using that by (induction txs) (auto simp: tx_ok_def)
  then show ?thesis by (simp add: plan_inputs_def all_outputs_def count_txs_def)
qed

lemma value_split:
  "inputs_value ns = inputs_value (filter is_wallet_note ns) +
     inputs_value (filter (\<lambda>n. \<not> is_wallet_note n) ns)"
  by (induction ns) auto

theorem plan_conservation:
  assumes ok: "plan_ok wallet fee layers"
  shows "wallet_spent layers =
    outputs_value (map snd (unspent_outputs layers)) + fee * count_txs layers"
proof -
  let ?priors = "filter (\<lambda>n. \<not> is_wallet_note n) (plan_inputs layers)"
  let ?spent = "filter (\<lambda>e. fst e \<in> set (spent_positions layers)) (located_outputs layers)"
  have "inputs_value ?priors = outputs_value (map snd (map prior_entry ?priors))"
  proof -
    have "\<not> is_wallet_note n \<Longrightarrow> prep_output_value (snd (prior_entry n)) = prep_input_value n" for n
      by (cases n) auto
    then have "map prep_input_value ?priors = map prep_output_value (map snd (map prior_entry ?priors))"
      by simp
    then show ?thesis by (simp only: inputs_value_def outputs_value_def)
  qed
  also have "\<dots> = outputs_value (map snd ?spent)"
    unfolding outputs_value_def using spent_entries [OF ok]
    by (intro sum_list_mset_eq) (metis mset_map)
  finally have priors: "inputs_value ?priors = outputs_value (map snd ?spent)" .
  have "outputs_value (all_outputs layers) =
      outputs_value (map snd ?spent) + outputs_value (map snd (unspent_outputs layers))"
  proof -
    have "outputs_value (map snd es) = outputs_value (map snd (filter P es)) +
        outputs_value (map snd (filter (\<lambda>e. \<not> P e) es))" for P and es :: "('a \<times> prep_output) list"
      by (induction es) auto
    then show ?thesis unfolding unspent_outputs_def map_snd_located_outputs [symmetric] by blast
  qed
  then show ?thesis
    using plan_inputs_value [OF ok] priors value_split [of "plan_inputs layers"]
    by (simp add: wallet_spent_def)
qed

end
