(* ===== verification/PrepPlanSplit.thy ===== *)
theory PrepPlanSplit
  imports PrepPlanSound
begin

text \<open>
  Balanced splits: \<open>subtree_cost\<close> is the exact price of the tree \<open>build_split\<close> builds, and building
  it keeps a plan well formed, mints exactly the targets and reaches the depth \<open>split_depth\<close>.
\<close>

section \<open>The price of a tree\<close>

definition tree_txs :: "nat list \<Rightarrow> nat \<Rightarrow> nat" where
  "tree_txs targets fee = fst (projr (subtree_cost targets fee))"

definition tree_cost :: "nat list \<Rightarrow> nat \<Rightarrow> nat" where
  "tree_cost targets fee = snd (projr (subtree_cost targets fee))"

text \<open>What the caller pays for: every target, and a fee per transaction, at most \<open>2 * n - 1\<close> of them.\<close>

definition priced :: "nat list \<Rightarrow> nat \<Rightarrow> bool" where
  "priced targets fee \<longleftrightarrow>
     subtree_cost targets fee = Inr (tree_txs targets fee, tree_cost targets fee) \<and>
     tree_cost targets fee = sum_list targets + fee * tree_txs targets fee \<and>
     0 < tree_txs targets fee \<and> tree_txs targets fee \<le> 2 * length targets - 1"

lemma cost_fold:
  "(\<And>grp. grp \<in> set groups \<Longrightarrow> priced grp fee) \<Longrightarrow>
   a + sum_list (map (\<lambda>grp. tree_txs grp fee) groups) < 2 ^ 64 \<Longrightarrow>
   b + sum_list (map (\<lambda>grp. tree_cost grp fee) groups) < 2 ^ 64 \<Longrightarrow>
   try_fold (\<lambda>state grp. case state of (txs, value) \<Rightarrow>
          and_then (subtree_cost grp fee) (\<lambda>(t, v).
          and_then (add_u 64 txs t) (\<lambda>txs'.
          and_then (add_u 64 value v) (\<lambda>value'. Inr (txs', value')))))
        (a, b) groups =
     (Inr (a + sum_list (map (\<lambda>grp. tree_txs grp fee) groups),
           b + sum_list (map (\<lambda>grp. tree_cost grp fee) groups)) :: (nat \<times> nat) planner)"
proof (induction groups arbitrary: a b)
  case (Cons grp groups)
  have "subtree_cost grp fee = Inr (tree_txs grp fee, tree_cost grp fee)"
    using Cons.prems(1) by (simp add: priced_def)
  then show ?case using Cons by (simp add: add.assoc)
qed simp

lemma priced_sums:
  assumes "\<And>grp. grp \<in> set groups \<Longrightarrow> priced grp fee"
  shows "sum_list (map (\<lambda>grp. tree_cost grp fee) groups) =
    sum_list (concat groups) + fee * sum_list (map (\<lambda>grp. tree_txs grp fee) groups)"
  using assms by (induction groups) (simp_all add: priced_def algebra_simps)

lemma priced_txs:
  assumes "\<And>grp. grp \<in> set groups \<Longrightarrow> priced grp fee"
  shows "sum_list (map (\<lambda>grp. tree_txs grp fee) groups) + length groups \<le> 2 * length (concat groups)"
  using assms
proof (induction groups)
  case (Cons grp groups)
  have "tree_txs grp fee + 1 \<le> 2 * length grp" using Cons.prems by (force simp: priced_def)
  moreover have "sum_list (map (\<lambda>grp. tree_txs grp fee) groups) + length groups \<le> 2 * length (concat groups)"
    using Cons by simp
  ultimately show ?case by simp
qed simp

lemma sum_list_child_le: "grp \<in> set groups \<Longrightarrow> sum_list grp \<le> sum_list (concat groups)" for groups :: "nat list list"
  by (induction groups) auto

definition tree_bounds :: "nat list \<Rightarrow> nat \<Rightarrow> bool" where
  "tree_bounds targets fee \<longleftrightarrow>
     targets \<noteq> [] \<and> sum_list targets + fee * (2 * length targets) < 2 ^ 64 \<and>
     2 * length targets < 2 ^ 64"

lemma tree_bounds_child:
  assumes "tree_bounds targets fee" and d: "1 < split_depth (length targets)"
    and g: "grp \<in> set (child_groups targets)"
  shows "tree_bounds grp fee"
proof -
  note b = child_group_bounds [OF d g]
  have "fee * (2 * length grp) \<le> fee * (2 * length targets)" using b by (intro mult_le_mono2) simp
  moreover have "sum_list grp \<le> sum_list targets"
    using sum_list_child_le [OF g] concat_child_groups [OF d] by simp
  ultimately have "sum_list grp + fee * (2 * length grp) < 2 ^ 64"
    using assms(1) unfolding tree_bounds_def by linarith
  moreover have "2 * length grp < 2 ^ 64" using b(2) assms(1) unfolding tree_bounds_def by linarith
  ultimately show ?thesis using b(1) by (auto simp: tree_bounds_def)
qed

lemma subtree_cost_leaf:
  assumes "tree_bounds targets fee" and "split_depth (length targets) \<le> 1"
  shows "subtree_cost targets fee = Inr (1, sum_list targets + fee)"
proof -
  have "1 \<le> length targets" using assms(1) by (cases targets) (auto simp: tree_bounds_def)
  then have "fee * 1 \<le> fee * (2 * length targets)" by (intro mult_le_mono2) simp
  then have "sum_list targets + fee < 2 ^ 64" using assms(1) unfolding tree_bounds_def by linarith
  then show ?thesis using assms(2) by (subst subtree_cost.simps) simp
qed

lemma subtree_cost_node:
  assumes a: "tree_bounds targets fee" and d: "1 < split_depth (length targets)"
    and sub: "\<And>grp. grp \<in> set (child_groups targets) \<Longrightarrow> priced grp fee"
  defines "T \<equiv> sum_list (map (\<lambda>grp. tree_txs grp fee) (child_groups targets))"
    and "C \<equiv> sum_list (map (\<lambda>grp. tree_cost grp fee) (child_groups targets))"
  shows "subtree_cost targets fee = Inr (1 + T, fee + C)"
    and "C = sum_list targets + fee * T" and "T + 2 \<le> 2 * length targets"
proof -
  note cat = concat_child_groups [OF d]
  show txs: "T + 2 \<le> 2 * length targets"
    using priced_txs [of "child_groups targets" fee, OF sub] group_count_bounds(1) [OF d] cat by (simp add: T_def)
  show cost: "C = sum_list targets + fee * T"
    using priced_sums [of "child_groups targets" fee, OF sub] cat by (simp add: T_def C_def)
  have "fee * (T + 1) \<le> fee * (2 * length targets)" using txs by (intro mult_le_mono2) simp
  then have fits: "fee + C < 2 ^ 64" using a cost by (simp add: tree_bounds_def)
  have few: "1 + T < 2 ^ 64" using a txs unfolding tree_bounds_def by linarith
  show "subtree_cost targets fee = Inr (1 + T, fee + C)"
    using d cost_fold [of "child_groups targets" fee 1 fee, OF sub] few fits
    by (subst subtree_cost.simps) (simp add: T_def C_def)
qed

lemma subtree_cost_priced: "tree_bounds targets fee \<Longrightarrow> priced targets fee"
proof (induction "length targets" arbitrary: targets rule: less_induct)
  case less
  have pos: "1 \<le> length targets" using less.prems by (cases targets) (auto simp: tree_bounds_def)
  show ?case
  proof (cases "split_depth (length targets) \<le> 1")
    case True
    then show ?thesis
      using pos subtree_cost_leaf [OF less.prems] by (simp add: priced_def tree_txs_def tree_cost_def)
  next
    case False
    then have d: "1 < split_depth (length targets)" by simp
    have "priced grp fee" if "grp \<in> set (child_groups targets)" for grp
      by (rule less.hyps [OF child_group_bounds(2) [OF d that] tree_bounds_child [OF less.prems d that]])
    note node = subtree_cost_node [OF less.prems d this]
    show ?thesis using node by (simp add: priced_def tree_txs_def tree_cost_def)
  qed
qed

section \<open>One transaction of a split\<close>

lemma zat_list_total: "\<forall>v \<in> set vs. v \<le> mm \<Longrightarrow> collect_results (map (zat mm) vs) = Inr vs"
  by (induction vs) auto

definition split_tx :: "prep_input \<Rightarrow> nat \<Rightarrow> nat \<Rightarrow> (nat \<Rightarrow> prep_output) \<Rightarrow> nat list \<Rightarrow> prep_transaction" where
  "split_tx source v fee label values =
     \<lparr> prep_inputs = [source],
       prep_outputs = map label values @
         (if sum_list values + fee < v then [Intermediate (v - fee - sum_list values)] else []) \<rparr>"

lemma split_transaction_eq:
  assumes "sum_list values + fee \<le> v" and "v \<le> mm" and "mm < 2 ^ 64"
  shows "split_transaction mm source v fee label values = Inr (split_tx source v fee label values)"
proof -
  have "\<forall>x \<in> set values. x \<le> mm"
    using assms member_le_sum_list_nat by fastforce
  then have zs: "collect_results (map (zat mm) values) = Inr values" by (rule zat_list_total)
  have sum: "sum_u 64 values = (Inr (sum_list values) :: nat planner)"
    using assms by (intro sum_u_eq) linarith
  have subs: "sub_u v fee = (Inr (v - fee) :: nat planner)"
    "sub_u (v - fee) (sum_list values) = (Inr (v - fee - sum_list values) :: nat planner)"
    using assms by simp_all
  have "zat mm (v - fee - sum_list values) = Inr (v - fee - sum_list values)"
    using assms by (intro zat_eq) linarith
  then show ?thesis
    by (auto simp: split_transaction_def split_tx_def zs sum subs)
qed

lemma split_tx_facts:
  assumes "sum_list values + fee \<le> prep_input_value source" and "length values \<le> FUNDING_OUTPUTS_PER_TX"
    and "\<And>x. prep_output_value (label x) = x"
  shows "tx_ok fee (split_tx source (prep_input_value source) fee label values)"
    and "prep_inputs (split_tx source v fee label values) = [source]"
proof -
  have "outputs_value (map label values) = sum_list values"
    using assms(3) by (simp add: outputs_value_def comp_def)
  then show "tx_ok fee (split_tx source (prep_input_value source) fee label values)"
    using assms(1,2)
    by (auto simp: tx_ok_def split_tx_def action_count_def FUNDING_OUTPUTS_PER_TX_def PREP_TX_ACTIONS_def)
qed (simp add: split_tx_def)

lemma funding_map_filter [simp]:
  "List.map_filter funding_value (map Funding vs) = vs"
  "List.map_filter funding_value (map Intermediate vs) = []"
  "List.map_filter funding_value [Intermediate v] = []"
  "List.map_filter funding_value [] = []"
  by (simp_all add: map_filter_def comp_def filter_empty_conv)

lemma split_tx_minted:
  "List.map_filter funding_value (prep_outputs (split_tx source v fee Funding vs)) = vs"
  "List.map_filter funding_value (prep_outputs (split_tx source v fee Intermediate vs)) = []"
  by (simp_all add: split_tx_def map_filter_append)

section \<open>Building the tree\<close>

definition split_post ::
  "(nat \<rightharpoonup> nat) \<Rightarrow> nat \<Rightarrow> nat \<Rightarrow> prep_input \<Rightarrow> nat list \<Rightarrow> prep_layers \<Rightarrow> prep_layers \<Rightarrow> bool" where
  "split_post wallet fee layer source targets layers layers' \<longleftrightarrow>
     plan_ok wallet fee layers' \<and>
     set (located_outputs layers) \<subseteq> set (located_outputs layers') \<and>
     used_refs layers' \<subseteq> used_refs layers \<union> {note_ref source} \<union> {Inr (l, t, p) | l t p. layer \<le> l} \<and>
     minted layers' = minted layers + mset targets \<and>
     count_txs layers' = count_txs layers + tree_txs targets fee \<and>
     layer < length layers' \<and> length layers \<le> length layers' \<and>
     length layers' \<le> max (length layers) (layer + split_depth (length targets))"

text \<open>The first step of \<open>build_split\<close> makes room for the layer.\<close>

lemma ensure_layer_eq:
  "layer \<le> length layers \<Longrightarrow> ensure_layer layer layers = (if layer = length layers then layers @ [[]] else layers)"
  by (simp add: ensure_layer_def)

lemma ensure_layer_facts:
  assumes "plan_ok wallet fee layers" and "layer \<le> length layers"
  defines "ls \<equiv> ensure_layer layer layers"
  shows "plan_ok wallet fee ls" and "layer < length ls"
    and "set (located_outputs ls) = set (located_outputs layers)"
    and "used_refs ls = used_refs layers" and "minted ls = minted layers"
    and "count_txs ls = count_txs layers" and "length layers \<le> length ls"
    and "length ls \<le> max (length layers) (layer + 1)"
  unfolding ls_def ensure_layer_eq [OF assms(2)]
  using assms plan_ok_empty_layer by (auto simp: map_filter_def layer_outputs_def)

lemma split_depth_pos: "0 < n \<Longrightarrow> 1 \<le> split_depth n"
  using split_depth_loop_spec [of 1 1 n] by (auto simp: split_depth_def Let_def)

lemma fresh_position:
  assumes "plan_ok wallet fee layers" and "length (layers ! layer) \<le> ti"
  shows "Inr (layer, ti, p) \<notin> used_refs layers"
  using used_refs_located [OF assms(1)] assms(2) by (fastforce simp: in_located_outputs)

lemma child_values_eq:
  assumes "\<And>grp. grp \<in> set groups \<Longrightarrow> priced grp fee"
  shows "child_values fee groups = Inr (map (\<lambda>grp. tree_cost grp fee) groups)"
proof -
  have "map (\<lambda>grp. and_then (subtree_cost grp fee) (\<lambda>(t, v). Inr v)) groups =
      map Inr (map (\<lambda>grp. tree_cost grp fee) groups)"
    using assms by (auto simp: priced_def)
  then show ?thesis unfolding child_values_def by (simp add: collect_results_Inr)
qed

text \<open>One transaction pushed into its layer.\<close>

lemma push_split_tx:
  fixes label source layers layer fee vs
  defines "ls \<equiv> ensure_layer layer layers"
    and "tx \<equiv> split_tx source (prep_input_value source) fee label vs"
  assumes ok: "plan_ok wallet fee layers" and l: "layer \<le> length layers"
    and src: "input_ok wallet layers layer source" "note_ref source \<notin> used_refs layers"
    and cost: "sum_list vs + fee \<le> prep_input_value source" "length vs \<le> FUNDING_OUTPUTS_PER_TX"
    and label: "\<And>x. prep_output_value (label x) = x"
  defines "P \<equiv> push_transaction layer tx ls"
  shows "plan_ok wallet fee P" and "set (located_outputs layers) \<subseteq> set (located_outputs P)"
    and "used_refs P = used_refs layers \<union> {note_ref source}"
    and "minted P = minted layers + mset (List.map_filter funding_value (prep_outputs tx))"
    and "count_txs P = Suc (count_txs layers)" and "layer < length P"
    and "length layers \<le> length P" and "length P \<le> max (length layers) (layer + 1)"
    and "\<And>i. i < length vs \<Longrightarrow>
      ((layer, length (ls ! layer), i), label (vs ! i)) \<in> set (located_outputs P)"
proof -
  note e = ensure_layer_facts [OF ok l, folded ls_def]
  have inputs: "prep_inputs tx = [source]" by (simp add: tx_def split_tx_def)
  show "plan_ok wallet fee P"
    unfolding P_def
  proof (rule plan_ok_push [OF e(1,2)])
    show "tx_ok fee tx" unfolding tx_def by (rule split_tx_facts(1) [OF cost label])
    fix n assume "n \<in> set (prep_inputs tx)"
    then show "input_ok wallet ls layer n"
      using src(1) by (auto simp: inputs e(3) intro: input_ok_mono)
  qed (use src(2) in \<open>simp_all add: inputs e(4)\<close>)
  show "set (located_outputs layers) \<subseteq> set (located_outputs P)"
    using located_outputs_push [OF e(2)] e(3) by (simp add: P_def)
  show "used_refs P = used_refs layers \<union> {note_ref source}"
    using e(2,4) by (simp add: P_def inputs)
  show "minted P = minted layers + mset (List.map_filter funding_value (prep_outputs tx))"
    using e(2,5) by (simp add: P_def minted_push)
  show "count_txs P = Suc (count_txs layers)" using e(2,6) by (simp add: P_def count_txs_push)
  show "layer < length P" "length layers \<le> length P" "length P \<le> max (length layers) (layer + 1)"
    using e(2,7,8) by (simp_all add: P_def)
  show "((layer, length (ls ! layer), i), label (vs ! i)) \<in> set (located_outputs P)"
    if "i < length vs" for i
    using that e(2) by (simp add: in_located_outputs P_def nth_push tx_def split_tx_def nth_append)
qed

lemma tree_values_le:
  assumes "i < length values" and "sum_list values + fee \<le> v"
  shows "values ! i \<le> (v :: nat)"
  using assms member_le_sum_list_nat [OF nth_mem [OF assms(1)]] by linarith

text \<open>The children, one after the other, each from its own output of the node's transaction.\<close>

definition children_inv ::
  "(nat \<rightharpoonup> nat) \<Rightarrow> nat \<Rightarrow> nat \<Rightarrow> nat \<Rightarrow> nat list list \<Rightarrow> nat \<Rightarrow> prep_layers \<Rightarrow> nat \<Rightarrow> prep_layers \<Rightarrow> bool" where
  "children_inv wallet fee layer ti groups depth P i ls \<longleftrightarrow>
     plan_ok wallet fee ls \<and> set (located_outputs P) \<subseteq> set (located_outputs ls) \<and>
     used_refs ls \<subseteq> used_refs P \<union> {Inr (layer, ti, j) | j. j < i} \<union> {Inr (l, t, p) | l t p. layer + 1 \<le> l} \<and>
     minted ls = minted P + mset (concat (take i groups)) \<and>
     count_txs ls = count_txs P + sum_list (map (\<lambda>grp. tree_txs grp fee) (take i groups)) \<and>
     length P \<le> length ls \<and> length ls \<le> max (length P) (layer + depth)"

lemma children_step:
  assumes inv: "children_inv wallet fee layer ti groups depth P i ls"
    and i: "i < length groups" and deep: "split_depth (length (groups ! i)) + 1 \<le> depth"
    and post: "split_post wallet fee (layer + 1) (PriorNote layer ti i v) (groups ! i) ls ls'"
  shows "children_inv wallet fee layer ti groups depth P (Suc i) ls'"
proof -
  have used: "used_refs ls' \<subseteq>
      used_refs P \<union> {Inr (layer, ti, j) | j. j < Suc i} \<union> {Inr (l, t, p) | l t p. layer + 1 \<le> l}"
  proof
    fix r assume "r \<in> used_refs ls'"
    then have "r \<in> used_refs ls \<or> r = Inr (layer, ti, i) \<or> r \<in> {Inr (l, t, p) | l t p. layer + 1 \<le> l}"
      using post by (auto simp: split_post_def)
    then show "r \<in> used_refs P \<union> {Inr (layer, ti, j) | j. j < Suc i} \<union>
        {Inr (l, t, p) | l t p. layer + 1 \<le> l}"
      using inv by (auto simp: children_inv_def)
  qed
  have "take (Suc i) groups = take i groups @ [groups ! i]" using i by (rule take_Suc_conv_app_nth)
  then show ?thesis
    using inv post deep used
    by (auto simp: children_inv_def split_post_def)
qed

lemma split_post_leaf:
  assumes a: "tree_bounds targets fee" and leaf: "split_depth (length targets) \<le> 1"
    and ok: "plan_ok wallet fee layers" and l: "layer \<le> length layers"
    and src: "input_ok wallet layers layer source" "note_ref source \<notin> used_refs layers"
    and cost: "tree_cost targets fee \<le> prep_input_value source"
  shows "split_post wallet fee layer source targets layers
    (push_transaction layer (split_tx source (prep_input_value source) fee Funding targets)
      (ensure_layer layer layers))"
proof -
  have t: "tree_cost targets fee = sum_list targets + fee" "tree_txs targets fee = 1"
    using subtree_cost_leaf [OF a leaf] by (simp_all add: tree_cost_def tree_txs_def)
  have "length targets \<le> FUNDING_OUTPUTS_PER_TX" using leaf unfolding split_depth_leaf .
  note p = push_split_tx [OF ok l src cost [unfolded t(1)] this, of Funding, OF prep_output_value.simps(1)]
  have "1 \<le> split_depth (length targets)"
    using a by (intro split_depth_pos) (simp add: tree_bounds_def)
  moreover have "length (push_transaction layer (split_tx source (prep_input_value source) fee Funding targets)
      (ensure_layer layer layers)) \<le> max (length layers) (layer + 1)"
    by (rule p(8))
  ultimately show ?thesis
    using p(1-7) t by (auto simp: split_post_def split_tx_minted)
qed

theorem build_split_sound:
  assumes "tree_bounds targets fee" and "plan_ok wallet fee layers" and "layer \<le> length layers"
    and "input_ok wallet layers layer source" and "note_ref source \<notin> used_refs layers"
    and "tree_cost targets fee \<le> prep_input_value source"
    and "prep_input_value source \<le> mm" and mm: "mm < 2 ^ 64"
  shows "\<exists>layers'. build_split mm source (prep_input_value source) targets fee layer layers = Inr layers' \<and>
    split_post wallet fee layer source targets layers layers'"
  using assms(1-7)
proof (induction "length targets" arbitrary: targets source layer layers rule: less_induct)
  case less
  let ?n = "length targets" and ?v = "prep_input_value source"
  let ?ls = "ensure_layer layer layers"
  note a = less.prems(1) and ok = less.prems(2) and l = less.prems(3) and cost = less.prems(6)
  show ?case
  proof (cases "split_depth ?n \<le> 1")
    case True
    have "tree_cost targets fee = sum_list targets + fee"
      using subtree_cost_leaf [OF a True] by (simp add: tree_cost_def)
    then have "split_transaction mm source ?v fee Funding targets = Inr (split_tx source ?v fee Funding targets)"
      using cost less.prems(7) mm by (intro split_transaction_eq) simp_all
    then have "build_split mm source ?v targets fee layer layers =
        Inr (push_transaction layer (split_tx source ?v fee Funding targets) ?ls)"
      using True by (subst build_split.simps) (simp add: Let_def)
    then show ?thesis using split_post_leaf [OF a True less.prems(2-6)] by blast
  next
    case False
    then have d: "1 < split_depth ?n" by simp
    let ?gs = "child_groups targets"
    let ?vs = "map (\<lambda>grp. tree_cost grp fee) ?gs"
    let ?ti = "length (?ls ! layer)"
    let ?P = "push_transaction layer (split_tx source ?v fee Intermediate ?vs) ?ls"
    let ?I = "children_inv wallet fee layer ?ti ?gs (split_depth ?n) ?P"
    have priced: "priced grp fee" if "grp \<in> set ?gs" for grp
      by (rule subtree_cost_priced [OF tree_bounds_child [OF a d that]])
    note node = subtree_cost_node [OF a d priced]
    have t: "tree_cost targets fee = fee + sum_list ?vs"
        "tree_txs targets fee = 1 + sum_list (map (\<lambda>grp. tree_txs grp fee) ?gs)"
      using node(1) by (simp_all add: tree_cost_def tree_txs_def)
    have fits: "sum_list ?vs + fee \<le> ?v" "length ?vs \<le> FUNDING_OUTPUTS_PER_TX"
      using cost t group_count_bounds(2) [OF d] by simp_all
    note p = push_split_tx [OF ok l less.prems(4,5) fits, of Intermediate, OF prep_output_value.simps(2)]
    have tx: "split_transaction mm source ?v fee Intermediate ?vs = Inr (split_tx source ?v fee Intermediate ?vs)"
      by (rule split_transaction_eq [OF fits(1) less.prems(7) mm])
    have unfold: "build_split mm source ?v targets fee layer layers =
        try_fold (\<lambda>ls (out, grp).
            and_then (zat mm (?vs ! out)) (\<lambda>cv.
            build_split mm (PriorNote layer ?ti out cv) (?vs ! out) grp fee (layer + 1) ls))
          ?P (enumerate 0 ?gs)"
      using False tx child_values_eq [OF priced, of ?gs]
      by (subst build_split.simps) (simp add: Let_def)
    have source_fresh: "note_ref source \<noteq> Inr (layer, ?ti, i)" for i
      using less.prems(4) by (cases source) (auto simp: input_ok_def)
    have init: "?I 0 ?P" using p(1) by (simp add: children_inv_def)
    have step: "\<exists>ls'. (\<lambda>ls (out, grp).
            and_then (zat mm (?vs ! out)) (\<lambda>cv.
            build_split mm (PriorNote layer ?ti out cv) (?vs ! out) grp fee (layer + 1) ls))
          ls (0 + i, ?gs ! i) = Inr ls' \<and> ?I (Suc (0 + i)) ls'"
      if i: "i < length ?gs" and inv: "?I (0 + i) ls" for i ls
    proof -
      let ?grp = "?gs ! i" and ?child = "PriorNote layer ?ti i (?vs ! i)"
      have g: "?grp \<in> set ?gs" using i by simp
      note b = child_group_bounds [OF d g]
      have vi: "i < length ?vs" using i by simp
      have "?vs ! i \<le> ?v" by (rule tree_values_le [OF vi fits(1)])
      then have le: "?vs ! i \<le> mm" using less.prems(7) by (rule order_trans)
      have "((layer, ?ti, i), Intermediate (?vs ! i)) \<in> set (located_outputs ls)"
        using p(9) [OF vi] inv by (auto simp: children_inv_def)
      then have child: "input_ok wallet ls (layer + 1) ?child" by (simp add: input_ok_def)
      have "Inr (layer, ?ti, i) \<notin> used_refs ?P"
        using p(3) source_fresh [of i, symmetric] fresh_position [OF ensure_layer_facts(1) [OF ok l], of layer ?ti i]
          ensure_layer_facts(4) [OF ok l] by auto
      then have unused: "note_ref ?child \<notin> used_refs ls"
        using inv by (auto simp: children_inv_def)
      have "split_depth (length ?grp) \<le> split_depth ?n - 1"
        using d by (intro split_depth_le b(3)) simp
      then have deep: "split_depth (length ?grp) + 1 \<le> split_depth ?n" using d by simp
      have "\<exists>ls'. build_split mm ?child (prep_input_value ?child) ?grp fee (layer + 1) ls = Inr ls' \<and>
          split_post wallet fee (layer + 1) ?child ?grp ls ls'"
      proof (rule less.hyps [OF b(2) tree_bounds_child [OF a d g] _ _ child unused])
        show "plan_ok wallet fee ls" using inv by (simp add: children_inv_def)
        show "layer + 1 \<le> length ls" using inv p(6) by (simp add: children_inv_def)
      qed (use le vi in simp_all)
      then show ?thesis
        using children_step [OF inv [unfolded add_0] i deep] le i by auto
    qed
    have "\<exists>ls'. build_split mm source ?v targets fee layer layers = Inr ls' \<and> ?I (0 + length ?gs) ls'"
      unfolding unfold using init step by (rule try_fold_enumerate)
    then obtain ls' where
      eq: "build_split mm source ?v targets fee layer layers = Inr ls'" and inv: "?I (length ?gs) ls'"
      by auto
    have "split_post wallet fee layer source targets layers ls'"
      using inv p(1-8) t(2) d concat_child_groups [OF d]
      by (auto simp: children_inv_def split_post_def split_tx_minted)
    then show ?thesis using eq by blast
  qed
qed

end
