(* ===== verification/PrepPlanCorrect.thy ===== *)
theory PrepPlanCorrect
  imports PrepPlanSplit
begin

text \<open>
  Correctness of the whole planner: its loops keep the notes in hand spendable and the plan well
  formed, they never panic, and the finished plan mints exactly the requested notes.
\<close>

section \<open>Notes in hand\<close>

text \<open>Notes that the next layer may spend: they exist, no two are the same, none is spent.\<close>

definition spendable :: "(nat \<rightharpoonup> nat) \<Rightarrow> nat \<Rightarrow> prep_layers \<Rightarrow> prep_input list \<Rightarrow> bool" where
  "spendable wallet mm layers pool \<longleftrightarrow>
     (\<forall>n \<in> set pool. input_ok wallet layers (length layers) n) \<and>
     distinct (map note_ref pool) \<and> note_ref ` set pool \<inter> used_refs layers = {} \<and>
     inputs_value pool \<le> mm"

lemma spendable_submset:
  assumes "spendable wallet mm layers pool" and "mset ns \<subseteq># mset pool"
  shows "spendable wallet mm layers ns"
proof -
  obtain rest where rest: "mset pool = mset ns + mset rest"
    using assms(2) by (metis ex_mset mset_subset_eq_exists_conv)
  then have eq: "mset pool = mset (ns @ rest)" by simp
  have "distinct (map note_ref (ns @ rest))"
    using assms(1) eq unfolding spendable_def by (metis mset_eq_imp_distinct_iff mset_map)
  moreover have "inputs_value pool = inputs_value ns + inputs_value rest"
    using inputs_value_mset [OF eq] by simp
  moreover have "set pool = set ns \<union> set rest" by (metis eq set_append set_mset_mset)
  ultimately show ?thesis using assms(1) by (auto simp: spendable_def)
qed

lemma inputs_value_subset: "mset ns \<subseteq># mset pool \<Longrightarrow> inputs_value ns \<le> inputs_value pool"
proof -
  assume "mset ns \<subseteq># mset pool"
  then obtain rest where "mset pool = mset (ns @ rest)"
    by (metis ex_mset mset_append mset_subset_eq_exists_conv)
  from inputs_value_mset [OF this] show ?thesis by simp
qed

lemma spend_layer:
  assumes "plan_ok wallet fee layers" and "\<And>tx. tx \<in> set txs \<Longrightarrow> tx_ok fee tx"
    and "spendable wallet mm layers (concat (map prep_inputs txs))"
  shows "plan_ok wallet fee (layers @ [txs])"
  using assms(3) by (intro plan_ok_layer [OF assms(1,2)]) (auto simp: spendable_def)

text \<open>The feeders of a layer are spendable in the next one.\<close>

lemma is_consolidation_ok:
  "is_consolidation fee {2..15} tx \<Longrightarrow> tx_ok fee tx"
  by (auto simp: is_consolidation_def tx_ok_def action_count_def PREP_TX_ACTIONS_def)

lemma mint_transaction_ok: "partial_ok fee p \<Longrightarrow> tx_ok fee (mint_transaction p)"
  by (cases p) (auto simp: partial_ok_def tx_ok_def mint_transaction_def action_count_def
      FUNDING_OUTPUTS_PER_TX_def PREP_TX_ACTIONS_def)

lemma mint_inputs: "map prep_inputs (map mint_transaction ps) = map (\<lambda>p. [fst p]) ps"
  by (auto simp: mint_transaction_def split: prod.splits)

lemma concat_singletons: "concat (map (\<lambda>p. [f p]) ps) = map f ps"
  by (induction ps) auto

lemma mint_minted:
  "List.map_filter funding_value (concat (map prep_outputs (map mint_transaction ps))) = partial_values ps"
  by (induction ps) (auto simp: mint_transaction_def map_filter_append split: prod.splits)

lemma consolidation_minted:
  "\<forall>tx \<in> set new. is_consolidation fee A tx \<Longrightarrow>
   List.map_filter funding_value (concat (map prep_outputs new)) = []"
  by (induction new) (auto simp: is_consolidation_def map_filter_append)

definition layer_feeders :: "nat \<Rightarrow> partial_spend list \<Rightarrow> prep_transaction list \<Rightarrow> prep_input list" where
  "layer_feeders layer ps new =
     concat (map (mint_feeder layer) (enumerate 0 ps)) @ map (feeder_note layer) (enumerate (length ps) new)"

lemma in_layer_feeders:
  assumes "n \<in> set (layer_feeders layer ps new)" and new: "\<forall>tx \<in> set new. is_consolidation fee A tx"
  shows "\<exists>t p v. n = PriorNote layer t p v \<and>
    ((layer, t, p), Intermediate v) \<in> set (layer_outputs layer (map mint_transaction ps @ new))"
proof -
  consider (mint) k where "k < length ps" "n \<in> set (mint_feeder layer (k, ps ! k))"
    | (merge) k where "k < length new" "n = feeder_note layer (length ps + k, new ! k)"
  proof -
    have "(\<exists>e \<in> set (enumerate 0 ps). n \<in> set (mint_feeder layer e)) \<or>
        (\<exists>e \<in> set (enumerate (length ps) new). n = feeder_note layer e)"
      using assms(1) by (auto simp: layer_feeders_def)
    then show ?thesis
    proof
      assume "\<exists>e \<in> set (enumerate 0 ps). n \<in> set (mint_feeder layer e)"
      then obtain k p where "(k, p) \<in> set (enumerate 0 ps)" "n \<in> set (mint_feeder layer (k, p))" by auto
      then show ?thesis by (intro mint [of k]) (simp_all add: in_set_enumerate_eq)
    next
      assume "\<exists>e \<in> set (enumerate (length ps) new). n = feeder_note layer e"
      then obtain k tx where "(k, tx) \<in> set (enumerate (length ps) new)" "n = feeder_note layer (k, tx)" by auto
      then show ?thesis by (intro merge [of "k - length ps"]) (auto simp: in_set_enumerate_eq)
    qed
  qed
  then show ?thesis
  proof cases
    case mint
    then show ?thesis
      by (cases "ps ! k")
        (auto simp: mint_feeder_def in_layer_outputs mint_transaction_def nth_append split: if_splits)
  next
    case merge
    then have "is_consolidation fee A (new ! k)" using new by simp
    then show ?thesis
      using merge by (auto simp: is_consolidation_def feeder_note_def in_layer_outputs nth_append)
  qed
qed

lemma mint_feeder_refs:
  "r \<in> note_ref ` set (concat (map (mint_feeder layer) (enumerate k ps))) \<Longrightarrow>
   \<exists>t p. r = Inr (layer, t, p) \<and> k \<le> t \<and> t < k + length ps"
proof (induction ps arbitrary: k)
  case (Cons p ps)
  then consider "r \<in> note_ref ` set (mint_feeder layer (k, p))"
    | "r \<in> note_ref ` set (concat (map (mint_feeder layer) (enumerate (Suc k) ps)))" by auto
  then show ?case
  proof cases
    case 1
    then show ?thesis by (cases p) (auto simp: mint_feeder_def split: if_splits)
  next
    case 2
    from Cons.IH [OF this] show ?thesis by fastforce
  qed
qed simp

lemma distinct_mint_feeders:
  "distinct (map note_ref (concat (map (mint_feeder layer) (enumerate k ps))))"
proof (induction ps arbitrary: k)
  case (Cons p ps)
  let ?rest = "concat (map (mint_feeder layer) (enumerate (Suc k) ps))"
  obtain input a left where p: "p = (input, a, left)" by (cases p)
  have "distinct (map note_ref (mint_feeder layer (k, p)))"
    and head: "note_ref ` set (mint_feeder layer (k, p)) \<subseteq> {Inr (layer, k, length (fst (snd p)))}"
    by (auto simp: p mint_feeder_def)
  moreover have "note_ref ` set (mint_feeder layer (k, p)) \<inter> note_ref ` set ?rest = {}"
  proof (rule equals0I)
    fix r assume r: "r \<in> note_ref ` set (mint_feeder layer (k, p)) \<inter> note_ref ` set ?rest"
    then obtain t q where "r = Inr (layer, t, q)" "Suc k \<le> t"
      using mint_feeder_refs [of r layer "Suc k" ps] by blast
    then show False using r head by auto
  qed
  ultimately show ?case using Cons.IH [of "Suc k"] by (simp add: distinct_append)
qed simp

lemma feeder_note_refs:
  "map note_ref (map (feeder_note layer) (enumerate k new)) =
     map (\<lambda>t. Inr (layer, t, 0)) [k..<k + length new]"
  by (rule nth_equalityI) (simp_all add: nth_enumerate_eq feeder_note_def)

lemma distinct_layer_feeders: "distinct (map note_ref (layer_feeders layer ps new))"
proof -
  have "note_ref ` set (concat (map (mint_feeder layer) (enumerate 0 ps))) \<inter>
      set (map note_ref (map (feeder_note layer) (enumerate (length ps) new))) = {}"
  proof (rule equals0I)
    fix r assume r: "r \<in> note_ref ` set (concat (map (mint_feeder layer) (enumerate 0 ps))) \<inter>
        set (map note_ref (map (feeder_note layer) (enumerate (length ps) new)))"
    then obtain t q where "r = Inr (layer, t, q)" "t < length ps"
      using mint_feeder_refs [of r layer 0 ps] by auto
    then show False using r unfolding feeder_note_refs by auto
  qed
  moreover have "distinct (map note_ref (map (feeder_note layer) (enumerate (length ps) new)))"
    unfolding feeder_note_refs by (simp add: distinct_map inj_on_def)
  ultimately show ?thesis
    using distinct_mint_feeders unfolding layer_feeders_def map_append distinct_append set_map by blast
qed

lemma layer_feeders_value:
  assumes "\<forall>p \<in> set ps. partial_ok fee p" and "\<forall>tx \<in> set new. is_consolidation fee A tx"
  shows "inputs_value (layer_feeders layer ps new) \<le>
    inputs_value (map fst ps) + inputs_value (concat (map prep_inputs new))"
proof -
  have "inputs_value (concat (map (mint_feeder layer) (enumerate k ps))) \<le> inputs_value (map fst ps)" for k
    using assms(1)
  proof (induction ps arbitrary: k)
    case (Cons p ps)
    then have "inputs_value (concat (map (mint_feeder layer) (enumerate (Suc k) ps))) \<le> inputs_value (map fst ps)"
      by simp
    moreover have "inputs_value (mint_feeder layer (k, p)) \<le> prep_input_value (fst p)"
      using Cons.prems by (cases p) (auto simp: mint_feeder_def partial_ok_def)
    ultimately show ?case by simp
  qed simp
  moreover have "inputs_value (map (feeder_note layer) (enumerate k new)) \<le>
      inputs_value (concat (map prep_inputs new))" for k
    using assms(2)
  proof (induction new arbitrary: k)
    case (Cons tx new)
    then have "inputs_value (map (feeder_note layer) (enumerate (Suc k) new)) \<le>
      inputs_value (concat (map prep_inputs new))" by simp
    moreover have "prep_input_value (feeder_note layer (k, tx)) \<le> inputs_value (prep_inputs tx)"
      using Cons.prems by (auto simp: is_consolidation_def feeder_note_def)
    ultimately show ?case by simp
  qed simp
  ultimately show ?thesis by (simp add: layer_feeders_def add_mono)
qed

lemma used_refs_earlier:
  assumes "plan_ok wallet fee layers" and "Inr (l, t, p) \<in> used_refs layers"
  shows "l + 1 < length layers"
proof -
  obtain m txs tx where "txs \<in> set layers" "tx \<in> set txs" "m \<in> set (prep_inputs tx)"
    and ref: "note_ref m = Inr (l, t, p)"
    using assms(2) by (auto simp: used_refs_def plan_inputs_def)
  then obtain k where k: "k < length layers" "tx \<in> set (layers ! k)" by (metis in_set_conv_nth)
  then have "input_ok wallet layers k m"
    using assms(1) \<open>m \<in> set (prep_inputs tx)\<close> by (simp add: plan_ok_def)
  then show ?thesis using ref k(1) by (cases m) (auto simp: input_ok_def)
qed

lemma layer_feeders_spendable:
  assumes new: "\<forall>tx \<in> set new. is_consolidation fee A tx" and ps: "\<forall>p \<in> set ps. partial_ok fee p"
    and ok: "plan_ok wallet fee (layers @ [map mint_transaction ps @ new])"
    and "inputs_value (map fst ps) + inputs_value (concat (map prep_inputs new)) \<le> mm"
  shows "spendable wallet mm (layers @ [map mint_transaction ps @ new])
    (layer_feeders (length layers) ps new)"
proof -
  let ?L = "layers @ [map mint_transaction ps @ new]"
  have "input_ok wallet ?L (length ?L) n \<and> note_ref n \<notin> used_refs ?L"
    if n: "n \<in> set (layer_feeders (length layers) ps new)" for n
  proof -
    obtain t p v where v: "n = PriorNote (length layers) t p v"
      "((length layers, t, p), Intermediate v) \<in> set (located_outputs ?L)"
      using in_layer_feeders [OF n new] by auto
    have "Inr (length layers, t, p) \<notin> used_refs ?L"
      using used_refs_earlier [OF ok] by fastforce
    then show ?thesis using v by (simp add: input_ok_def)
  qed
  then show ?thesis
    using layer_feeders_value [OF ps new, of "length layers"] assms(4) distinct_layer_feeders
    by (auto simp: spendable_def)
qed

section \<open>The greedy layers\<close>

lemma assign_pass_total:
  "\<forall>n \<in> set pool. prep_input_value n \<le> mm \<Longrightarrow> \<forall>v \<in> set remaining. v \<le> mm \<Longrightarrow> mm + mm < 2 ^ 64 \<Longrightarrow>
   \<exists>r. assign_pass fee pool remaining partial consolidatable = Inr r"
proof (induction pool arbitrary: remaining partial consolidatable)
  case (Cons input rest)
  let ?b = "prep_input_value input - fee"
  have "?b \<le> mm" using Cons.prems(1) by fastforce
  then have "\<forall>v \<in> set remaining. ?b + v < 2 ^ 64" using Cons.prems(2,3) by fastforce
  then obtain r a u where af: "assign_funding ?b remaining 0 [] 0 = Inr (r, a, u)"
    using assign_funding_total [of 0 ?b remaining 0 "[]"] by fastforce
  have sh: "mset r + mset a = mset remaining" "u \<le> ?b" using assign_funding_shape [OF af] by auto
  then have "set r \<subseteq> set remaining" by (metis mset_subset_eq_add_left set_mset_mono set_mset_mset)
  then have "\<forall>v \<in> set r. v \<le> mm" using Cons.prems(2) by blast
  then show ?case
    using Cons.IH Cons.prems af sh(2) by (simp add: Let_def)
qed simp

lemma inputs_value_member: "n \<in> set pool \<Longrightarrow> prep_input_value n \<le> inputs_value pool"
  unfolding inputs_value_def by (intro member_le_sum_list_nat) simp

lemma greedy_layer_total:
  assumes "inputs_value current \<le> mm" and "\<forall>v \<in> set remaining. v \<le> mm" and "mm + mm < 2 ^ 64"
  shows "\<exists>r. greedy_layer mm tie fee layer remaining current = Inr r"
proof -
  have v: "inputs_value (sort_notes_desc tie current) \<le> mm"
    using assms(1) inputs_value_mset [of "sort_notes_desc tie current" current] by simp
  then have small: "\<forall>n \<in> set (sort_notes_desc tie current). prep_input_value n \<le> mm"
    using inputs_value_member order_trans by blast
  obtain r ps cs where a: "assign_pass fee (sort_notes_desc tie current) remaining [] [] = Inr (r, ps, cs)"
    using assign_pass_total [OF small assms(2,3)] by (metis prod.collapse)
  have sh: "mset (map fst ps) + mset cs \<subseteq># mset (sort_notes_desc tie current)"
    "\<forall>p \<in> set ps. partial_ok fee p"
    using assign_pass_shape [OF a] by auto
  have "set (map fst ps) \<subseteq> set (sort_notes_desc tie current)"
    by (metis sh(1) set_mset_mono set_mset_mset set_mset_union sup.boundedE)
  then have "\<forall>p \<in> set ps. partial_ok fee p \<and> prep_input_value (fst p) \<le> mm" using small sh(2) by auto
  then obtain txs nxt where m: "mint_pass mm layer ps [] [] = Inr (txs, nxt)"
    using mint_pass_total by (metis prod.collapse)
  have "mset cs \<subseteq># mset (sort_notes_desc tie current)" using sh(1) subset_mset.le_supE mset_subset_eq_add_right
    by (metis subset_mset.order_trans)
  then have "inputs_value cs \<le> mm" using inputs_value_subset v order_trans by blast
  moreover have "mm < 2 ^ 64" using assms(3) by simp
  ultimately obtain left txs' nxt' where "consolidate mm tie cs layer fee txs nxt = Inr (left, txs', nxt')"
    using consolidate_total by (metis prod.collapse)
  then show ?thesis by (simp add: greedy_layer_def a m)
qed

lemma greedy_layer_sound:
  assumes ok: "plan_ok wallet fee layers" and cur: "spendable wallet mm layers current"
    and eq: "greedy_layer mm tie fee (length layers) remaining current = Inr (remaining', txs, nxt)"
  shows "plan_ok wallet fee (layers @ [txs])" and "spendable wallet mm (layers @ [txs]) nxt"
    and "mset remaining' + minted (layers @ [txs]) = mset remaining + minted layers"
    and "set remaining' \<subseteq> set remaining"
proof -
  obtain ps cs left new where
    sh: "txs = map mint_transaction ps @ new" "nxt = layer_feeders (length layers) ps new"
      "mset remaining' + mset (partial_values ps) = mset remaining"
      "mset (map fst ps) + mset cs \<subseteq># mset current"
      "mset left + mset (concat (map prep_inputs new)) = mset cs"
      "\<forall>p \<in> set ps. partial_ok fee p" "\<forall>tx \<in> set new. is_consolidation fee {2..15} tx"
    using greedy_layer_shape [OF eq] unfolding layer_feeders_def by blast
  have inputs: "concat (map prep_inputs txs) = map fst ps @ concat (map prep_inputs new)"
    by (simp only: sh(1) map_append concat_append mint_inputs concat_singletons)
  have "mset (map fst ps) + mset (concat (map prep_inputs new)) \<subseteq># mset (map fst ps) + mset cs"
    using sh(5) by (metis mset_subset_eq_add_right subset_mset.add_left_mono)
  then have "mset (concat (map prep_inputs txs)) \<subseteq># mset current"
    using sh(4) subset_mset.order_trans unfolding inputs mset_append by blast
  then have spent: "spendable wallet mm layers (concat (map prep_inputs txs))"
    by (rule spendable_submset [OF cur])
  show ok': "plan_ok wallet fee (layers @ [txs])"
    by (rule spend_layer [OF ok _ spent])
      (use sh(6,7) mint_transaction_ok is_consolidation_ok in \<open>auto simp: sh(1)\<close>)
  show "spendable wallet mm (layers @ [txs]) nxt"
    unfolding sh(1,2)
    by (rule layer_feeders_spendable [OF sh(7,6) ok' [unfolded sh(1)]])
      (use spent in \<open>simp add: spendable_def inputs\<close>)
  have "List.map_filter funding_value (concat (map prep_outputs txs)) = partial_values ps"
    unfolding sh(1) map_append concat_append map_filter_append mint_minted
    using consolidation_minted [OF sh(7)] by simp
  then show "mset remaining' + minted (layers @ [txs]) = mset remaining + minted layers"
    using sh(3) by (simp add: ac_simps)
  show "set remaining' \<subseteq> set remaining"
    using sh(3) by (metis mset_subset_eq_add_left set_mset_mono set_mset_mset)
qed

definition sound_layers :: "(nat \<rightharpoonup> nat) \<Rightarrow> nat \<Rightarrow> nat multiset \<Rightarrow> prep_layers \<Rightarrow> bool" where
  "sound_layers wallet fee F layers \<longleftrightarrow> plan_ok wallet fee layers \<and> minted layers = F"

lemma greedy_layers_sound:
  assumes "plan_ok wallet fee layers" and "remaining \<noteq> [] \<Longrightarrow> spendable wallet mm layers current"
    and "mset remaining + minted layers = F" and "\<forall>v \<in> set remaining. v \<le> mm" and "mm + mm < 2 ^ 64"
  shows "no_panic (sound_layers wallet fee F) (greedy_layers mm tie fee remaining current layers)"
  using assms
proof (induction mm tie fee remaining current layers rule: greedy_layers.induct)
  case (1 mm tie fee remaining current layers)
  show ?case
  proof (cases "remaining = [] \<or> current = []")
    case True
    then show ?thesis
      using 1(2,4) by (subst greedy_layers.simps) (auto simp: sound_layers_def)
  next
    case False
    then have ne: "remaining \<noteq> []" "current \<noteq> []" by simp_all
    have spend: "spendable wallet mm layers current" by (rule 1(3) [OF ne(1)])
    then have "inputs_value current \<le> mm" by (simp add: spendable_def)
    then obtain r txs nxt where
      eq: "greedy_layer mm tie fee (length layers) remaining current = Inr (r, txs, nxt)"
      using greedy_layer_total [OF _ 1(5,6)] by (metis prod.collapse)
    note sound = greedy_layer_sound [OF 1(2) spend eq]
    show ?thesis
    proof (cases "txs = []")
      case True
      then show ?thesis using ne eq by (subst greedy_layers.simps) simp
    next
      case False
      have "no_panic (sound_layers wallet fee F) (greedy_layers mm tie fee r nxt (layers @ [txs]))"
        by (rule 1(1) [OF ne eq refl refl False sound(1,2)]) (use sound(3,4) 1(4-6) in auto)
      then show ?thesis using ne eq False by (subst greedy_layers.simps) simp
    qed
  qed
qed

section \<open>Residual notes\<close>

lemma feeder_at_Some:
  "feeder_at spent e = Some n \<longleftrightarrow>
     \<not> is_wallet_note n \<and> prior_entry n = e \<and> fst e \<notin> set spent"
  by (cases "(spent, e)" rule: feeder_at.cases; cases n) auto

lemma in_unconsumed_feeders:
  "n \<in> set (unconsumed_feeders layers) \<longleftrightarrow>
     \<not> is_wallet_note n \<and> prior_entry n \<in> set (located_outputs layers) \<and>
     fst (prior_entry n) \<notin> set (spent_positions layers)"
  by (auto simp: unconsumed_feeders_def in_set_map_filter feeder_at_Some)

lemma distinct_unconsumed_feeders: "distinct (map note_ref (unconsumed_feeders layers))"
proof -
  have "distinct (map note_ref (List.map_filter (feeder_at spent) es))"
    if "distinct (map fst es)" for spent es
    using that
  proof (induction es)
    case (Cons e es)
    have rest: "distinct (map note_ref (List.map_filter (feeder_at spent) es))" using Cons by simp
    show ?case
    proof (cases "feeder_at spent e")
      case None
      then show ?thesis using rest by (simp add: map_filter_simps)
    next
      case (Some n)
      have "note_ref n \<notin> note_ref ` set (List.map_filter (feeder_at spent) es)"
      proof
        assume "note_ref n \<in> note_ref ` set (List.map_filter (feeder_at spent) es)"
        then obtain m e' where m: "note_ref n = note_ref m" "e' \<in> set es" "feeder_at spent e' = Some m"
          by (auto simp: in_set_map_filter)
        then have "fst e = fst e'" using Some by (cases n; cases m) (auto simp: feeder_at_Some)
        then show False using Cons.prems m(2) by auto
      qed
      then show ?thesis using rest Some by (simp add: map_filter_simps)
    qed
  qed (simp add: map_filter_simps)
  then show ?thesis unfolding unconsumed_feeders_def using distinct_located_outputs by blast
qed

lemma unconsumed_feeders_value:
  "inputs_value (unconsumed_feeders layers) \<le> outputs_value (map snd (unspent_outputs layers))"
proof -
  have "inputs_value (List.map_filter (feeder_at spent) es) \<le>
      outputs_value (map snd (filter (\<lambda>e. fst e \<notin> set spent) es))" for spent es
  proof (induction es)
    case (Cons e es)
    then show ?case
      by (cases "(spent, e)" rule: feeder_at.cases) (auto simp: map_filter_simps intro: trans_le_add2)
  qed (simp add: map_filter_simps)
  then show ?thesis by (simp add: unconsumed_feeders_def unspent_outputs_def)
qed

text \<open>The wallet notes a plan spends are distinct, so they are worth no more than the wallet.\<close>

definition wallet_total :: "(nat \<rightharpoonup> nat) \<Rightarrow> nat" where
  "wallet_total wallet = (\<Sum>i \<in> dom wallet. the (wallet i))"

lemma wallet_spent_le:
  assumes ok: "plan_ok wallet fee layers" and fin: "finite (dom wallet)"
  shows "wallet_spent layers \<le> wallet_total wallet"
proof -
  let ?ns = "filter is_wallet_note (plan_inputs layers)"
  have d: "distinct (map note_index ?ns)"
  proof -
    have "is_wallet_note m \<Longrightarrow> is_wallet_note n \<Longrightarrow> note_index m = note_index n \<Longrightarrow> note_ref m = note_ref n"
      for m n by (cases m; cases n) auto
    moreover have "inj_on note_ref (set (plan_inputs layers))" "distinct (plan_inputs layers)"
      using ok by (auto simp: plan_ok_def distinct_map)
    ultimately show ?thesis
      by (auto simp: distinct_map inj_on_def)
  qed
  have each: "wallet (note_index n) = Some (prep_input_value n)" if "n \<in> set ?ns" for n
    using that plan_input_ok [OF ok, of n]
    by (cases n rule: prep_input.exhaust) (auto simp: input_ok_def)
  have "inputs_value ?ns = sum_list (map (\<lambda>n. the (wallet (note_index n))) ?ns)"
    unfolding inputs_value_def using each by (intro arg_cong [where f = sum_list] map_cong) auto
  also have "\<dots> = sum_list (map (\<lambda>i. the (wallet i)) (map note_index ?ns))" by (simp add: comp_def)
  also have "\<dots> = (\<Sum>i \<in> set (map note_index ?ns). the (wallet i))"
    by (rule sum_list_distinct_conv_sum_set [OF d])
  also have "\<dots> \<le> wallet_total wallet"
    unfolding wallet_total_def using each by (intro sum_mono2 fin) auto
  finally show ?thesis by (simp add: wallet_spent_def)
qed

lemma unconsumed_feeders_spendable:
  assumes ok: "plan_ok wallet fee layers" and "finite (dom wallet)" and "wallet_total wallet \<le> mm"
  shows "spendable wallet mm layers (unconsumed_feeders layers)"
proof -
  have "inputs_value (unconsumed_feeders layers) \<le> mm"
    using unconsumed_feeders_value [of layers] plan_conservation [OF ok] wallet_spent_le [OF ok assms(2)]
      assms(3) by linarith
  moreover have "input_ok wallet layers (length layers) n \<and> note_ref n \<notin> used_refs layers"
    if n: "n \<in> set (unconsumed_feeders layers)" for n
  proof (cases n)
    case (PriorNote l t p v)
    have "((l, t, p), Intermediate v) \<in> set (located_outputs layers)"
      using n PriorNote by (simp add: in_unconsumed_feeders)
    moreover then have "l < length layers" by (simp add: in_located_outputs)
    moreover have "Inr (l, t, p) \<notin> used_refs layers"
    proof
      assume "Inr (l, t, p) \<in> used_refs layers"
      then obtain m where "m \<in> set (plan_inputs layers)" "note_ref m = Inr (l, t, p)"
        by (auto simp: used_refs_def)
      then have "(l, t, p) \<in> set (spent_positions layers)"
        unfolding spent_positions_eq by (cases m rule: prep_input.exhaust) force+
      then show False using n PriorNote by (simp add: in_unconsumed_feeders)
    qed
    ultimately show ?thesis using PriorNote by (simp add: input_ok_def)
  qed (use n in \<open>simp add: in_unconsumed_feeders\<close>)
  ultimately show ?thesis
    using distinct_unconsumed_feeders by (auto simp: spendable_def)
qed

lemma consolidation_layer_sound:
  assumes ok: "plan_ok wallet fee layers" and pool: "spendable wallet mm layers pool"
    and eq: "consolidate mm tie pool (length layers) fee [] [] = Inr (left, txs, nxt)"
  shows "plan_ok wallet fee (layers @ [txs])" and "minted (layers @ [txs]) = minted layers"
    and "spendable wallet mm (layers @ [txs]) (nxt @ left)"
proof -
  have txs: "\<forall>tx \<in> set txs. is_consolidation fee {2..15} tx"
    and inputs: "mset left + mset (concat (map prep_inputs txs)) = mset pool"
    and nxt: "nxt = layer_feeders (length layers) [] txs"
    using consolidate_shape [OF eq] by (auto simp: layer_feeders_def)
  have sub: "mset (concat (map prep_inputs txs)) \<subseteq># mset pool" "mset left \<subseteq># mset pool"
    using inputs by (metis mset_subset_eq_add_right) (metis inputs mset_subset_eq_add_left)
  have spent: "spendable wallet mm layers (concat (map prep_inputs txs))"
    by (rule spendable_submset [OF pool sub(1)])
  show ok': "plan_ok wallet fee (layers @ [txs])"
    using txs is_consolidation_ok by (intro spend_layer [OF ok _ spent]) auto
  show "minted (layers @ [txs]) = minted layers"
    using consolidation_minted [OF txs] by simp
  have val: "inputs_value left + inputs_value (concat (map prep_inputs txs)) \<le> mm"
    using inputs_value_mset [of pool "left @ concat (map prep_inputs txs)"] inputs pool
    by (simp add: spendable_def)
  have next_ok: "spendable wallet mm (layers @ [txs]) nxt"
    using layer_feeders_spendable [OF txs, of "[]" wallet layers mm] ok' val by (simp add: nxt)
  have left_ok: "spendable wallet mm layers left" by (rule spendable_submset [OF pool sub(2)])
  have "distinct (map note_ref (left @ concat (map prep_inputs txs)))"
    using pool inputs mset_eq_imp_distinct_iff unfolding spendable_def
    by (metis mset_append mset_map)
  then have left_unused: "note_ref ` set left \<inter> used_refs (layers @ [txs]) = {}"
    using left_ok by (auto simp: spendable_def image_Un)
  have old_new: "note_ref n \<noteq> note_ref m" if mem: "n \<in> set nxt" "m \<in> set left" for n m
  proof -
    obtain t p v where "n = PriorNote (length layers) t p v"
      using in_layer_feeders [OF _ txs, of n "length layers" "[]"] mem(1) unfolding nxt by blast
    moreover have "input_ok wallet layers (length layers) m" using left_ok mem(2) by (simp add: spendable_def)
    ultimately show ?thesis by (cases m) (auto simp: input_ok_def)
  qed
  have "inputs_value nxt \<le> inputs_value (concat (map prep_inputs txs))"
    using layer_feeders_value [of "[]" fee txs, OF _ txs] by (simp add: nxt)
  then have "inputs_value (nxt @ left) \<le> mm" using val by simp
  then show "spendable wallet mm (layers @ [txs]) (nxt @ left)"
    using next_ok left_ok left_unused old_new
    by (auto simp: spendable_def Int_Un_distrib2 image_Un intro: input_ok_mono)
qed

lemma consolidate_residuals_sound:
  assumes "sound_layers wallet fee F layers" and "finite (dom wallet)" and "wallet_total wallet \<le> mm"
    and "mm < 2 ^ 64"
  shows "\<exists>layers'. consolidate_residuals mm tie fee layers = Inr layers' \<and> sound_layers wallet fee F layers'"
  using assms
proof (induction mm tie fee layers rule: consolidate_residuals.induct)
  case (1 mm tie fee layers)
  let ?pool = "unconsumed_feeders layers"
  have ok: "plan_ok wallet fee layers" using 1(2) by (simp add: sound_layers_def)
  show ?case
  proof (cases "length ?pool \<le> 1")
    case True
    then show ?thesis using 1(2) by (subst consolidate_residuals.simps) simp
  next
    case False
    have pool: "spendable wallet mm layers ?pool"
      by (rule unconsumed_feeders_spendable [OF ok 1(3,4)])
    then have "inputs_value ?pool \<le> mm" by (simp add: spendable_def)
    then obtain left txs nxt where
      eq: "consolidate mm tie ?pool (length layers) fee [] [] = Inr (left, txs, nxt)"
      using consolidate_total [OF _ 1(5)] by (metis prod.collapse)
    note sound = consolidation_layer_sound [OF ok pool eq]
    show ?thesis
    proof (cases "txs = []")
      case True
      then show ?thesis using False eq 1(2) by (subst consolidate_residuals.simps) (simp add: Let_def)
    next
      case new: False
      have "sound_layers wallet fee F (layers @ [txs])"
        using sound(1,2) 1(2) by (simp add: sound_layers_def del: layer_facts)
      from 1(1) [OF refl False eq refl refl new this 1(3-5)]
      show ?thesis using False eq new by (subst consolidate_residuals.simps) (simp add: Let_def)
    qed
  qed
qed

end
