(* ===== verification/PrepPlanMain.thy ===== *)
theory PrepPlanMain
  imports PrepPlanCorrect
begin

text \<open>
  The note-preparation planner as a whole: its final relabelling, its exact-match and fan-out
  passes, its fallback, and what a finished plan guarantees.
\<close>

section \<open>Relabelling\<close>

definition relabel_layer ::
  "(nat \<times> nat \<times> nat) list \<Rightarrow> nat \<Rightarrow> prep_transaction list \<Rightarrow> prep_transaction list" where
  "relabel_layer spent li layer =
     map (\<lambda>(ti, tx).
       tx\<lparr>prep_outputs := map (\<lambda>(oi, out). relabel_output spent (li, ti, oi) out)
                             (enumerate 0 (prep_outputs tx))\<rparr>)
     (enumerate 0 layer)"

definition relabel_with :: "(nat \<times> nat \<times> nat) list \<Rightarrow> prep_layers \<Rightarrow> prep_layers" where
  "relabel_with spent layers = map (\<lambda>(li, layer). relabel_layer spent li layer) (enumerate 0 layers)"

lemma relabel_unspent_eq: "relabel_unspent layers = relabel_with (spent_positions layers) layers"
  by (simp add: relabel_unspent_def relabel_with_def relabel_layer_def Let_def)

lemma relabel_with_simps [simp]:
  "relabel_with spent [] = []"
  "relabel_with spent (layers @ [txs]) = relabel_with spent layers @ [relabel_layer spent (length layers) txs]"
  "length (relabel_with spent layers) = length layers"
  by (simp_all add: relabel_with_def enumerate_append_eq)

lemma relabel_output_value [simp]: "prep_output_value (relabel_output spent p x) = prep_output_value x"
  by (cases "(spent, p, x)" rule: relabel_output.cases) auto

lemma relabel_output_funding [simp]: "funding_value (relabel_output spent p x) = funding_value x"
  by (cases "(spent, p, x)" rule: relabel_output.cases) auto

lemma relabel_layer_nth:
  "t < length layer \<Longrightarrow> relabel_layer spent li layer ! t =
     (layer ! t)\<lparr>prep_outputs := map (\<lambda>(oi, out). relabel_output spent (li, t, oi) out)
                             (enumerate 0 (prep_outputs (layer ! t)))\<rparr>"
  by (simp add: relabel_layer_def nth_enumerate_eq)

lemma length_relabel_layer [simp]: "length (relabel_layer spent li layer) = length layer"
  by (simp add: relabel_layer_def)

lemma layer_inputs_relabel: "map prep_inputs (relabel_layer spent li layer) = map prep_inputs layer"
  by (rule nth_equalityI) (simp_all add: relabel_layer_nth)

lemma plan_inputs_relabel [simp]: "plan_inputs (relabel_with spent layers) = plan_inputs layers"
  by (induction layers rule: rev_induct) (simp_all add: layer_inputs_relabel)

lemma spent_positions_relabel [simp]:
  "spent_positions (relabel_with spent layers) = spent_positions layers"
  using plan_inputs_relabel [of spent layers] by (simp add: spent_positions_def plan_inputs_def)

lemma layer_outputs_relabel:
  "layer_outputs li (relabel_layer spent li layer) =
     map (\<lambda>(p, x). (p, relabel_output spent p x)) (layer_outputs li layer)"
proof (induction layer rule: rev_induct)
  case Nil
  show ?case by (simp add: relabel_layer_def layer_outputs_def)
next
  case (snoc tx layer)
  have "relabel_layer spent li (layer @ [tx]) = relabel_layer spent li layer @
      [tx\<lparr>prep_outputs := map (\<lambda>(oi, out). relabel_output spent (li, length layer, oi) out)
            (enumerate 0 (prep_outputs tx))\<rparr>]"
    by (simp add: relabel_layer_def enumerate_append_eq)
  moreover have "map (\<lambda>(oi, out). ((li, length layer, oi), out))
      (enumerate 0 (map (\<lambda>(oi, out). relabel_output spent (li, length layer, oi) out) (enumerate 0 xs))) =
      map (\<lambda>(p, x). (p, relabel_output spent p x))
        (map (\<lambda>(oi, out). ((li, length layer, oi), out)) (enumerate 0 xs))" for xs
    by (rule nth_equalityI) (simp_all add: nth_enumerate_eq)
  ultimately show ?case using snoc by (simp add: layer_outputs_snoc)
qed

lemma located_outputs_relabel:
  "located_outputs (relabel_with spent layers) =
     map (\<lambda>(p, x). (p, relabel_output spent p x)) (located_outputs layers)"
  by (induction layers rule: rev_induct)
    (simp_all add: layer_outputs_relabel, simp add: located_outputs_def)

lemma all_outputs_relabel:
  "all_outputs (relabel_with spent layers) =
     map (\<lambda>(p, x). relabel_output spent p x) (located_outputs layers)"
  unfolding map_snd_located_outputs [symmetric] located_outputs_relabel by (simp add: case_prod_unfold)

lemma map_filter_map: "List.map_filter f (map g xs) = List.map_filter (\<lambda>x. f (g x)) xs"
  by (induction xs) (simp_all add: map_filter_simps split: option.splits)

lemma minted_relabel [simp]: "minted (relabel_with spent layers) = minted layers"
proof -
  have "List.map_filter funding_value (all_outputs (relabel_with spent layers)) =
      List.map_filter funding_value (all_outputs layers)"
    unfolding all_outputs_relabel map_snd_located_outputs [of layers, symmetric] map_filter_map
    by (simp add: case_prod_unfold)
  then show ?thesis by (simp add: minted_def)
qed

lemma tx_ok_relabel:
  assumes "tx_ok fee tx"
  shows "tx_ok fee (tx\<lparr>prep_outputs := map (\<lambda>(oi, out). relabel_output spent (li, ti, oi) out)
    (enumerate 0 (prep_outputs tx))\<rparr>)"
proof -
  have "map prep_output_value (map (\<lambda>(oi, out). relabel_output spent (li, ti, oi) out) (enumerate 0 xs)) =
      map prep_output_value xs" for xs
    by (rule nth_equalityI) (simp_all add: nth_enumerate_eq)
  then show ?thesis using assms by (simp add: tx_ok_def outputs_value_def action_count_def)
qed

lemma plan_ok_relabel:
  assumes ok: "plan_ok wallet fee layers"
  shows "plan_ok wallet fee (relabel_unspent layers)"
  unfolding plan_ok_def relabel_unspent_eq
proof (intro conjI allI impI ballI)
  let ?s = "spent_positions layers"
  let ?L = "relabel_with ?s layers"
  fix l tx' assume l: "l < length ?L" and tx': "tx' \<in> set (?L ! l)"
  have Ll: "?L ! l = relabel_layer ?s l (layers ! l)"
    using l by (simp add: relabel_with_def nth_enumerate_eq)
  then obtain t where t: "t < length (layers ! l)" and eq: "tx' = relabel_layer ?s l (layers ! l) ! t"
    using tx' by (auto simp: in_set_conv_nth)
  let ?tx = "layers ! l ! t"
  have old: "tx_ok fee ?tx" "\<And>n. n \<in> set (prep_inputs ?tx) \<Longrightarrow> input_ok wallet layers l n"
    using ok l nth_mem [OF t] by (simp_all add: plan_ok_def)
  show "tx_ok fee tx'" unfolding eq relabel_layer_nth [OF t] by (rule tx_ok_relabel [OF old(1)])
  fix n assume n: "n \<in> set (prep_inputs tx')"
  then have "n \<in> set (prep_inputs ?tx)" by (simp add: eq relabel_layer_nth [OF t])
  then have in_ok: "input_ok wallet layers l n" using old(2) by simp
  have "?tx \<in> set (concat layers)" using l nth_mem [OF t] nth_mem [of l layers] by auto
  then have used: "n \<in> set (plan_inputs layers)"
    using \<open>n \<in> set (prep_inputs ?tx)\<close> unfolding plan_inputs_def by auto
  show "input_ok wallet ?L l n"
  proof (cases n)
    case (PriorNote l' t' p v)
    have "(l', t', p) \<in> set ?s" using used PriorNote unfolding spent_positions_eq by force
    moreover have "((l', t', p), Intermediate v) \<in> set (located_outputs layers)"
      using in_ok PriorNote by (simp add: input_ok_def)
    ultimately have "((l', t', p), Intermediate v) \<in> set (located_outputs ?L)"
      by (force simp: located_outputs_relabel)
    then show ?thesis using in_ok PriorNote by (simp add: input_ok_def)
  qed (use in_ok in \<open>simp add: input_ok_def\<close>)
next
  show "distinct (map note_ref (plan_inputs (relabel_with (spent_positions layers) layers)))"
    using ok by (simp add: plan_ok_def)
qed

definition no_dangling :: "prep_layers \<Rightarrow> bool" where
  "no_dangling layers \<longleftrightarrow>
     (\<forall>(position, out) \<in> set (located_outputs layers).
        case out of Intermediate _ \<Rightarrow> position \<in> set (spent_positions layers) | _ \<Rightarrow> True)"

lemma no_dangling_relabel: "no_dangling (relabel_unspent layers)"
proof -
  have "case relabel_output spent p x of Intermediate _ \<Rightarrow> p \<in> set spent | _ \<Rightarrow> True" for spent p x
    by (cases "(spent, p, x)" rule: relabel_output.cases) auto
  then show ?thesis
    unfolding no_dangling_def relabel_unspent_eq located_outputs_relabel spent_positions_relabel
    by (auto split: prod.splits)
qed

section \<open>Exact matches\<close>

definition direct_ok :: "nat list \<Rightarrow> bool list \<Rightarrow> (nat \<times> nat) list \<Rightarrow> bool" where
  "direct_ok available used direct \<longleftrightarrow>
     length used = length available \<and> distinct (map fst direct) \<and>
     (\<forall>(i, v) \<in> set direct. i < length available \<and> available ! i = v) \<and>
     (\<forall>i < length available. used ! i \<longleftrightarrow> i \<in> fst ` set direct)"

lemma extract_direct_funding_loop_spec:
  "direct_ok available used direct \<Longrightarrow> \<forall>v \<in> set funding. v \<le> mm \<Longrightarrow>
   \<exists>used' direct' kept'.
     extract_direct_funding_loop mm available funding used direct kept = Inr (used', direct', kept') \<and>
     direct_ok available used' direct' \<and>
     mset kept' + mset (map snd direct') = mset kept + mset (map snd direct) + mset funding"
proof (induction funding arbitrary: used direct kept)
  case (Cons f rest)
  let ?find = "find (\<lambda>index. \<not> used ! index \<and> available ! index = f) [0..<length available]"
  show ?case
  proof (cases ?find)
    case None
    then show ?thesis using Cons.IH [OF Cons.prems(1), of "kept @ [f]"] Cons.prems(2) by (auto simp: ac_simps)
  next
    case (Some i)
    then have i: "i < length available" "\<not> used ! i" "available ! i = f"
      by (auto simp: find_Some_iff)
    have "direct_ok available (used[i := True]) (direct @ [(i, f)])"
      using Cons.prems(1) i by (auto simp: direct_ok_def nth_list_update)
    then show ?thesis
      using Cons.IH [of "used[i := True]" "direct @ [(i, f)]" kept] Cons.prems(2) Some
      by (auto simp: ac_simps)
  qed
qed auto

lemma extract_direct_funding_spec:
  assumes "\<forall>v \<in> set funding. v \<le> mm"
  shows "\<exists>used direct kept. extract_direct_funding mm available funding = Inr (used, direct, kept) \<and>
    direct_ok available used direct \<and> mset kept + mset (map snd direct) = mset funding"
  using extract_direct_funding_loop_spec [OF _ assms, of available "replicate (length available) False" "[]" "[]"]
  by (auto simp: extract_direct_funding_def direct_ok_def)

text \<open>The wallet left to the layers: every note that is not used directly.\<close>

definition layer_wallet :: "nat list \<Rightarrow> (nat \<times> nat) list \<Rightarrow> nat \<rightharpoonup> nat" where
  "layer_wallet available direct i =
     (if i < length available \<and> i \<notin> fst ` set direct then Some (available ! i) else None)"

lemma finite_layer_wallet: "finite (dom (layer_wallet available direct))"
  by (rule finite_subset [of _ "{..<length available}"]) (auto simp: layer_wallet_def split: if_splits)

lemma layer_wallet_total: "wallet_total (layer_wallet available direct) \<le> sum_list available"
proof -
  have "wallet_total (layer_wallet available direct) =
      (\<Sum>i \<in> dom (layer_wallet available direct). available ! i)"
    unfolding wallet_total_def
  proof (rule sum.cong [OF refl])
    fix i assume "i \<in> dom (layer_wallet available direct)"
    then show "the (layer_wallet available direct i) = available ! i"
      by (cases "i < length available \<and> i \<notin> fst ` set direct") (simp_all only: layer_wallet_def dom_def, auto)
  qed
  also have "\<dots> \<le> (\<Sum>i < length available. available ! i)"
    by (rule sum_mono2) (auto simp: layer_wallet_def split: if_splits)
  also have "\<dots> = sum_list available" by (simp add: sum_list_sum_nth atLeast0LessThan)
  finally show ?thesis .
qed

lemma unused_notes_wallet:
  assumes "direct_ok available used direct" and "(i, v) \<in> set (unused_notes used available)"
  shows "layer_wallet available direct i = Some v"
  using assms by (auto simp: unused_notes_def in_set_enumerate_eq direct_ok_def layer_wallet_def)

lemma wallet_notes_eq:
  "\<forall>(i, v) \<in> set ns. v \<le> mm \<Longrightarrow> wallet_notes mm ns = Inr (map (\<lambda>(i, v). WalletNote i v) ns)"
  unfolding wallet_notes_def by (induction ns) auto

lemma wallet_notes_spendable:
  fixes P :: "nat \<times> nat \<Rightarrow> bool" and used :: "bool list"
  assumes direct: "direct_ok available used direct" and "sum_list available \<le> mm"
  defines "pool \<equiv> map (\<lambda>(i, v). WalletNote i v) (filter P (unused_notes used available))"
  shows "spendable (layer_wallet available direct) mm [] pool"
    and "wallet_notes mm (filter P (unused_notes used available)) = Inr pool"
proof -
  let ?ns = "filter P (unused_notes used available)"
  have sub: "sum_list (map snd (filter Q (enumerate k xs))) \<le> sum_list xs" for Q k and xs :: "nat list"
    by (induction xs arbitrary: k) (auto intro: trans_le_add2)
  have "inputs_value pool = sum_list (map snd ?ns)"
    by (simp add: pool_def inputs_value_def case_prod_unfold comp_def)
  also have "\<dots> \<le> sum_list available" unfolding unused_notes_def filter_filter by (rule sub)
  finally have val: "sum_list (map snd ?ns) \<le> mm" "inputs_value pool \<le> mm"
    using assms(2) \<open>inputs_value pool = sum_list (map snd ?ns)\<close> by simp_all
  have "v \<le> mm" if "(i, v) \<in> set ?ns" for i v
    using val(1) member_le_sum_list_nat [of v "map snd ?ns"] that by force
  then show "wallet_notes mm ?ns = Inr pool"
    unfolding pool_def by (intro wallet_notes_eq) auto
  have "map note_ref pool = map (\<lambda>e. Inl (fst e)) ?ns"
    by (simp add: pool_def case_prod_unfold comp_def)
  moreover have "distinct (map fst ?ns)"
    unfolding unused_notes_def filter_filter
    by (rule distinct_map_filter) simp
  then have "distinct (map (\<lambda>e. Inl (fst e) :: nat + nat \<times> nat \<times> nat) ?ns)"
    by (simp add: distinct_map inj_on_def)
  ultimately have "distinct (map note_ref pool)" by simp
  then show "spendable (layer_wallet available direct) mm [] pool"
    using val(2) unused_notes_wallet [OF direct]
    by (auto simp: spendable_def pool_def input_ok_def)
qed

section \<open>The fan-out fast path and the fallback\<close>

text \<open>
  The amounts fit: twice the maximum money supply, and the maximum with two fees per funding note,
  are \<open>u64\<close>s. The maximum is \<open>21 * 10 ^ 14\<close>, so a fee of \<open>10 ^ 5\<close> leaves room for more than
  \<open>9 * 10 ^ 13\<close> notes.
\<close>

definition planner_bounds :: "nat \<Rightarrow> nat \<Rightarrow> nat \<Rightarrow> bool" where
  "planner_bounds mm fee n \<longleftrightarrow>
     mm + mm < 2 ^ 64 \<and> mm + fee * (2 * n) < 2 ^ 64 \<and> 2 * n < 2 ^ 64"

lemma planner_bounds_mono: "planner_bounds mm fee n \<Longrightarrow> m \<le> n \<Longrightarrow> planner_bounds mm fee m"
  unfolding planner_bounds_def by (auto intro: le_less_trans mult_le_mono2 add_le_mono)

lemma tree_bounds_planner:
  assumes "planner_bounds mm fee n" and "length targets \<le> n" and "sum_list targets \<le> mm" and "targets \<noteq> []"
  shows "tree_bounds targets fee"
proof -
  have "fee * (2 * length targets) \<le> fee * (2 * n)" using assms(2) by (intro mult_le_mono2) simp
  then show ?thesis using assms unfolding tree_bounds_def planner_bounds_def by linarith
qed

lemma max_by_value_member: "max_by_value ps = Some p \<Longrightarrow> p \<in> set ps"
proof (cases ps)
  case (Cons q qs)
  have "foldl (\<lambda>x y. if snd y < snd x then x else y) q qs \<in> set (q # qs)" for q and qs :: "(nat \<times> nat) list"
  proof (induction qs arbitrary: q)
    case (Cons a qs)
    show ?case using Cons.IH [of "if snd a < snd q then q else a"] by (auto split: if_splits)
  qed simp
  from this [of q qs] show "max_by_value ps = Some p \<Longrightarrow> ?thesis"
    unfolding Cons max_by_value.simps by blast
qed simp

lemma fan_out_fast_path_sound:
  assumes a: "tree_bounds remaining fee" and pool: "spendable wallet mm [] (map (\<lambda>(i, v). WalletNote i v) ns)"
    and mm: "mm < 2 ^ 64"
  shows "\<exists>r layers. fan_out_fast_path mm ns remaining fee = Inr (r, layers) \<and>
    (r = remaining \<and> layers = [] \<or>
     r = [] \<and> sound_layers wallet fee (mset remaining) layers \<and>
     length layers \<le> split_depth (length remaining) \<and> count_txs layers = tree_txs remaining fee)"
proof (cases "max_by_value ns")
  case None
  then show ?thesis by (simp add: fan_out_fast_path_def)
next
  case (Some p)
  obtain idx big where p: "p = (idx, big)" by (cases p)
  have note_in: "WalletNote idx big \<in> set (map (\<lambda>(i, v). WalletNote i v) ns)"
    using max_by_value_member [OF Some] p by force
  then have src: "input_ok wallet [] 0 (WalletNote idx big)" "big \<le> mm"
    using pool inputs_value_member [OF note_in] by (auto simp: spendable_def)
  have cost: "subtree_cost remaining fee = Inr (tree_txs remaining fee, tree_cost remaining fee)"
    using subtree_cost_priced [OF a] by (simp add: priced_def)
  show ?thesis
  proof (cases "tree_cost remaining fee \<le> big")
    case True
    obtain layers where
      "build_split mm (WalletNote idx big) big remaining fee 0 [] = Inr layers"
      "split_post wallet fee 0 (WalletNote idx big) remaining [] layers"
      using build_split_sound [OF a, of wallet "[]" 0 "WalletNote idx big" mm] src True mm by auto
    then show ?thesis
      using Some p cost True src(2)
      by (simp add: fan_out_fast_path_def split_post_def sound_layers_def)
  next
    case False
    then show ?thesis using Some p cost by (simp add: fan_out_fast_path_def)
  qed
qed

lemma consolidate_all_sound:
  assumes "plan_ok wallet fee layers" and "minted layers = {#}" and "spendable wallet mm layers current"
    and "current \<noteq> []" and "mm < 2 ^ 64"
  shows "no_panic (\<lambda>(merged, layers'). length merged = 1 \<and> plan_ok wallet fee layers' \<and>
      minted layers' = {#} \<and> spendable wallet mm layers' merged)
    (consolidate_all mm tie fee current layers)"
  using assms
proof (induction mm tie fee current layers rule: consolidate_all.induct)
  case (1 mm tie fee current layers)
  show ?case
  proof (cases "1 < length current")
    case False
    then have "length current = 1" using 1(5) by (cases current) auto
    then show ?thesis using False 1(2-4) by (subst consolidate_all.simps) simp
  next
    case True
    have "inputs_value current \<le> mm" using 1(4) by (simp add: spendable_def)
    then obtain left txs nxt where
      eq: "consolidate mm tie current (length layers) fee [] [] = Inr (left, txs, nxt)"
      using consolidate_total [OF _ 1(6)] by (metis prod.collapse)
    note sound = consolidation_layer_sound [OF 1(2,4) eq]
    show ?thesis
    proof (cases "txs = []")
      case True
      then show ?thesis using \<open>1 < length current\<close> eq by (subst consolidate_all.simps) simp
    next
      case False
      have "length nxt = length txs" using consolidate_shape [OF eq] by auto
      then have "nxt @ left \<noteq> []" using False by auto
      from 1(1) [OF True eq refl refl False sound(1) _ sound(3) this 1(6)]
      show ?thesis using True eq False sound(2) 1(3) by (subst consolidate_all.simps) simp
    qed
  qed
qed

section \<open>What a finished plan guarantees\<close>

definition plan_sound :: "nat list \<Rightarrow> nat \<Rightarrow> nat list \<Rightarrow> preparation_plan \<Rightarrow> bool" where
  "plan_sound available fee funding plan \<longleftrightarrow>
     plan_ok (layer_wallet available (direct_funding plan)) fee (plan_layers plan) \<and>
     no_dangling (plan_layers plan) \<and>
     distinct (map fst (direct_funding plan)) \<and>
     (\<forall>(i, v) \<in> set (direct_funding plan). i < length available \<and> available ! i = v) \<and>
     mset (funding_notes plan) = mset (filter (\<lambda>v. 0 < v) funding)"

lemma plan_sound_finish:
  assumes "direct_ok available used direct" and "sound_layers (layer_wallet available direct) fee (mset kept) layers"
    and "mset kept + mset (map snd direct) = mset (filter (\<lambda>v. 0 < v) funding)"
  shows "plan_sound available fee funding \<lparr> plan_layers = relabel_unspent layers, direct_funding = direct \<rparr>"
proof -
  have "mset (List.map_filter funding_value (all_outputs (relabel_unspent layers))) = mset kept"
    using assms(2) minted_relabel [of _ layers]
    by (simp add: sound_layers_def relabel_unspent_eq flip: minted_def)
  then show ?thesis
    using assms plan_ok_relabel no_dangling_relabel
    by (auto simp: plan_sound_def direct_ok_def sound_layers_def funding_notes_def)
qed

lemma relabel_empty [simp]: "relabel_unspent [] = []"
  by (simp add: relabel_unspent_def Let_def)

lemma zatoshi_sum_Some: "zatoshi_sum mm xs = Some s \<longleftrightarrow> s = sum_list xs \<and> sum_list xs \<le> mm"
  by (auto simp: zatoshi_sum_def)

lemma sum_list_filter_le: "sum_list (filter P xs) \<le> (sum_list xs :: nat)"
  by (induction xs) (auto intro: trans_le_add2)

lemma positive_targets:
  fixes funding :: "nat list"
  assumes "sum_list funding \<le> mm"
  defines "targets \<equiv> sort_desc (filter (\<lambda>v. 0 < v) funding)"
  shows "\<forall>v \<in> set targets. v \<le> mm" and "mset targets = mset (filter (\<lambda>v. 0 < v) funding)"
proof -
  show "\<forall>v \<in> set targets. v \<le> mm"
    using assms(1) member_le_sum_list_nat order_trans by (fastforce simp: targets_def)
qed (simp add: targets_def)

lemma kept_bounds:
  fixes funding :: "nat list"
  assumes "mset kept + mset (map snd direct) = mset (filter (\<lambda>v. 0 < v) funding)"
    and "sum_list funding \<le> mm"
  shows "sum_list kept \<le> mm" and "length kept \<le> length funding" and "\<forall>v \<in> set kept. v \<le> mm"
proof -
  have eq: "mset (kept @ map snd direct) = mset (filter (\<lambda>v. 0 < v) funding)" using assms(1) by simp
  have "sum_list (kept @ map snd direct) = sum_list (filter (\<lambda>v. 0 < v) funding)"
    by (rule sum_list_mset_eq [OF eq])
  then show s: "sum_list kept \<le> mm"
    using sum_list_filter_le [of "\<lambda>v. 0 < v" funding] assms(2) by simp
  show "length kept \<le> length funding"
    using mset_eq_length [OF eq] length_filter_le [of "\<lambda>v. 0 < v" funding]
    unfolding length_append by linarith
  show "\<forall>v \<in> set kept. v \<le> mm" using s member_le_sum_list_nat order_trans by blast
qed

theorem greedy_sound:
  assumes bounds: "planner_bounds mm fee (length funding)"
  shows "no_panic (plan_sound available fee funding) (plan_preparation_greedy mm tie available funding fee)"
proof (cases "sum_list available \<le> mm \<and> sum_list funding \<le> mm")
  case False
  then show ?thesis by (auto simp: plan_preparation_greedy_def zatoshi_sum_def)
next
  case True
  then have av: "sum_list available \<le> mm" and fu: "sum_list funding \<le> mm" by simp_all
  have mm: "mm + mm < 2 ^ 64" "mm < 2 ^ 64" using bounds by (simp_all add: planner_bounds_def)
  let ?targets = "sort_desc (filter (\<lambda>v. 0 < v) funding)"
  obtain used direct kept where
    ex: "extract_direct_funding mm available ?targets = Inr (used, direct, kept)" and
    d: "direct_ok available used direct" and m: "mset kept + mset (map snd direct) = mset ?targets"
    using extract_direct_funding_spec [OF positive_targets(1) [OF fu]] by blast
  then have m: "mset kept + mset (map snd direct) = mset (filter (\<lambda>v. 0 < v) funding)" by simp
  note kb = kept_bounds [OF m fu]
  let ?wallet = "layer_wallet available direct" and ?ns = "unused_notes used available"
  let ?pool = "map (\<lambda>(i, v). WalletNote i v) ?ns"
  have pool: "spendable ?wallet mm [] ?pool" and wn: "wallet_notes mm ?ns = Inr ?pool"
    using wallet_notes_spendable [OF d av, of "\<lambda>_. True"] by simp_all
  have wt: "finite (dom ?wallet)" "wallet_total ?wallet \<le> mm"
    using finite_layer_wallet layer_wallet_total av order_trans by blast+
  show ?thesis
  proof (cases "kept = []")
    case True
    have "plan_sound available fee funding \<lparr> plan_layers = [], direct_funding = direct \<rparr>"
      using plan_sound_finish [OF d _ m, of fee "[]"] True by (simp add: sound_layers_def)
    then show ?thesis
      using av fu ex True by (simp add: plan_preparation_greedy_def zatoshi_sum_def)
  next
    case False
    have a: "tree_bounds kept fee" by (rule tree_bounds_planner [OF bounds kb(2,1) False])
    obtain r layers where fast: "fan_out_fast_path mm ?ns kept fee = Inr (r, layers)" and
      split: "r = kept \<and> layers = [] \<or> r = [] \<and> sound_layers ?wallet fee (mset kept) layers"
      using fan_out_fast_path_sound [OF a pool mm(2)] by blast
    have "no_panic (sound_layers ?wallet fee (mset kept)) (greedy_layers mm tie fee r ?pool layers)"
      by (rule greedy_layers_sound [OF _ _ _ _ mm(1)])
        (use split pool kb(3) in \<open>auto simp: sound_layers_def\<close>)
    moreover have "no_panic (plan_sound available fee funding)
        (and_then (consolidate_residuals mm tie fee layers') (\<lambda>layers''.
          Inr \<lparr> plan_layers = relabel_unspent layers'', direct_funding = direct \<rparr>))"
      if sound: "sound_layers ?wallet fee (mset kept) layers'" for layers'
      using consolidate_residuals_sound [OF sound wt mm(2), of tie] plan_sound_finish [OF d _ m] by auto
    ultimately have "no_panic (plan_sound available fee funding)
        (and_then (greedy_layers mm tie fee r ?pool layers) (\<lambda>layers'.
         and_then (consolidate_residuals mm tie fee layers') (\<lambda>layers''.
          Inr \<lparr> plan_layers = relabel_unspent layers'', direct_funding = direct \<rparr>)))"
      by (rule outcome_and_then)
    then show ?thesis
      using av fu ex False fast wn by (simp add: plan_preparation_greedy_def zatoshi_sum_def)
  qed
qed

theorem fallback_sound:
  assumes bounds: "planner_bounds mm fee (length funding)"
  shows "no_panic (plan_sound available fee funding)
    (plan_preparation_via_consolidation mm tie available funding fee)"
proof (cases "sum_list available \<le> mm \<and> sum_list funding \<le> mm")
  case False
  then show ?thesis by (auto simp: plan_preparation_via_consolidation_def zatoshi_sum_def)
next
  case True
  then have av: "sum_list available \<le> mm" and fu: "sum_list funding \<le> mm" by simp_all
  have mm: "mm < 2 ^ 64" using bounds by (simp add: planner_bounds_def)
  let ?targets = "sort_desc (filter (\<lambda>v. 0 < v) funding)"
  obtain used direct kept where
    ex: "extract_direct_funding mm available ?targets = Inr (used, direct, kept)" and
    d: "direct_ok available used direct" and m: "mset kept + mset (map snd direct) = mset ?targets"
    using extract_direct_funding_spec [OF positive_targets(1) [OF fu]] by blast
  then have m: "mset kept + mset (map snd direct) = mset (filter (\<lambda>v. 0 < v) funding)" by simp
  note kb = kept_bounds [OF m fu]
  let ?wallet = "layer_wallet available direct"
  let ?ns = "filter (\<lambda>(i, v). 0 < v) (unused_notes used available)"
  let ?pool = "map (\<lambda>(i, v). WalletNote i v) ?ns"
  have pool: "spendable ?wallet mm [] ?pool" and wn: "wallet_notes mm ?ns = Inr ?pool"
    by (rule wallet_notes_spendable [OF d av])+
  consider "kept = []" | "kept \<noteq> []" "?ns = []" | "kept \<noteq> []" "?ns \<noteq> []" by blast
  then show ?thesis
  proof cases
    case 1
    have "plan_sound available fee funding \<lparr> plan_layers = [], direct_funding = direct \<rparr>"
      using plan_sound_finish [OF d _ m, of fee "[]"] 1 by (simp add: sound_layers_def)
    then show ?thesis
      using av fu ex 1 by (simp add: plan_preparation_via_consolidation_def zatoshi_sum_def)
  next
    case 2
    then show ?thesis
      using av fu ex wn by (simp add: plan_preparation_via_consolidation_def zatoshi_sum_def)
  next
    case 3
    have a: "tree_bounds kept fee" by (rule tree_bounds_planner [OF bounds kb(2,1) 3(1)])
    then have cost: "subtree_cost kept fee = Inr (tree_txs kept fee, tree_cost kept fee)"
      using subtree_cost_priced [OF a] by (simp add: priced_def)
    have all: "no_panic (\<lambda>(merged, layers'). length merged = 1 \<and> plan_ok ?wallet fee layers' \<and>
      minted layers' = {#} \<and> spendable ?wallet mm layers' merged) (consolidate_all mm tie fee ?pool [])"
      using consolidate_all_sound [of ?wallet fee "[]" mm ?pool tie] pool mm 3(2) by simp
    have rest: "no_panic (plan_sound available fee funding)
        (and_then (if merged = [] then Inl Panic else Inr (last merged)) (\<lambda>source.
         and_then (subtree_cost kept fee) (\<lambda>(txs, cost).
         if prep_input_value source < cost then Inl (Err InsufficientFunds)
         else
           and_then (build_split mm source (prep_input_value source) kept fee (length layers) layers)
             (\<lambda>layers'.
           Inr \<lparr> plan_layers = relabel_unspent layers', direct_funding = direct \<rparr>))))"
      if h: "length merged = 1 \<and> plan_ok ?wallet fee layers \<and> minted layers = {#} \<and>
        spendable ?wallet mm layers merged" for merged layers
    proof -
      obtain source where s: "merged = [source]" using h by (cases merged) auto
      have src: "input_ok ?wallet layers (length layers) source" "note_ref source \<notin> used_refs layers"
        "prep_input_value source \<le> mm"
        using h s by (auto simp: spendable_def)
      show ?thesis
      proof (cases "prep_input_value source < tree_cost kept fee")
        case False
        then obtain layers' where
          "build_split mm source (prep_input_value source) kept fee (length layers) layers = Inr layers'"
          "split_post ?wallet fee (length layers) source kept layers layers'"
          using build_split_sound [OF a _ order_refl src(1,2) _ src(3) mm] h by auto
        moreover then have "sound_layers ?wallet fee (mset kept) layers'"
          using h by (simp add: split_post_def sound_layers_def)
        ultimately show ?thesis
          using s cost False plan_sound_finish [OF d _ m] by simp
      qed (use s cost in simp)
    qed
    show ?thesis
      using av fu ex wn 3 rest
      by (auto simp: plan_preparation_via_consolidation_def zatoshi_sum_def
          intro!: outcome_and_then [OF all])
  qed
qed

theorem plan_preparation_sound:
  assumes "planner_bounds mm fee (length funding)"
  shows "no_panic (plan_sound available fee funding) (plan_preparation mm tie available funding fee)"
  using greedy_sound [OF assms, of available tie] fallback_sound [OF assms, of available tie]
  by (auto simp: plan_preparation_def split: sum.splits failure.splits prep_error.splits)

text \<open>
  In a finished plan the outputs nobody spends are the funding notes and the change, so
  conservation reads: the wallet pays for the notes minted, the residual notes and the fees.
\<close>

fun is_intermediate :: "prep_output \<Rightarrow> bool" where
  "is_intermediate (Intermediate _) = True"
| "is_intermediate _ = False"

lemma finished_unspent:
  assumes ok: "plan_ok wallet fee layers" and nd: "no_dangling layers"
  shows "unspent_outputs layers = filter (\<lambda>e. \<not> is_intermediate (snd e)) (located_outputs layers)"
  unfolding unspent_outputs_def
proof (rule filter_cong [OF refl])
  fix e assume e: "e \<in> set (located_outputs layers)"
  show "fst e \<notin> set (spent_positions layers) \<longleftrightarrow> \<not> is_intermediate (snd e)"
  proof
    assume unspent: "fst e \<notin> set (spent_positions layers)"
    then show "\<not> is_intermediate (snd e)"
      using nd e by (cases e; cases "snd e") (auto simp: no_dangling_def)
  next
    assume no: "\<not> is_intermediate (snd e)"
    show "fst e \<notin> set (spent_positions layers)"
    proof
      assume "fst e \<in> set (spent_positions layers)"
      then obtain n where n: "n \<in> set (plan_inputs layers)" "\<not> is_wallet_note n" "fst (prior_entry n) = fst e"
        unfolding spent_positions_eq by auto
      have "prior_entry n \<in> set (located_outputs layers)"
        by (rule prior_entry_located [OF plan_input_ok [OF ok n(1)] n(2)])
      then have "snd (prior_entry n) = snd e"
        using e n(3) located_output_unique by (metis prod.collapse)
      moreover have "is_intermediate (snd (prior_entry n))" by (cases n) simp_all
      ultimately show False using no by simp
    qed
  qed
qed

lemma terminal_value:
  "outputs_value (map snd (filter (\<lambda>e. \<not> is_intermediate (snd e)) es)) =
     sum_list (List.map_filter funding_value (map snd es)) + sum_list (List.map_filter change_value (map snd es))"
proof (induction es)
  case (Cons e es)
  then show ?case by (cases e; cases "snd e") (auto simp: map_filter_simps)
qed (simp add: map_filter_simps)

lemma finished_conservation:
  assumes "plan_ok wallet fee (plan_layers plan)" and "no_dangling (plan_layers plan)"
  shows "wallet_spent (plan_layers plan) =
    sum_list (List.map_filter funding_value (all_outputs (plan_layers plan))) +
    sum_list (residual_notes plan) + fee * transaction_count plan"
proof -
  have "count_txs (plan_layers plan) = transaction_count plan"
    by (simp add: count_txs_def transaction_count_def length_concat)
  then show ?thesis
    using plan_conservation [OF assms(1)]
    by (simp add: finished_unspent [OF assms] terminal_value map_snd_located_outputs residual_notes_def)
qed

lemma plan_input_cases:
  assumes "plan_sound available fee funding plan" and l: "l < length (plan_layers plan)"
    and tx: "tx \<in> set (plan_layers plan ! l)" and n: "n \<in> set (prep_inputs tx)"
  shows "case n of
      WalletNote i v \<Rightarrow> i < length available \<and> available ! i = v \<and> i \<notin> fst ` set (direct_funding plan)
    | PriorNote l' t p v \<Rightarrow> l' < l \<and> t < length (plan_layers plan ! l') \<and>
        p < length (prep_outputs (plan_layers plan ! l' ! t)) \<and>
        prep_outputs (plan_layers plan ! l' ! t) ! p = Intermediate v"
proof -
  have "input_ok (layer_wallet available (direct_funding plan)) (plan_layers plan) l n"
    using assms by (simp add: plan_sound_def plan_ok_def)
  then show ?thesis
    by (cases n rule: prep_input.exhaust)
      (auto simp: input_ok_def in_located_outputs layer_wallet_def split: if_splits)
qed

lemma plan_tx_ok:
  assumes "plan_sound available fee funding plan" and tx: "tx \<in> set (concat (plan_layers plan))"
  shows "tx_ok fee tx"
proof -
  obtain l where "l < length (plan_layers plan)" "tx \<in> set (plan_layers plan ! l)"
    using tx by (auto simp: in_set_conv_nth [of _ "plan_layers plan"])
  then show ?thesis using assms(1) by (simp add: plan_sound_def plan_ok_def)
qed

lemma planned:
  assumes "planner_bounds mm fee (length funding)" and "plan_preparation mm tie available funding fee = Inr plan"
  shows "plan_sound available fee funding plan"
  using plan_preparation_sound [OF assms(1), of available tie] assms(2) by simp

text \<open>The order of the requested values does not matter.\<close>

lemma plan_preparation_order:
  assumes "mset funding = mset funding'"
  shows "plan_preparation mm tie available funding fee = plan_preparation mm tie available funding' fee"
proof -
  have sums: "sum_list funding = sum_list funding'" using assms by (rule sum_list_mset_eq)
  have sorts: "sort_desc (filter (\<lambda>v. 0 < v) funding) = sort_desc (filter (\<lambda>v. 0 < v) funding')"
    using assms by (intro sort_desc_mset_eq) simp
  show ?thesis
    unfolding plan_preparation_def plan_preparation_greedy_def plan_preparation_via_consolidation_def
      zatoshi_sum_def sums sorts by (rule refl)
qed

end
