(* ===== verification/Refinement.thy ===== *)
theory Refinement
  imports Denominations "HOL-Library.Product_Lexorder" "HOL-Library.List_Lexorder"
begin

text \<open>
  Optional refinement of canonical denominations, the first half of
  \<open>rust/src/wallet/sync/migration/split_plan.rs\<close>: the policy and its split rules, the random
  choice of a refinement tree, and the list of its prunings in the order the planner tries them.

  A random number generator is a state \<open>'g\<close> with a function \<open>next_u32\<close> that returns a number and
  the next state.
\<close>

section \<open>Data and policy\<close>

definition TEN_THOUSAND_ZEC_ZATOSHI :: nat where
  "TEN_THOUSAND_ZEC_ZATOSHI = ZIP318_MAX_MIGRATION_DENOMINATION_ZATOSHI"

definition FIVE_THOUSAND_ZEC_ZATOSHI :: nat where
  "FIVE_THOUSAND_ZEC_ZATOSHI = TEN_THOUSAND_ZEC_ZATOSHI div 2"

definition TWO_THOUSAND_ZEC_ZATOSHI :: nat where
  "TWO_THOUSAND_ZEC_ZATOSHI = TEN_THOUSAND_ZEC_ZATOSHI div 5"

definition ONE_THOUSAND_ZEC_ZATOSHI :: nat where
  "ONE_THOUSAND_ZEC_ZATOSHI = TEN_THOUSAND_ZEC_ZATOSHI div 10"

record refinement_policy =
  ten_thousand_split_percent :: nat
  five_thousand_split_percent :: nat
  two_thousand_split_percent :: nat

text \<open>The constructor asserts its percentages: \<open>None\<close> is the failed assertion.\<close>

definition refinement_policy_new :: "nat \<Rightarrow> nat \<Rightarrow> nat \<Rightarrow> refinement_policy option" where
  "refinement_policy_new ten_thousand five_thousand two_thousand =
     (if ten_thousand \<le> 100 \<and> five_thousand \<le> 100 \<and> two_thousand \<le> 100
      then Some \<lparr> ten_thousand_split_percent = ten_thousand,
                  five_thousand_split_percent = five_thousand,
                  two_thousand_split_percent = two_thousand \<rparr>
      else None)"

definition AGGRESSIVE_REFINEMENT_POLICY :: refinement_policy where
  "AGGRESSIVE_REFINEMENT_POLICY = the (refinement_policy_new 80 55 35)"

datatype denomination_refinement =
  Refinement (refinement_value: nat) (refinement_children: "denomination_refinement list")

definition refinement_leaf :: "nat \<Rightarrow> denomination_refinement" where
  "refinement_leaf value = Refinement value []"

definition split_rule :: "refinement_policy \<Rightarrow> nat \<Rightarrow> (nat \<times> nat list) option" where
  "split_rule policy denomination =
     (if denomination = TEN_THOUSAND_ZEC_ZATOSHI then
        Some (ten_thousand_split_percent policy,
              [FIVE_THOUSAND_ZEC_ZATOSHI, FIVE_THOUSAND_ZEC_ZATOSHI])
      else if denomination = FIVE_THOUSAND_ZEC_ZATOSHI then
        Some (five_thousand_split_percent policy,
              [TWO_THOUSAND_ZEC_ZATOSHI, TWO_THOUSAND_ZEC_ZATOSHI, ONE_THOUSAND_ZEC_ZATOSHI])
      else if denomination = TWO_THOUSAND_ZEC_ZATOSHI then
        Some (two_thousand_split_percent policy,
              [ONE_THOUSAND_ZEC_ZATOSHI, ONE_THOUSAND_ZEC_ZATOSHI])
      else None)"

lemmas zec_consts = TEN_THOUSAND_ZEC_ZATOSHI_def FIVE_THOUSAND_ZEC_ZATOSHI_def
  TWO_THOUSAND_ZEC_ZATOSHI_def ONE_THOUSAND_ZEC_ZATOSHI_def

lemma split_rule_cases:
  "split_rule policy d = Some (percent, children) \<Longrightarrow>
     (d = 1000000000000 \<and> children = [500000000000, 500000000000]) \<or>
     (d = 500000000000 \<and> children = [200000000000, 200000000000, 100000000000]) \<or>
     (d = 200000000000 \<and> children = [100000000000, 100000000000])"
  by (auto simp: split_rule_def zec_consts policy_consts split: if_splits)

section \<open>The random refinement\<close>

function (sequential) refine_denomination ::
    "('g \<Rightarrow> nat \<times> 'g) \<Rightarrow> refinement_policy \<Rightarrow> nat \<Rightarrow> 'g \<Rightarrow> denomination_refinement \<times> 'g"
  and refine_children ::
    "('g \<Rightarrow> nat \<times> 'g) \<Rightarrow> refinement_policy \<Rightarrow> nat list \<Rightarrow> 'g \<Rightarrow> denomination_refinement list \<times> 'g"
where
  "refine_denomination next_u32 policy denomination g =
     (case split_rule policy denomination of
        None \<Rightarrow> (refinement_leaf denomination, g)
      | Some (percent, children) \<Rightarrow>
          if percent = 0 then (refinement_leaf denomination, g)
          else
            let (roll, g1) = next_u32 g in
            if percent \<le> roll mod 100 then (refinement_leaf denomination, g1)
            else
              let (refined, g2) = refine_children next_u32 policy children g1
              in (Refinement denomination refined, g2))"
| "refine_children next_u32 policy [] g = ([], g)"
| "refine_children next_u32 policy (child # rest) g =
     (let (refined, g1) = refine_denomination next_u32 policy child g;
          (others, g2) = refine_children next_u32 policy rest g1
      in (refined # others, g2))"
  by pat_completeness auto
termination
proof (relation "measures
    [\<lambda>x. case x of Inl (_, _, d, _) \<Rightarrow> d | Inr (_, _, ds, _) \<Rightarrow> foldr max ds 0,
     \<lambda>x. case x of Inl _ \<Rightarrow> 0 | Inr (_, _, ds, _) \<Rightarrow> Suc (length ds)]")
qed (auto dest!: split_rule_cases)

section \<open>Prunings of a refinement\<close>

datatype split_error =
  MustPreserveValue | NoncanonicalRefinement | RefinementTotalOverflow | CandidateCountOverflow
| MinimumFundingOverflow | StageFeeNotPositive | MinimumOutputNotOne | SelectedValueOverflow
| NoteExceedsMaximum | StageFeeInvalid | TargetNotCanonical nat | PlanOrder | PlanStale
| NoteValueOverflow | NoteValueInvalid | PreparationBalanceInvalid
| FundingTotalOverflow | PreparationFeeOverflow | CommittedOverflow
| CountsDiffer | PlanExceedsValue | MigratableOverflow
| DirectIndexOutOfRange | WalletIndexOutOfRange | UnknownPriorTransaction | UnexpectedFundingValue nat
| TooManyActions nat | InputTotalOverflow | OutputTotalOverflow | TransactionValueOverflow
| ValueNotConserved | PartsUnassigned

type_synonym 'a split_result = "split_error failure + 'a"

text \<open>All concatenations of a prefix with a candidate of the next child, prefixes outermost.\<close>

definition combine_candidates :: "nat list list \<Rightarrow> nat list list \<Rightarrow> nat list list" where
  "combine_candidates expanded child_candidates =
     concat (map (\<lambda>prefix. map (\<lambda>candidate. prefix @ candidate) child_candidates) expanded)"

text \<open>
  Longest first, then lexicographically; lists equal in this order are equal, so the order an
  unstable sort leaves open cannot be seen. \<open>dedup\<close> removes adjacent repetitions.
\<close>

definition order_candidates :: "nat list list \<Rightarrow> nat list list" where
  "order_candidates candidates =
     remdups_adj (sort_key (\<lambda>candidate. (- int (length candidate), candidate)) (map sort_desc candidates))"

fun refinement_candidates :: "denomination_refinement \<Rightarrow> nat list list split_result" where
  "refinement_candidates (Refinement value children) =
     (if \<not> is_zip318_canonical_denomination value then Inl (Err NoncanonicalRefinement)
      else if children = [] then Inr [[value]]
      else
        and_then (checked_sum (map refinement_value children) (Err RefinementTotalOverflow)) (\<lambda>total.
        if total \<noteq> value then Inl (Err MustPreserveValue)
        else
          and_then (try_fold (\<lambda>expanded child.
              and_then (refinement_candidates child) (\<lambda>child_candidates.
              and_then (ok_or (checked_mul 64 (length expanded) (length child_candidates))
                 (Err CandidateCountOverflow)) (\<lambda>_.
              Inr (combine_candidates expanded child_candidates)))) [[]] children) (\<lambda>expanded.
          Inr (order_candidates (expanded @ [[value]])))))"

section \<open>What the candidates are\<close>

text \<open>A candidate splits its value into canonical denominations.\<close>

definition splits_of :: "nat \<Rightarrow> nat list \<Rightarrow> bool" where
  "splits_of v c \<longleftrightarrow> c \<noteq> [] \<and> sum_list c = v \<and> (\<forall>d \<in> set c. is_zip318_canonical_denomination d)"

lemma set_order_candidates: "set (order_candidates cs) = sort_desc ` set cs"
  by (simp add: order_candidates_def)

lemma splits_of_sort_desc [simp]: "splits_of v (sort_desc c) \<longleftrightarrow> splits_of v c"
proof -
  have "sort_desc c = [] \<longleftrightarrow> c = []" by (metis length_0_conv length_sort_desc)
  then show ?thesis by (simp add: splits_of_def)
qed

lemma combine_fold:
  assumes "try_fold (\<lambda>expanded child.
      and_then (f child) (\<lambda>cs. and_then (ok_or (checked_mul 64 (length expanded) (length cs)) e) (\<lambda>_.
      Inr (combine_candidates expanded cs)))) expanded children = Inr result"
    and "\<And>child cs. child \<in> set children \<Longrightarrow> f child = Inr cs \<Longrightarrow> \<forall>c \<in> set cs. splits_of (w child) c"
    and "c \<in> set result"
  shows "\<exists>prefix \<in> set expanded. \<exists>rest. c = prefix @ rest \<and> (children \<noteq> [] \<longrightarrow> rest \<noteq> []) \<and>
    sum_list rest = sum_list (map w children) \<and> (\<forall>d \<in> set rest. is_zip318_canonical_denomination d)"
  using assms
proof (induction children arbitrary: expanded)
  case Nil
  then show ?case by (intro bexI [of _ c] exI [of _ "[]"]) simp_all
next
  case (Cons child children)
  obtain cs where cs: "f child = Inr cs" and
    rest: "try_fold (\<lambda>expanded child.
      and_then (f child) (\<lambda>cs. and_then (ok_or (checked_mul 64 (length expanded) (length cs)) e) (\<lambda>_.
      Inr (combine_candidates expanded cs)))) (combine_candidates expanded cs) children = Inr result"
    using Cons.prems(1) by (auto simp: and_then_eq_Inr)
  obtain p r where p: "p \<in> set (combine_candidates expanded cs)" and r: "c = p @ r"
    "sum_list r = sum_list (map w children)" "\<forall>d \<in> set r. is_zip318_canonical_denomination d"
    using Cons.IH [OF rest] Cons.prems(2,3) by auto
  obtain prefix cand where q: "prefix \<in> set expanded" "cand \<in> set cs" "p = prefix @ cand"
    using p by (auto simp: combine_candidates_def)
  have "splits_of (w child) cand" using Cons.prems(2) cs q(2) by simp
  then show ?case
    using q r by (intro bexI [OF _ q(1)] exI [of _ "cand @ r"]) (auto simp: splits_of_def)
qed

theorem refinement_candidates_split:
  "refinement_candidates r = Inr cs \<Longrightarrow> c \<in> set cs \<Longrightarrow>
     splits_of (refinement_value r) c \<and> sorted_wrt (\<ge>) c"
proof (induction r arbitrary: cs c rule: refinement_candidates.induct)
  case (1 v children)
  have canonical: "is_zip318_canonical_denomination v"
    using 1(2) by (auto split: if_splits)
  show ?case
  proof (cases "children = []")
    case True
    then show ?thesis using 1(2,3) canonical by (auto simp: splits_of_def)
  next
    case False
    obtain expanded where
      sum: "checked_sum (map refinement_value children) (Err RefinementTotalOverflow) = (Inr v :: nat split_result)" and
      fold: "try_fold (\<lambda>expanded child.
          and_then (refinement_candidates child) (\<lambda>cs. and_then (ok_or (checked_mul 64 (length expanded) (length cs))
            (Err CandidateCountOverflow)) (\<lambda>_. Inr (combine_candidates expanded cs)))) [[]] children = Inr expanded" and
      cs: "cs = order_candidates (expanded @ [[v]])"
      using 1(2) False canonical by (auto simp: and_then_eq_Inr split: if_splits)
    have total: "sum_list (map refinement_value children) = v"
      using sum by (auto simp: checked_sum_eq split: if_splits)
    obtain c0 where c0: "c0 \<in> set (expanded @ [[v]])" and c: "c = sort_desc c0"
      using 1(3) unfolding cs set_order_candidates by blast
    have "splits_of v c0"
    proof (cases "c0 = [v]")
      case True
      then show ?thesis using canonical by (simp add: splits_of_def)
    next
      case no: False
      then have "c0 \<in> set expanded" using c0 by simp
      from combine_fold [OF fold _ this, of refinement_value] 1(1) [OF _ False sum] canonical total False
      show ?thesis by (auto simp: splits_of_def)
    qed
    then show ?thesis by (simp add: c)
  qed
qed

lemma root_candidate:
  "refinement_candidates r = Inr cs \<Longrightarrow> [refinement_value r] \<in> set cs"
proof -
  have "[v] = sort_desc [v]" for v by (simp add: sort_desc_def)
  then show "refinement_candidates r = Inr cs \<Longrightarrow> ?thesis"
    by (cases r) (auto simp: and_then_eq_Inr set_order_candidates split: if_splits)
qed

lemma sorted_remdups_strict:
  fixes f :: "'a \<Rightarrow> 'b :: linorder"
  assumes "\<And>a b. f a = f b \<Longrightarrow> a = b" and "sorted (map f xs)"
  shows "sorted_wrt (\<lambda>a b. f a < f b) (remdups_adj xs)"
  using assms(2)
proof (induction xs rule: remdups_adj.induct)
  case (3 x y ys)
  show ?case
  proof (cases "x = y")
    case True
    then show ?thesis using 3 by simp
  next
    case False
    have "f x < f z" if "z \<in> set (remdups_adj (y # ys))" for z
    proof -
      have "f x \<le> f y" "f y \<le> f z" using 3(3) that by auto
      moreover have "f x \<noteq> f y" using False assms(1) by blast
      ultimately show ?thesis by simp
    qed
    moreover have "sorted_wrt (\<lambda>a b. f a < f b) (remdups_adj (y # ys))" using 3(2) [OF False] 3(3) by simp
    ultimately show ?thesis using False by simp
  qed
qed simp_all

lemma order_candidates_order:
  "sorted_wrt (\<lambda>a b. length b \<le> length a) (order_candidates cs)" "distinct (order_candidates cs)"
proof -
  let ?k = "\<lambda>c :: nat list. (- int (length c), c)"
  have "sorted_wrt (\<lambda>a b. ?k a < ?k b) (order_candidates cs)"
    unfolding order_candidates_def by (rule sorted_remdups_strict) auto
  then have strict: "sorted_wrt (\<lambda>a b. length b \<le> length a \<and> a \<noteq> b) (order_candidates cs)"
    by (rule sorted_wrt_mono_rel [rotated]) auto
  then show "sorted_wrt (\<lambda>a b. length b \<le> length a) (order_candidates cs)"
    by (rule sorted_wrt_mono_rel [rotated]) auto
  have "sorted_wrt (\<noteq>) xs \<Longrightarrow> distinct xs" for xs :: "nat list list"
    by (induction xs) auto
  moreover have "sorted_wrt (\<noteq>) (order_candidates cs)"
    using strict by (rule sorted_wrt_mono_rel [rotated]) auto
  ultimately show "distinct (order_candidates cs)" by blast
qed

section \<open>The planner's own refinements always have candidates\<close>

definition candidate_bound :: "nat \<Rightarrow> nat" where
  "candidate_bound d =
     (if d = 1000000000000 then 26 else if d = 500000000000 then 5 else if d = 200000000000 then 2 else 1)"

definition refines :: "nat \<Rightarrow> denomination_refinement \<Rightarrow> bool" where
  "refines d r \<longleftrightarrow> refinement_value r = d \<and>
     (\<exists>cs. refinement_candidates r = Inr cs \<and> length cs \<le> candidate_bound d)"

lemma length_order_candidates: "length (order_candidates cs) \<le> length cs"
  by (simp add: order_candidates_def) (metis length_map length_sort remdups_adj_length)

lemma length_combine [simp]: "length (combine_candidates as bs) = length as * length bs"
  by (induction as) (simp_all add: combine_candidates_def)

lemma refines_leaf: "is_zip318_canonical_denomination d \<Longrightarrow> refines d (refinement_leaf d)"
  by (simp add: refines_def refinement_leaf_def candidate_bound_def)

lemma refines_node:
  assumes rule: "split_rule policy d = Some (percent, ds)" and rs: "list_all2 refines ds rs"
  shows "refines d (Refinement d rs)"
proof -
  have mul: "checked_mul 64 a b = Some (a * b)" if "a \<le> 5" "b \<le> 5" for a b
  proof -
    have "a * b \<le> 5 * 5" using that by (intro mult_le_mono)
    then show ?thesis by (simp add: checked_mul_def)
  qed
  have canonical: "is_zip318_canonical_denomination d"
    using split_rule_cases [OF rule] by (auto simp: canonical_iff zip318_denominations_eval)
  have finish: "refines d (Refinement d rs)"
    if "try_fold (\<lambda>expanded child.
          and_then (refinement_candidates child) (\<lambda>cs. and_then (ok_or (checked_mul 64 (length expanded) (length cs))
            (Err CandidateCountOverflow)) (\<lambda>_. Inr (combine_candidates expanded cs)))) [[]] rs = Inr expanded"
      and "length expanded < candidate_bound d" and "sum_list (map refinement_value rs) = d"
      and "rs \<noteq> []" for expanded
  proof -
    have "d < 2 ^ 64" using canonical_bounds [OF canonical] by simp
    then have "refinement_candidates (Refinement d rs) = Inr (order_candidates (expanded @ [[d]]))"
      using that canonical by (simp add: checked_sum_eq)
    moreover have "length (order_candidates (expanded @ [[d]])) \<le> candidate_bound d"
      using length_order_candidates [of "expanded @ [[d]]"] that(2) by simp
    ultimately show ?thesis by (simp add: refines_def)
  qed
  from split_rule_cases [OF rule] show ?thesis
  proof (elim disjE conjE)
    assume d: "d = 1000000000000" and ds: "ds = [500000000000, 500000000000]"
    then obtain r1 r2 where r: "rs = [r1, r2]" "refines 500000000000 r1" "refines 500000000000 r2"
      using rs by (auto simp: list_all2_Cons1)
    then obtain c1 c2 where c: "refinement_candidates r1 = Inr c1" "refinement_candidates r2 = Inr c2"
      "length c1 \<le> 5" "length c2 \<le> 5" "refinement_value r1 = 500000000000" "refinement_value r2 = 500000000000"
      by (auto simp: refines_def candidate_bound_def)
    have "length c1 * length c2 \<le> 5 * 5" using c by (intro mult_le_mono)
    then show ?thesis
      using c d r mul [OF c(3,4)] mul [of 1 "length c1"]
      by (intro finish [of "combine_candidates (combine_candidates [[]] c1) c2"])
        (simp_all add: candidate_bound_def)
  next
    assume d: "d = 500000000000" and ds: "ds = [200000000000, 200000000000, 100000000000]"
    then obtain r1 r2 r3 where r: "rs = [r1, r2, r3]" "refines 200000000000 r1" "refines 200000000000 r2"
      "refines 100000000000 r3"
      using rs by (auto simp: list_all2_Cons1)
    then obtain c1 c2 c3 where c: "refinement_candidates r1 = Inr c1" "refinement_candidates r2 = Inr c2"
      "refinement_candidates r3 = Inr c3" "length c1 \<le> 2" "length c2 \<le> 2" "length c3 \<le> 1"
      "refinement_value r1 = 200000000000" "refinement_value r2 = 200000000000"
      "refinement_value r3 = 100000000000"
      by (auto simp: refines_def candidate_bound_def)
    have m2: "length c1 * length c2 \<le> 2 * 2" using c by (intro mult_le_mono)
    have m3: "length c1 * length c2 * length c3 \<le> 4 * 1" using c m2 by (intro mult_le_mono) simp_all
    show ?thesis
      using c d r m2 m3 mul [of 1 "length c1"] mul [of "length c1" "length c2"]
        mul [of "length c1 * length c2" "length c3"]
      by (intro finish [of "combine_candidates (combine_candidates (combine_candidates [[]] c1) c2) c3"])
        (simp_all add: candidate_bound_def)
  next
    assume d: "d = 200000000000" and ds: "ds = [100000000000, 100000000000]"
    then obtain r1 r2 where r: "rs = [r1, r2]" "refines 100000000000 r1" "refines 100000000000 r2"
      using rs by (auto simp: list_all2_Cons1)
    then obtain c1 c2 where c: "refinement_candidates r1 = Inr c1" "refinement_candidates r2 = Inr c2"
      "length c1 \<le> 1" "length c2 \<le> 1" "refinement_value r1 = 100000000000" "refinement_value r2 = 100000000000"
      by (auto simp: refines_def candidate_bound_def)
    have "length c1 * length c2 \<le> 1 * 1" using c by (intro mult_le_mono)
    then show ?thesis
      using c d r mul [of "length c1" "length c2"] mul [of 1 "length c1"]
      by (intro finish [of "combine_candidates (combine_candidates [[]] c1) c2"])
        (simp_all add: candidate_bound_def)
  qed
qed

lemma children_canonical:
  "split_rule policy d = Some (percent, ds) \<Longrightarrow> c \<in> set ds \<Longrightarrow> is_zip318_canonical_denomination c"
  by (auto dest!: split_rule_cases simp: canonical_iff zip318_denominations_eval)

theorem refine_denomination_refines:
  "is_zip318_canonical_denomination d \<Longrightarrow> refines d (fst (refine_denomination next_u32 policy d g))"
  "(\<And>c. c \<in> set ds \<Longrightarrow> is_zip318_canonical_denomination c) \<Longrightarrow>
     list_all2 refines ds (fst (refine_children next_u32 policy ds g))"
proof (induction next_u32 policy d g and next_u32 policy ds g
    rule: refine_denomination_refine_children.induct)
  case (1 next_u32 policy d g)
  show ?case
  proof (cases "split_rule policy d")
    case None
    then show ?thesis using refines_leaf [OF 1(2)] by simp
  next
    case (Some rule)
    obtain percent ds where rule: "rule = (percent, ds)" by (cases rule)
    obtain roll g1 where g1: "next_u32 g = (roll, g1)" by fastforce
    show ?thesis
    proof (cases "percent = 0 \<or> percent \<le> roll mod 100")
      case True
      then show ?thesis using Some rule g1 refines_leaf [OF 1(2)] by auto
    next
      case False
      then have "list_all2 refines ds (fst (refine_children next_u32 policy ds g1))"
        using 1(1) [OF Some rule [symmetric] _ refl, of roll g1] rule Some g1 children_canonical by auto
      then have "refines d (Refinement d (fst (refine_children next_u32 policy ds g1)))"
        using refines_node Some rule by blast
      then show ?thesis
        using Some rule g1 False by (simp add: case_prod_unfold Let_def)
    qed
  qed
next
  case (3 next_u32 policy c rest g)
  obtain r g1 where r: "refine_denomination next_u32 policy c g = (r, g1)" by fastforce
  have "refines c r" using 3(1,3) r by (metis fst_conv list.set_intros(1))
  moreover have "list_all2 refines rest (fst (refine_children next_u32 policy rest g1))"
    using 3(2) [OF r [symmetric] refl] 3(3) by (metis list.set_intros(2))
  ultimately show ?case
    by (simp add: r case_prod_unfold Let_def del: refine_denomination.simps)
qed simp

lemma refinement_candidates_order:
  "refinement_candidates r = Inr cs \<Longrightarrow> sorted_wrt (\<lambda>a b. length b \<le> length a) cs"
  by (cases r) (auto simp: and_then_eq_Inr order_candidates_order split: if_splits)

end
