(* ===== verification/SplitPlan.thy ===== *)
theory SplitPlan
  imports Refinement PrepPlanMain
begin

text \<open>
  Planning of the migration's denominations together with their preparation graph, the second half
  of \<open>rust/src/wallet/sync/migration/split_plan.rs\<close>. After every candidate the preparation planner
  is consulted; it is the argument \<open>planner\<close> of the functions below, instantiated with
  \<open>plan_preparation\<close> at the end. \<open>refine\<close> is the code's \<open>FnMut\<close> closure: a function with a state.
\<close>

section \<open>Data\<close>

definition DENOMINATION_SPLIT_ACTIONS :: nat where
  "DENOMINATION_SPLIT_ACTIONS = PREP_TX_ACTIONS"

datatype split_stage_input = Original nat nat | Prior nat nat nat

fun stage_input_value :: "split_stage_input \<Rightarrow> nat" where
  "stage_input_value (Original input_index value) = value"
| "stage_input_value (Prior stage_index output_index value) = value"

datatype split_terminal_kind = Migration | OrchardChange | Continuation

record split_stage_output =
  out_value :: nat
  out_kind :: split_terminal_kind
  out_part_index :: "nat option"

record split_stage_plan =
  stage_layer_index :: nat
  stage_inputs :: "split_stage_input list"
  stage_outputs :: "split_stage_output list"
  stage_fee :: nat
  requested_actions :: nat

record direct_migration_input =
  direct_input_index :: nat
  direct_part_index :: nat
  direct_value :: nat

record padded_denomination_plan =
  padded_denominations :: denomination_plan
  padded_stages :: "split_stage_plan list"
  padded_layer_count :: nat
  direct_migration_inputs :: "direct_migration_input list"

record planning_context =
  positive_input_indices :: "nat list"
  context_total :: nat
  context_available :: "nat list"
  context_fee :: nat

type_synonym prep_planner = "nat list \<Rightarrow> nat list \<Rightarrow> nat \<Rightarrow> preparation_plan planner"

section \<open>The context, and one consultation of the preparation planner\<close>

definition make_planning_context ::
  "nat \<Rightarrow> nat list \<Rightarrow> nat \<Rightarrow> nat \<Rightarrow> planning_context option split_result" where
  "make_planning_context mm input_values fee minimum_output =
     (let indices = filter (\<lambda>i. 0 < input_values ! i) [0..<length input_values] in
      if indices = [] then Inr None
      else if fee = 0 then Inl (Err StageFeeNotPositive)
      else if minimum_output \<noteq> 1 then Inl (Err MinimumOutputNotOne)
      else
        let positive = map (\<lambda>i. input_values ! i) indices in
        and_then (checked_sum positive (Err SelectedValueOverflow)) (\<lambda>total.
        and_then (collect_results (map (\<lambda>v. if v \<le> mm then Inr v else Inl (Err NoteExceedsMaximum)) positive))
          (\<lambda>available.
        if mm < fee then Inl (Err StageFeeInvalid)
        else Inr (Some \<lparr> positive_input_indices = indices, context_total = total,
                         context_available = available, context_fee = fee \<rparr>))))"

definition committed_value :: "nat list \<Rightarrow> preparation_plan \<Rightarrow> nat \<Rightarrow> nat split_result" where
  "committed_value funding_values preparation fee =
     and_then (checked_sum funding_values (Err FundingTotalOverflow)) (\<lambda>funding_total.
     and_then (ok_or (checked_mul 64 fee (transaction_count preparation)) (Err PreparationFeeOverflow)) (\<lambda>prep_fees.
     ok_or (checked_add 64 funding_total prep_fees) (Err CommittedOverflow)))"

definition funding_values_for :: "nat list \<Rightarrow> nat \<Rightarrow> nat list split_result" where
  "funding_values_for crossing_values migration_fee =
     collect_results (map (\<lambda>crossing. ok_or (checked_add 64 crossing migration_fee) (Err NoteValueOverflow))
       crossing_values)"

definition preparation_for_crossings ::
  "nat \<Rightarrow> prep_planner \<Rightarrow> planning_context \<Rightarrow> nat list \<Rightarrow> nat \<Rightarrow> nat \<Rightarrow>
     (nat list \<times> preparation_plan) option split_result" where
  "preparation_for_crossings mm planner ctx crossing_values fee migration_fee =
     and_then (funding_values_for crossing_values migration_fee) (\<lambda>funding_values.
     and_then (collect_results (map (\<lambda>v. if v \<le> mm then Inr v else Inl (Err NoteValueInvalid)) funding_values))
       (\<lambda>typed_funding.
     case planner (context_available ctx) typed_funding (context_fee ctx) of
       Inl (Err InsufficientFunds) \<Rightarrow> Inr None
     | Inl (Err BalanceInvalid) \<Rightarrow> Inl (Err PreparationBalanceInvalid)
     | Inl Panic \<Rightarrow> Inl Panic
     | Inr preparation \<Rightarrow>
         and_then (committed_value funding_values preparation fee) (\<lambda>committed.
         Inr (if committed \<le> context_total ctx then Some (funding_values, preparation) else None))))"

section \<open>Search for one more denomination\<close>

type_synonym selection = "nat list \<times> nat list \<times> preparation_plan"

text \<open>The first candidate, in order, that can be prepared with the values chosen so far.\<close>

fun try_candidates ::
  "nat \<Rightarrow> prep_planner \<Rightarrow> planning_context \<Rightarrow> nat \<Rightarrow> nat \<Rightarrow> nat list \<Rightarrow> nat list list \<Rightarrow>
     selection option split_result" where
  "try_candidates mm planner ctx fee migration_fee crossing_values [] = Inr None"
| "try_candidates mm planner ctx fee migration_fee crossing_values (candidate # rest) =
     and_then (preparation_for_crossings mm planner ctx (crossing_values @ candidate) fee migration_fee) (\<lambda>r.
     case r of
       Some (funding, preparation) \<Rightarrow> Inr (Some (crossing_values @ candidate, funding, preparation))
     | None \<Rightarrow> try_candidates mm planner ctx fee migration_fee crossing_values rest)"

text \<open>The loop over ever smaller affordable denominations.\<close>

lemma affordable_decreases:
  "largest_zip318_denomination_at_or_below affordable = Some greedy \<Longrightarrow> greedy - 1 < affordable"
  by (auto dest: largest_denomination_canonical)

function search_denomination ::
  "nat \<Rightarrow> prep_planner \<Rightarrow> planning_context \<Rightarrow> nat \<Rightarrow> nat \<Rightarrow> (nat \<Rightarrow> 'g \<Rightarrow> denomination_refinement \<times> 'g) \<Rightarrow>
     nat list \<Rightarrow> nat \<Rightarrow> 'g \<Rightarrow> (selection option \<times> 'g) split_result" where
  "search_denomination mm planner ctx fee migration_fee refine crossing_values affordable g =
     (if affordable < ZIP318_MAX_RESIDUAL_VALUE_ZATOSHI then Inr (None, g)
      else
        (case largest_zip318_denomination_at_or_below affordable of
           None \<Rightarrow> Inr (None, g)
         | Some greedy \<Rightarrow>
             (case refine greedy g of (refinement, g1) \<Rightarrow>
              if refinement_value refinement \<noteq> greedy then Inl (Err MustPreserveValue)
              else
                and_then (refinement_candidates refinement) (\<lambda>candidates.
                and_then (try_candidates mm planner ctx fee migration_fee crossing_values candidates) (\<lambda>accepted.
                if accepted \<noteq> None \<or> greedy = ZIP318_MAX_RESIDUAL_VALUE_ZATOSHI then Inr (accepted, g1)
                else search_denomination mm planner ctx fee migration_fee refine crossing_values (greedy - 1) g1)))))"
  by pat_completeness auto
termination
  by (relation "measure (\<lambda>(mm, planner, ctx, fee, migration_fee, refine, crossing_values, affordable, g). affordable)")
    (auto dest: affordable_decreases)

declare search_denomination.simps [simp del]

text \<open>What an acceptance means; the outer loop ends because the chosen values grow within the total.\<close>

definition accepts ::
  "nat \<Rightarrow> prep_planner \<Rightarrow> planning_context \<Rightarrow> nat \<Rightarrow> nat \<Rightarrow> nat list \<Rightarrow> nat list \<Rightarrow> preparation_plan \<Rightarrow> bool" where
  "accepts mm planner ctx fee migration_fee crossings funding preparation \<longleftrightarrow>
     preparation_for_crossings mm planner ctx crossings fee migration_fee = Inr (Some (funding, preparation))"

lemma collect_checked_add:
  "collect_results (map (\<lambda>c. ok_or (checked_add 64 c fee) e) cs) = Inr fs \<longleftrightarrow>
     fs = map (\<lambda>c. c + fee) cs \<and> (\<forall>c \<in> set cs. c + fee < 2 ^ 64)"
  by (induction cs arbitrary: fs) (auto simp: and_then_eq_Inr ok_or_eq_Inr checked_add_def split: if_splits)

lemma collect_typed:
  "collect_results (map (\<lambda>v. if v \<le> mm then Inr v else Inl e) vs) = Inr ws \<longleftrightarrow>
     ws = vs \<and> (\<forall>v \<in> set vs. v \<le> mm)"
  by (induction vs arbitrary: ws) (auto simp: and_then_eq_Inr)

lemma committed_value_Inr:
  "committed_value funding preparation fee = Inr c \<longleftrightarrow>
     c = sum_list funding + fee * transaction_count preparation \<and> c < 2 ^ 64"
  by (auto simp: committed_value_def and_then_eq_Inr checked_sum_eq ok_or_eq_Inr checked_mul_def
      checked_add_def split: if_splits)

lemma sum_list_add_fee: "sum_list (map (\<lambda>c. c + fee) cs) = sum_list cs + length cs * (fee :: nat)"
  by (induction cs) auto

lemma accepts_iff:
  "accepts mm planner ctx fee migration_fee crossings funding preparation \<longleftrightarrow>
     funding = map (\<lambda>c. c + migration_fee) crossings \<and> (\<forall>v \<in> set funding. v < 2 ^ 64 \<and> v \<le> mm) \<and>
     planner (context_available ctx) funding (context_fee ctx) = Inr preparation \<and>
     sum_list funding + fee * transaction_count preparation \<le> context_total ctx \<and>
     sum_list funding + fee * transaction_count preparation < 2 ^ 64"
  by (auto simp: accepts_def preparation_for_crossings_def funding_values_for_def and_then_eq_Inr
      collect_checked_add collect_typed committed_value_Inr
      split: sum.splits failure.splits prep_error.splits if_splits)

lemma try_candidates_Some:
  "try_candidates mm planner ctx fee migration_fee crossings candidates = Inr (Some (cs, fs, p)) \<Longrightarrow>
   \<exists>candidate \<in> set candidates. cs = crossings @ candidate \<and> accepts mm planner ctx fee migration_fee cs fs p"
  by (induction candidates) (auto simp: and_then_eq_Inr accepts_def split: option.splits)

lemma search_denomination_Some:
  "search_denomination mm planner ctx fee migration_fee refine crossings affordable g =
     Inr (Some (cs, fs, p), g') \<Longrightarrow>
   \<exists>candidate greedy. cs = crossings @ candidate \<and> splits_of greedy candidate \<and>
     is_zip318_canonical_denomination greedy \<and> accepts mm planner ctx fee migration_fee cs fs p"
proof (induction mm planner ctx fee migration_fee refine crossings affordable g
    rule: search_denomination.induct)
  case (1 mm planner ctx fee migration_fee refine crossings affordable g)
  obtain greedy r g1 candidates accepted where
    greedy: "largest_zip318_denomination_at_or_below affordable = Some greedy" and
    big: "\<not> affordable < ZIP318_MAX_RESIDUAL_VALUE_ZATOSHI" and
    r: "refine greedy g = (r, g1)" "refinement_value r = greedy" and
    c: "refinement_candidates r = Inr candidates" and
    t: "try_candidates mm planner ctx fee migration_fee crossings candidates = Inr accepted" and
    rest: "(if accepted \<noteq> None \<or> greedy = ZIP318_MAX_RESIDUAL_VALUE_ZATOSHI then Inr (accepted, g1)
      else search_denomination mm planner ctx fee migration_fee refine crossings (greedy - 1) g1) =
        Inr (Some (cs, fs, p), g')"
    using 1(2) by (subst (asm) search_denomination.simps)
      (auto simp: and_then_eq_Inr split: if_splits option.splits prod.splits)
  show ?case
  proof (cases accepted)
    case None
    then show ?thesis
      using 1(1) [OF big greedy r(1) [symmetric] _ c t] r(2) rest by (auto split: if_splits)
  next
    case (Some s)
    then have "accepted = Some (cs, fs, p)" using rest by simp
    then show ?thesis
      using try_candidates_Some t refinement_candidates_split [OF c] r(2)
        largest_denomination_canonical [OF greedy] by blast
  qed
qed

lemma splits_of_pos: "splits_of v c \<Longrightarrow> is_zip318_canonical_denomination v \<Longrightarrow> 0 < sum_list c"
  using canonical_bounds [of v] by (auto simp: splits_of_def)

lemma search_progress:
  assumes "search_denomination mm planner ctx fee migration_fee refine crossings affordable g =
    Inr (Some (cs, fs, p), g')"
  shows "sum_list crossings < sum_list cs" and "sum_list cs \<le> context_total ctx"
proof -
  obtain candidate greedy where c: "cs = crossings @ candidate" "splits_of greedy candidate"
    "is_zip318_canonical_denomination greedy" and a: "accepts mm planner ctx fee migration_fee cs fs p"
    using search_denomination_Some [OF assms] by blast
  show "sum_list crossings < sum_list cs" using splits_of_pos [OF c(2,3)] c(1) by simp
  show "sum_list cs \<le> context_total ctx"
    using a unfolding accepts_iff by (auto simp: sum_list_add_fee)
qed

function planning_loop ::
  "nat \<Rightarrow> prep_planner \<Rightarrow> planning_context \<Rightarrow> nat \<Rightarrow> nat \<Rightarrow> nat \<Rightarrow>
     (nat \<Rightarrow> 'g \<Rightarrow> denomination_refinement \<times> 'g) \<Rightarrow> nat list \<Rightarrow> nat list \<Rightarrow> preparation_plan \<Rightarrow> 'g \<Rightarrow>
     (selection \<times> 'g) split_result" where
  "planning_loop mm planner ctx fee migration_fee minimum_funding refine crossings funding preparation g =
     and_then (committed_value funding preparation fee) (\<lambda>committed.
     let budget = saturating_sub (context_total ctx) committed in
     if budget < minimum_funding then Inr ((crossings, funding, preparation), g)
     else
       and_then (sub_u budget migration_fee) (\<lambda>after_fee.
       and_then (search_denomination mm planner ctx fee migration_fee refine crossings
                   (min after_fee ZIP318_MAX_MIGRATION_DENOMINATION_ZATOSHI) g) (\<lambda>(accepted, g1).
       case accepted of
         None \<Rightarrow> Inr ((crossings, funding, preparation), g1)
       | Some (crossings', funding', preparation') \<Rightarrow>
           planning_loop mm planner ctx fee migration_fee minimum_funding refine
             crossings' funding' preparation' g1)))"
  by pat_completeness auto
termination
  by (relation "measure (\<lambda>(mm, planner, ctx, fee, migration_fee, minimum_funding, refine, crossings, rest).
      context_total ctx - sum_list crossings)")
    (auto dest: search_progress intro: diff_less_mono2 less_le_trans)

declare planning_loop.simps [simp del]

section \<open>Finishing a plan\<close>

type_synonym part_map = "nat \<rightharpoonup> nat list"

text \<open>\<open>Vec::pop\<close> takes the last part index.\<close>

definition take_part_index :: "part_map \<Rightarrow> nat \<Rightarrow> (nat \<times> part_map) split_result" where
  "take_part_index available_parts value =
     (case available_parts value of
        Some (i # is) \<Rightarrow> Inr (last (i # is), available_parts(value \<mapsto> butlast (i # is)))
      | _ \<Rightarrow> Inl (Err (UnexpectedFundingValue value)))"

definition push_part :: "part_map \<Rightarrow> nat \<times> nat \<Rightarrow> part_map" where
  "push_part available_parts entry = (case entry of (part_index, value) \<Rightarrow>
     available_parts(value \<mapsto> (case available_parts value of None \<Rightarrow> [] | Some is \<Rightarrow> is) @ [part_index]))"

definition initial_parts :: "nat list \<Rightarrow> part_map" where
  "initial_parts funding_values = foldl push_part Map.empty (rev (enumerate 0 funding_values))"

definition nth_index :: "nat list \<Rightarrow> nat \<Rightarrow> split_error \<Rightarrow> nat split_result" where
  "nth_index indices i e = (if i < length indices then Inr (indices ! i) else Inl (Err e))"

fun translate_direct ::
  "nat list \<Rightarrow> (nat \<times> nat) list \<Rightarrow> part_map \<Rightarrow> (direct_migration_input list \<times> part_map) split_result" where
  "translate_direct indices [] parts = Inr ([], parts)"
| "translate_direct indices ((input_index, value) # rest) parts =
     and_then (nth_index indices input_index DirectIndexOutOfRange) (\<lambda>index.
     and_then (take_part_index parts value) (\<lambda>(part, parts').
     and_then (translate_direct indices rest parts') (\<lambda>(inputs, parts'').
     Inr (\<lparr> direct_input_index = index, direct_part_index = part, direct_value = value \<rparr> # inputs, parts''))))"

type_synonym coordinates = "nat \<times> nat \<rightharpoonup> nat"

fun translate_input :: "nat list \<Rightarrow> coordinates \<Rightarrow> prep_input \<Rightarrow> split_stage_input split_result" where
  "translate_input indices coordinates (WalletNote index value) =
     and_then (nth_index indices index WalletIndexOutOfRange) (\<lambda>i. Inr (Original i value))"
| "translate_input indices coordinates (PriorNote layer transaction out value) =
     and_then (ok_or (coordinates (layer, transaction)) (Err UnknownPriorTransaction)) (\<lambda>stage.
     Inr (Prior stage out value))"

fun translate_outputs :: "prep_output list \<Rightarrow> part_map \<Rightarrow> (split_stage_output list \<times> part_map) split_result" where
  "translate_outputs [] parts = Inr ([], parts)"
| "translate_outputs (Funding value # rest) parts =
     and_then (take_part_index parts value) (\<lambda>(part, parts').
     and_then (translate_outputs rest parts') (\<lambda>(outs, parts'').
     Inr (\<lparr> out_value = value, out_kind = Migration, out_part_index = Some part \<rparr> # outs, parts'')))"
| "translate_outputs (Intermediate value # rest) parts =
     and_then (translate_outputs rest parts) (\<lambda>(outs, parts').
     Inr (\<lparr> out_value = value, out_kind = Continuation, out_part_index = None \<rparr> # outs, parts'))"
| "translate_outputs (Change value # rest) parts =
     and_then (translate_outputs rest parts) (\<lambda>(outs, parts').
     Inr (\<lparr> out_value = value, out_kind = OrchardChange, out_part_index = None \<rparr> # outs, parts'))"

type_synonym translation = "part_map \<times> coordinates \<times> split_stage_plan list"

definition translate_transaction ::
  "nat list \<Rightarrow> nat \<Rightarrow> translation \<Rightarrow> (nat \<times> nat) \<times> prep_transaction \<Rightarrow> translation split_result" where
  "translate_transaction indices fee state located =
     (case (state, located) of ((parts, coordinates, stages), ((layer_index, transaction_index), transaction)) \<Rightarrow>
      and_then (collect_results (map (translate_input indices coordinates) (prep_inputs transaction))) (\<lambda>inputs.
      and_then (translate_outputs (prep_outputs transaction) parts) (\<lambda>(outputs, parts').
      let actions = length inputs + length outputs in
      if DENOMINATION_SPLIT_ACTIONS < actions then Inl (Err (TooManyActions actions))
      else
        and_then (checked_sum (map stage_input_value inputs) (Err InputTotalOverflow)) (\<lambda>input_total.
        and_then (checked_sum (map out_value outputs) (Err OutputTotalOverflow)) (\<lambda>output_total.
        and_then (ok_or (checked_add 64 output_total fee) (Err TransactionValueOverflow)) (\<lambda>spent.
        if input_total \<noteq> spent then Inl (Err ValueNotConserved)
        else Inr (parts', coordinates((layer_index, transaction_index) \<mapsto> length stages),
               stages @ [\<lparr> stage_layer_index = layer_index, stage_inputs = inputs, stage_outputs = outputs,
                           stage_fee = fee, requested_actions = actions \<rparr>])))))))"

definition located_transactions :: "prep_layers \<Rightarrow> ((nat \<times> nat) \<times> prep_transaction) list" where
  "located_transactions layers =
     concat (map (\<lambda>(li, layer). map (\<lambda>(ti, tx). ((li, ti), tx)) (enumerate 0 layer)) (enumerate 0 layers))"

definition translate_preparation_plan ::
  "preparation_plan \<Rightarrow> denomination_plan \<Rightarrow> nat list \<Rightarrow> nat list \<Rightarrow> nat \<Rightarrow>
     padded_denomination_plan split_result" where
  "translate_preparation_plan preparation denominations indices funding_values fee =
     and_then (translate_direct indices (direct_funding preparation) (initial_parts funding_values))
       (\<lambda>(direct, parts).
     and_then (try_fold (translate_transaction indices fee) (parts, Map.empty, [])
         (located_transactions (plan_layers preparation))) (\<lambda>(parts', coordinates, stages).
     if \<exists>v \<in> set funding_values. parts' v \<noteq> None \<and> parts' v \<noteq> Some [] then Inl (Err PartsUnassigned)
     else Inr \<lparr> padded_denominations = denominations, padded_stages = stages,
                padded_layer_count = layer_count preparation,
                direct_migration_inputs = sort_key direct_part_index direct \<rparr>))"

definition finish_plan ::
  "planning_context \<Rightarrow> nat list \<Rightarrow> nat list \<Rightarrow> preparation_plan \<Rightarrow> nat \<Rightarrow> nat \<Rightarrow> nat \<Rightarrow>
     padded_denomination_plan option split_result" where
  "finish_plan ctx crossing_values funding_values preparation fee migration_fee minimum_output =
     (if crossing_values = [] then Inr None
      else if length crossing_values \<noteq> length funding_values then Inl (Err CountsDiffer)
      else
        let pairs = rev (sort (zip crossing_values funding_values));
            crossings = map fst pairs; funding = map snd pairs in
        and_then (ok_or (checked_mul 64 fee (transaction_count preparation)) (Err PreparationFeeOverflow))
          (\<lambda>split_fee.
        and_then (checked_sum funding (Err FundingTotalOverflow)) (\<lambda>funding_total.
        and_then (ok_or (case checked_sub (context_total ctx) funding_total of
                           None \<Rightarrow> None | Some value \<Rightarrow> checked_sub value split_fee) (Err PlanExceedsValue))
          (\<lambda>remaining.
        and_then (checked_sum crossings (Err MigratableOverflow)) (\<lambda>total_migratable.
        let denominations = \<lparr> migration_outputs = crossings,
              orchard_change = (if minimum_output \<le> remaining then Some remaining else None),
              split_fee_zatoshi = split_fee, migration_fee_zatoshi = migration_fee,
              total_input_zatoshi = context_total ctx, total_migratable_zatoshi = total_migratable \<rparr> in
        and_then (translate_preparation_plan preparation denominations (positive_input_indices ctx) funding fee)
          (\<lambda>plan. Inr (Some plan)))))))"

section \<open>Planning\<close>

definition plan_with_refiner ::
  "nat \<Rightarrow> prep_planner \<Rightarrow> (nat \<Rightarrow> 'g \<Rightarrow> denomination_refinement \<times> 'g) \<Rightarrow> 'g \<Rightarrow> nat list \<Rightarrow> nat \<Rightarrow> nat \<Rightarrow> nat \<Rightarrow>
     padded_denomination_plan option split_result" where
  "plan_with_refiner mm planner refine g input_values fee migration_fee minimum_output =
     and_then (make_planning_context mm input_values fee minimum_output) (\<lambda>context.
     case context of
       None \<Rightarrow> Inr None
     | Some ctx \<Rightarrow>
         and_then (ok_or (checked_add 64 ZIP318_MAX_RESIDUAL_VALUE_ZATOSHI migration_fee) (Err MinimumFundingOverflow))
           (\<lambda>minimum_funding.
         and_then (planning_loop mm planner ctx fee migration_fee minimum_funding refine [] []
             \<lparr> plan_layers = [], direct_funding = [] \<rparr> g) (\<lambda>((crossings, funding, preparation), g').
         finish_plan ctx crossings funding preparation fee migration_fee minimum_output)))"

definition plan_padded_denominations_with_policy_and_rng where
  "plan_padded_denominations_with_policy_and_rng mm tie next_u32 policy g =
     plan_with_refiner mm (plan_preparation mm tie) (refine_denomination next_u32 policy) g"

definition plan_padded_denominations where
  "plan_padded_denominations mm tie next_u32 g =
     plan_padded_denominations_with_policy_and_rng mm tie next_u32 AGGRESSIVE_REFINEMENT_POLICY g"

definition plan_padded_denominations_without_refinement where
  "plan_padded_denominations_without_refinement mm tie =
     plan_with_refiner mm (plan_preparation mm tie) (\<lambda>greedy g. (refinement_leaf greedy, g)) ()"

section \<open>Replaying approved denominations\<close>

function can_append_loop ::
  "nat \<Rightarrow> prep_planner \<Rightarrow> planning_context \<Rightarrow> nat \<Rightarrow> nat \<Rightarrow> nat list \<Rightarrow> nat \<Rightarrow> bool split_result" where
  "can_append_loop mm planner ctx fee migration_fee crossings affordable =
     (if affordable < ZIP318_MAX_RESIDUAL_VALUE_ZATOSHI then Inr False
      else
        (case largest_zip318_denomination_at_or_below affordable of
           None \<Rightarrow> Inr False
         | Some crossing \<Rightarrow>
             and_then (preparation_for_crossings mm planner ctx (crossings @ [crossing]) fee migration_fee) (\<lambda>r.
             if r \<noteq> None then Inr True
             else if crossing = ZIP318_MAX_RESIDUAL_VALUE_ZATOSHI then Inr False
             else can_append_loop mm planner ctx fee migration_fee crossings (crossing - 1))))"
  by pat_completeness auto
termination
  by (relation "measure (\<lambda>(mm, planner, ctx, fee, migration_fee, crossings, affordable). affordable)")
    (auto dest: affordable_decreases)

declare can_append_loop.simps [simp del]

definition can_append_canonical_denomination ::
  "nat \<Rightarrow> prep_planner \<Rightarrow> planning_context \<Rightarrow> nat list \<Rightarrow> nat list \<Rightarrow> preparation_plan \<Rightarrow> nat \<Rightarrow> nat \<Rightarrow>
     bool split_result" where
  "can_append_canonical_denomination mm planner ctx crossings funding preparation fee migration_fee =
     and_then (committed_value funding preparation fee) (\<lambda>committed.
     let budget = saturating_sub (context_total ctx) committed in
     and_then (ok_or (checked_add 64 ZIP318_MAX_RESIDUAL_VALUE_ZATOSHI migration_fee) (Err MinimumFundingOverflow))
       (\<lambda>minimum_funding.
     if budget < minimum_funding then Inr False
     else
       and_then (sub_u budget migration_fee) (\<lambda>after_fee.
       can_append_loop mm planner ctx fee migration_fee crossings
         (min after_fee ZIP318_MAX_MIGRATION_DENOMINATION_ZATOSHI))))"

definition plan_for_targets ::
  "nat \<Rightarrow> prep_planner \<Rightarrow> nat list \<Rightarrow> nat list \<Rightarrow> nat \<Rightarrow> nat \<Rightarrow> nat \<Rightarrow>
     padded_denomination_plan option split_result" where
  "plan_for_targets mm planner input_values targets fee migration_fee minimum_output =
     (if targets = [] then Inr None
      else
        (case find (\<lambda>v. \<not> is_zip318_canonical_denomination v) targets of
           Some v \<Rightarrow> Inl (Err (TargetNotCanonical v))
         | None \<Rightarrow>
             if \<not> sorted_wrt (\<ge>) targets then Inl (Err PlanOrder)
             else
               and_then (make_planning_context mm input_values fee minimum_output) (\<lambda>context.
               case context of
                 None \<Rightarrow> Inl (Err PlanStale)
               | Some ctx \<Rightarrow>
                   and_then (preparation_for_crossings mm planner ctx targets fee migration_fee) (\<lambda>prepared.
                   case prepared of
                     None \<Rightarrow> Inl (Err PlanStale)
                   | Some (funding, preparation) \<Rightarrow>
                       and_then (can_append_canonical_denomination mm planner ctx targets funding preparation
                           fee migration_fee) (\<lambda>more.
                       if more then Inl (Err PlanStale)
                       else finish_plan ctx targets funding preparation fee migration_fee minimum_output)))))"

definition plan_padded_denominations_for_targets where
  "plan_padded_denominations_for_targets mm tie = plan_for_targets mm (plan_preparation mm tie)"

end
