(* ===== verification/SplitTranslate.thy ===== *)
theory SplitTranslate
  imports SplitPlan
begin

text \<open>
  The translation of a sound preparation plan into the stages of a migration never fails: every
  funding note finds its part, every prior transaction its stage, and every stage balances.
\<close>

section \<open>No transaction spends more than the wallet holds\<close>

lemma plan_ok_prefix:
  assumes "plan_ok wallet fee (layers @ [txs])"
  shows "plan_ok wallet fee layers"
  unfolding plan_ok_def
proof (intro conjI allI impI ballI)
  fix l tx assume l: "l < length layers" and tx: "tx \<in> set (layers ! l)"
  have "l < length (layers @ [txs])" "tx \<in> set ((layers @ [txs]) ! l)" using l tx by (simp_all add: nth_append)
  then have old: "tx_ok fee tx" "\<And>n. n \<in> set (prep_inputs tx) \<Longrightarrow> input_ok wallet (layers @ [txs]) l n"
    using assms unfolding plan_ok_def by blast+
  show "tx_ok fee tx" by (rule old(1))
  fix n assume "n \<in> set (prep_inputs tx)"
  then have "input_ok wallet (layers @ [txs]) l n" by (rule old(2))
  then show "input_ok wallet layers l n"
    using l by (cases n) (auto simp: input_ok_def in_layer_outputs)
next
  show "distinct (map note_ref (plan_inputs layers))" using assms by (simp add: plan_ok_def)
qed

lemma distinct_concat_member: "distinct (map f (concat xss)) \<Longrightarrow> xs \<in> set xss \<Longrightarrow> distinct (map f xs)"
  by (induction xss) auto

lemma plan_ok_one_tx:
  assumes ok: "plan_ok wallet fee (layers @ [txs])" and tx: "tx \<in> set txs"
  shows "plan_ok wallet fee (layers @ [[tx]])"
proof (rule plan_ok_layer [OF plan_ok_prefix [OF ok]])
  have last: "tx_ok fee tx \<and> (\<forall>n \<in> set (prep_inputs tx). input_ok wallet (layers @ [txs]) (length layers) n)"
    using ok tx unfolding plan_ok_def by (metis length_append_singleton lessI nth_append_length)
  then show "tx_ok fee tx'" if "tx' \<in> set [tx]" for tx' using that by simp
  fix n assume "n \<in> set (concat (map prep_inputs [tx]))"
  then have "input_ok wallet (layers @ [txs]) (length layers) n" using last by simp
  then show "input_ok wallet layers (length layers) n"
    by (cases n) (auto simp: input_ok_def in_layer_outputs)
next
  have d: "distinct (map note_ref (plan_inputs layers @ concat (map prep_inputs txs)))"
    using ok by (simp add: plan_ok_def)
  show "distinct (map note_ref (concat (map prep_inputs [tx])))"
    using distinct_concat_member [of note_ref "map prep_inputs txs" "prep_inputs tx"] d tx by simp
  show "note_ref ` set (concat (map prep_inputs [tx])) \<inter> used_refs layers = {}"
    using d tx by (auto simp: used_refs_def)
qed

lemma last_tx_value:
  assumes ok: "plan_ok wallet fee (layers @ [[tx]])" and fin: "finite (dom wallet)"
  shows "inputs_value (prep_inputs tx) \<le> wallet_total wallet"
proof -
  let ?L = "layers @ [[tx]]"
  have unspent: "(length layers, t, p) \<notin> set (spent_positions ?L)" for t p
  proof
    assume "(length layers, t, p) \<in> set (spent_positions ?L)"
    then obtain n where "n \<in> set (plan_inputs ?L)" "\<not> is_wallet_note n"
      "fst (prior_entry n) = (length layers, t, p)"
      unfolding spent_positions_eq by force
    then have "Inr (length layers, t, p) \<in> used_refs ?L"
      by (cases n rule: prep_input.exhaust) (force simp: used_refs_def)+
    then show False using used_refs_earlier [OF ok] by fastforce
  qed
  have "unspent_outputs ?L = filter (\<lambda>e. fst e \<notin> set (spent_positions ?L)) (located_outputs layers) @
      layer_outputs (length layers) [tx]"
  proof -
    have "fst e \<notin> set (spent_positions ?L)" if "e \<in> set (layer_outputs (length layers) [tx])" for e
    proof -
      obtain l t p x where e: "e = ((l, t, p), x)" by (metis prod.exhaust)
      then show ?thesis using that unspent by (simp add: in_layer_outputs)
    qed
    then show ?thesis
      unfolding unspent_outputs_def located_outputs_append filter_append by (simp add: filter_id_conv)
  qed
  then have "outputs_value (prep_outputs tx) \<le> outputs_value (map snd (unspent_outputs ?L))"
    by (simp add: map_snd_layer_outputs)
  moreover have "fee \<le> fee * count_txs ?L" by simp
  moreover have "inputs_value (prep_inputs tx) = outputs_value (prep_outputs tx) + fee"
    using ok unfolding plan_ok_def tx_ok_def by (metis length_append_singleton lessI list.set_intros(1) nth_append_length)
  ultimately show ?thesis
    using plan_conservation [OF ok] wallet_spent_le [OF ok fin] by linarith
qed

theorem tx_value_le:
  "plan_ok wallet fee layers \<Longrightarrow> finite (dom wallet) \<Longrightarrow> tx \<in> set (concat layers) \<Longrightarrow>
   inputs_value (prep_inputs tx) \<le> wallet_total wallet"
proof (induction layers rule: rev_induct)
  case (snoc txs layers)
  show ?case
  proof (cases "tx \<in> set txs")
    case True
    then show ?thesis by (rule last_tx_value [OF plan_ok_one_tx [OF snoc.prems(1)] snoc.prems(2)])
  next
    case False
    then show ?thesis using snoc.IH [OF plan_ok_prefix [OF snoc.prems(1)] snoc.prems(2)] snoc.prems(3) by simp
  qed
qed simp

section \<open>Parts\<close>

text \<open>The part map stands for the multiset of its (part index, value) pairs.\<close>

definition parts_of :: "part_map \<Rightarrow> nat \<Rightarrow> nat list" where
  "parts_of parts v = (case parts v of None \<Rightarrow> [] | Some is \<Rightarrow> is)"

definition represents :: "part_map \<Rightarrow> (nat \<times> nat) multiset \<Rightarrow> bool" where
  "represents parts R \<longleftrightarrow>
     (\<forall>v. mset (parts_of parts v) = image_mset fst (filter_mset (\<lambda>p. snd p = v) R))"

lemma parts_of_upd: "parts_of (parts(v \<mapsto> is)) w = (if w = v then is else parts_of parts w)"
  by (simp add: parts_of_def)

lemma represents_empty: "represents Map.empty {#}"
  by (simp add: represents_def parts_of_def)

lemma represents_push: "represents parts R \<Longrightarrow> represents (push_part parts (i, v)) (add_mset (i, v) R)"
  by (auto simp: represents_def parts_of_def push_part_def)

lemma represents_foldl:
  "represents parts R \<Longrightarrow> represents (foldl push_part parts es) (R + mset es)"
proof (induction es arbitrary: parts R)
  case (Cons e es)
  obtain i v where e: "e = (i, v)" by (cases e)
  show ?case using Cons.IH [OF represents_push [OF Cons.prems, of i v]] e by simp
qed simp

lemma represents_initial: "represents (initial_parts fs) (mset (enumerate 0 fs))"
  using represents_foldl [OF represents_empty, of "rev (enumerate 0 fs)"] by (simp add: initial_parts_def)

lemma represents_end: "represents parts {#} \<Longrightarrow> parts v = None \<or> parts v = Some []"
  by (cases "parts v") (auto simp: represents_def parts_of_def dest: spec [of _ v])

lemma take_part_ok:
  assumes rep: "represents parts R" and v: "v \<in># image_mset snd R"
  shows "\<exists>i parts'. take_part_index parts v = Inr (i, parts') \<and> (i, v) \<in># R \<and>
    represents parts' (R - {#(i, v)#})"
proof -
  have eq: "mset (parts_of parts v) = image_mset fst (filter_mset (\<lambda>p. snd p = v) R)"
    using rep by (simp add: represents_def)
  obtain j where "(j, v) \<in># R" using v by auto
  then have "j \<in># image_mset fst (filter_mset (\<lambda>p. snd p = v) R)" by force
  then have "j \<in> set (parts_of parts v)" unfolding eq [symmetric] by simp
  then have "parts_of parts v \<noteq> []" by auto
  then obtain k ks where ks: "parts v = Some (k # ks)" "parts_of parts v = k # ks"
    by (auto simp: parts_of_def split: option.splits list.splits) (metis neq_Nil_conv)
  let ?i = "last (k # ks)" and ?parts' = "parts(v \<mapsto> butlast (k # ks))"
  have take: "take_part_index parts v = Inr (?i, ?parts')" by (simp add: take_part_index_def ks)
  have "?i \<in># image_mset fst (filter_mset (\<lambda>p. snd p = v) R)"
    unfolding eq [symmetric] ks(2) by (metis last_in_set list.distinct(1) set_mset_mset)
  then have i: "(?i, v) \<in># R" by auto
  then obtain R' where R': "R = add_mset (?i, v) R'" by (metis insert_DiffM)
  have "mset (k # ks) = add_mset ?i (mset (butlast (k # ks)))"
    by (metis append_butlast_last_id list.distinct(1) mset.simps(1) mset.simps(2) mset_append
        add_mset_add_single)
  then have "mset (butlast (k # ks)) = image_mset fst (filter_mset (\<lambda>p. snd p = v) R')"
    using eq ks(2) R' by simp
  moreover have "mset (parts_of parts w) = image_mset fst (filter_mset (\<lambda>p. snd p = w) R')" if "w \<noteq> v" for w
    using rep R' that by (simp add: represents_def)
  ultimately have "represents ?parts' R'"
    unfolding represents_def parts_of_upd by presburger
  then show ?thesis using take i R' by auto
qed

text \<open>The parts a list of stage outputs, or of direct inputs, has taken.\<close>

fun output_part :: "split_stage_output \<Rightarrow> (nat \<times> nat) option" where
  "output_part out = (case out_part_index out of None \<Rightarrow> None | Some i \<Rightarrow> Some (i, out_value out))"

definition output_parts :: "split_stage_output list \<Rightarrow> (nat \<times> nat) list" where
  "output_parts outs = List.map_filter output_part outs"

definition stage_parts :: "split_stage_plan list \<Rightarrow> (nat \<times> nat) list" where
  "stage_parts stages = concat (map (\<lambda>s. output_parts (stage_outputs s)) stages)"

definition direct_parts :: "direct_migration_input list \<Rightarrow> (nat \<times> nat) list" where
  "direct_parts inputs = map (\<lambda>d. (direct_part_index d, direct_value d)) inputs"

fun kind_of :: "prep_output \<Rightarrow> split_terminal_kind" where
  "kind_of (Funding _) = Migration"
| "kind_of (Intermediate _) = Continuation"
| "kind_of (Change _) = OrchardChange"

definition same_outputs :: "split_stage_output list \<Rightarrow> prep_output list \<Rightarrow> bool" where
  "same_outputs outs xs \<longleftrightarrow>
     map (\<lambda>o'. (out_value o', out_kind o')) outs = map (\<lambda>x. (prep_output_value x, kind_of x)) xs"

lemma output_parts_simps [simp]:
  "output_parts [] = []"
  "output_parts (\<lparr> out_value = v, out_kind = k, out_part_index = Some i \<rparr> # outs) = (i, v) # output_parts outs"
  "output_parts (\<lparr> out_value = v, out_kind = k, out_part_index = None \<rparr> # outs) = output_parts outs"
  by (simp_all add: output_parts_def map_filter_simps)

lemma translate_outputs_ok:
  assumes "represents parts R" and "mset (List.map_filter funding_value xs) \<subseteq># image_mset snd R"
  shows "\<exists>outs parts' R'. translate_outputs xs parts = Inr (outs, parts') \<and> represents parts' R' \<and>
    R = R' + mset (output_parts outs) \<and> image_mset snd R = image_mset snd R' + mset (List.map_filter funding_value xs) \<and>
    same_outputs outs xs"
  using assms
proof (induction xs arbitrary: parts R)
  case Nil
  then show ?case by (simp add: map_filter_simps same_outputs_def)
next
  case (Cons x xs)
  show ?case
  proof (cases x)
    case (Funding v)
    then have "v \<in># image_mset snd R" using Cons.prems(2) by (auto simp: map_filter_simps dest: mset_subset_eqD)
    from take_part_ok [OF Cons.prems(1) this] obtain i parts' where
      t: "take_part_index parts v = Inr (i, parts')" "(i, v) \<in># R" "represents parts' (R - {#(i, v)#})" by blast
    obtain R1 where R1: "R = add_mset (i, v) R1" using t(2) by (metis insert_DiffM)
    have "mset (List.map_filter funding_value xs) \<subseteq># image_mset snd R1"
      using Cons.prems(2) Funding R1 by (simp add: map_filter_simps)
    moreover have "represents parts' R1" using t(3) R1 by simp
    ultimately obtain outs parts'' R' where
      "translate_outputs xs parts' = Inr (outs, parts'')" "represents parts'' R'"
      "R1 = R' + mset (output_parts outs)"
      "image_mset snd R1 = image_mset snd R' + mset (List.map_filter funding_value xs)" "same_outputs outs xs"
      using Cons.IH by blast
    then show ?thesis using Funding t(1) R1 by (auto simp: map_filter_simps same_outputs_def)
  next
    case (Intermediate v)
    then show ?thesis using Cons by (fastforce simp: map_filter_simps same_outputs_def)
  next
    case (Change v)
    then show ?thesis using Cons by (fastforce simp: map_filter_simps same_outputs_def)
  qed
qed

lemma translate_direct_ok:
  assumes "represents parts R" and "mset (map snd direct) \<subseteq># image_mset snd R"
    and "\<forall>(i, v) \<in> set direct. i < length indices"
  shows "\<exists>inputs parts' R'. translate_direct indices direct parts = Inr (inputs, parts') \<and> represents parts' R' \<and>
    R = R' + mset (direct_parts inputs) \<and> image_mset snd R = image_mset snd R' + mset (map snd direct) \<and>
    map (\<lambda>d. (direct_input_index d, direct_value d)) inputs = map (\<lambda>(i, v). (indices ! i, v)) direct"
  using assms
proof (induction direct arbitrary: parts R)
  case Nil
  then show ?case by (simp add: direct_parts_def)
next
  case (Cons e rest)
  obtain j v where e: "e = (j, v)" by (cases e)
  have "v \<in># image_mset snd R" using Cons.prems(2) e by (auto dest: mset_subset_eqD)
  from take_part_ok [OF Cons.prems(1) this] obtain i parts' where
    t: "take_part_index parts v = Inr (i, parts')" "(i, v) \<in># R" "represents parts' (R - {#(i, v)#})" by blast
  obtain R1 where R1: "R = add_mset (i, v) R1" using t(2) by (metis insert_DiffM)
  have sub: "mset (map snd rest) \<subseteq># image_mset snd R1" using Cons.prems(2) e R1 by simp
  have rep1: "represents parts' R1" using t(3) R1 by simp
  have "\<forall>(i, v) \<in> set rest. i < length indices" using Cons.prems(3) by simp
  from Cons.IH [OF rep1 sub this] obtain inputs parts'' R' where
    h: "translate_direct indices rest parts' = Inr (inputs, parts'')" "represents parts'' R'"
    "R1 = R' + mset (direct_parts inputs)" "image_mset snd R1 = image_mset snd R' + mset (map snd rest)"
    "map (\<lambda>d. (direct_input_index d, direct_value d)) inputs = map (\<lambda>(i, v). (indices ! i, v)) rest" by blast
  have "nth_index indices j DirectIndexOutOfRange = Inr (indices ! j)"
    using Cons.prems(3) e by (simp add: nth_index_def)
  then have "translate_direct indices (e # rest) parts =
      Inr (\<lparr> direct_input_index = indices ! j, direct_part_index = i, direct_value = v \<rparr> # inputs, parts'')"
    using e t(1) h(1) by simp
  then show ?case using h(2-5) R1 e by (auto simp: direct_parts_def)
qed

section \<open>Transactions in order\<close>

lemma located_transactions_snoc:
  "located_transactions (layers @ [txs]) = located_transactions layers @
     map (\<lambda>(ti, tx). ((length layers, ti), tx)) (enumerate 0 txs)"
  by (simp add: located_transactions_def enumerate_append_eq)

lemma in_located_transactions:
  "((l, t), tx) \<in> set (located_transactions layers) \<longleftrightarrow>
     l < length layers \<and> t < length (layers ! l) \<and> tx = layers ! l ! t"
  by (force simp: located_transactions_def in_set_enumerate_eq)

lemma located_transactions_sorted:
  "sorted_wrt (\<lambda>a b. fst (fst a) \<le> fst (fst b)) (located_transactions layers)"
proof (induction layers rule: rev_induct)
  case (snoc txs layers)
  have "sorted_wrt (\<lambda>a b. fst (fst a) \<le> fst (fst b)) (map (\<lambda>(ti, tx). ((length layers, ti), tx)) es)"
    for es :: "(nat \<times> prep_transaction) list"
    by (induction es) auto
  then show ?case
    using snoc by (force simp: located_transactions_snoc sorted_wrt_append in_located_transactions)
qed (simp add: located_transactions_def)

lemma located_transactions_distinct: "distinct (map fst (located_transactions layers))"
proof (induction layers rule: rev_induct)
  case (snoc txs layers)
  have "map fst (map (\<lambda>(ti, tx). ((length layers, ti), tx)) (enumerate 0 txs)) =
      map (\<lambda>ti. (length layers, ti)) (map fst (enumerate 0 txs))"
    by (simp only: map_map comp_def case_prod_unfold fst_conv)
  then have "distinct (map fst (map (\<lambda>(ti, tx). ((length layers, ti), tx)) (enumerate 0 txs)))"
    by (simp add: distinct_map inj_on_def)
  moreover have "fst ` set (located_transactions layers) \<inter>
      fst ` set (map (\<lambda>(ti, tx). ((length layers, ti), tx)) (enumerate 0 txs)) = {}"
    by (auto simp: in_located_transactions)
  ultimately show ?case
    using snoc unfolding located_transactions_snoc map_append distinct_append set_map by blast
qed (simp add: located_transactions_def)

lemma map_snd_located_transactions: "map snd (located_transactions layers) = concat layers"
  by (induction layers rule: rev_induct)
    (simp_all add: located_transactions_snoc case_prod_unfold comp_def, simp add: located_transactions_def)

lemma located_before:
  assumes "located_transactions layers = pre @ ((l, t), tx) # post"
    and "l' < l" and "l' < length layers" and "t' < length (layers ! l')"
  shows "((l', t'), layers ! l' ! t') \<in> set pre"
proof -
  have "((l', t'), layers ! l' ! t') \<in> set (pre @ ((l, t), tx) # post)"
    unfolding assms(1) [symmetric] using assms(3,4) by (simp add: in_located_transactions)
  moreover have "\<forall>b \<in> set post. l \<le> fst (fst b)"
    using located_transactions_sorted [of layers] unfolding assms(1) by (auto simp: sorted_wrt_append)
  ultimately show ?thesis using assms(2) by force
qed

section \<open>Stages\<close>

text \<open>
  A stage spends wallet notes at their own values or continuation outputs of earlier stages, it
  balances with the stage fee, and it keeps to the padded number of actions.
\<close>

definition stage_input_ok :: "nat list \<Rightarrow> nat list \<Rightarrow> split_stage_plan list \<Rightarrow> nat \<Rightarrow> split_stage_input \<Rightarrow> bool" where
  "stage_input_ok indices available stages k inp = (case inp of
     Original i v \<Rightarrow> \<exists>j < length available. indices ! j = i \<and> available ! j = v
   | Prior p q v \<Rightarrow> p < k \<and> q < length (stage_outputs (stages ! p)) \<and>
       out_value (stage_outputs (stages ! p) ! q) = v \<and>
       out_kind (stage_outputs (stages ! p) ! q) = Continuation)"

definition stage_ok :: "nat list \<Rightarrow> nat list \<Rightarrow> nat \<Rightarrow> split_stage_plan list \<Rightarrow> nat \<Rightarrow> bool" where
  "stage_ok indices available fee stages k \<longleftrightarrow>
     (\<forall>inp \<in> set (stage_inputs (stages ! k)). stage_input_ok indices available stages k inp) \<and>
     sum_list (map stage_input_value (stage_inputs (stages ! k))) =
       sum_list (map out_value (stage_outputs (stages ! k))) + fee \<and>
     requested_actions (stages ! k) = length (stage_inputs (stages ! k)) + length (stage_outputs (stages ! k)) \<and>
     requested_actions (stages ! k) \<le> DENOMINATION_SPLIT_ACTIONS \<and> stage_fee (stages ! k) = fee"

lemma stage_input_ok_append:
  "k \<le> length stages \<Longrightarrow> stage_input_ok indices available stages k inp \<Longrightarrow>
   stage_input_ok indices available (stages @ rest) k inp"
  by (cases inp) (auto simp: stage_input_ok_def nth_append)

lemma stage_ok_append:
  "k < length stages \<Longrightarrow> stage_ok indices available fee stages k \<Longrightarrow>
   stage_ok indices available fee (stages @ rest) k"
  unfolding stage_ok_def nth_append by (simp add: stage_input_ok_append)

definition translated :: "nat list \<Rightarrow> nat list \<Rightarrow> nat \<Rightarrow> ((nat \<times> nat) \<times> prep_transaction) list \<Rightarrow>
    coordinates \<Rightarrow> split_stage_plan list \<Rightarrow> bool" where
  "translated indices available fee processed coordinates stages \<longleftrightarrow>
     length stages = length processed \<and>
     (\<forall>k < length processed. coordinates (fst (processed ! k)) = Some k \<and>
        same_outputs (stage_outputs (stages ! k)) (prep_outputs (snd (processed ! k))) \<and>
        stage_layer_index (stages ! k) = fst (fst (processed ! k)) \<and>
        stage_ok indices available fee stages k)"

lemma same_outputs_length: "same_outputs outs xs \<Longrightarrow> length outs = length xs"
  unfolding same_outputs_def by (metis length_map)

lemma same_outputs_nth:
  "same_outputs outs xs \<Longrightarrow> p < length xs \<Longrightarrow>
   out_value (outs ! p) = prep_output_value (xs ! p) \<and> out_kind (outs ! p) = kind_of (xs ! p)"
  unfolding same_outputs_def by (metis (no_types, lifting) fst_conv snd_conv length_map nth_map)

lemma same_outputs_value: "same_outputs outs xs \<Longrightarrow> sum_list (map out_value outs) = outputs_value xs"
  unfolding same_outputs_def outputs_value_def
  by (drule arg_cong [where f = "map fst"]) (simp add: comp_def)

lemma translate_input_ok:
  assumes fin: "\<And>l' t'. l' < l \<Longrightarrow> l' < length layers \<Longrightarrow> t' < length (layers ! l') \<Longrightarrow>
      ((l', t'), layers ! l' ! t') \<in> set processed"
    and t: "translated indices available fee processed coordinates stages"
    and idx: "length indices = length available"
    and n: "case n of
      WalletNote i v \<Rightarrow> i < length available \<and> available ! i = v
    | PriorNote l' t' p v \<Rightarrow> l' < l \<and> l' < length layers \<and> t' < length (layers ! l') \<and>
        p < length (prep_outputs (layers ! l' ! t')) \<and> prep_outputs (layers ! l' ! t') ! p = Intermediate v"
  shows "\<exists>inp. translate_input indices coordinates n = Inr inp \<and>
    stage_input_ok indices available stages (length stages) inp \<and> stage_input_value inp = prep_input_value n"
proof (cases n)
  case (WalletNote i v)
  then show ?thesis using n idx by (auto simp: nth_index_def stage_input_ok_def)
next
  case (PriorNote l' t' p v)
  then have mem: "((l', t'), layers ! l' ! t') \<in> set processed" using n fin by simp
  then obtain k where k: "k < length processed" "processed ! k = ((l', t'), layers ! l' ! t')" by (auto simp: in_set_conv_nth)
  then have c: "coordinates (l', t') = Some k" and
    out: "same_outputs (stage_outputs (stages ! k)) (prep_outputs (layers ! l' ! t'))" and
    len: "k < length stages"
    using t by (auto simp: translated_def dest: spec [of _ k])
  have p: "p < length (prep_outputs (layers ! l' ! t'))" "prep_outputs (layers ! l' ! t') ! p = Intermediate v"
    using n PriorNote by auto
  show ?thesis
    using PriorNote c len same_outputs_nth [OF out p(1)] same_outputs_length [OF out] p
    by (simp add: stage_input_ok_def)
qed

lemma collect_inputs:
  assumes "\<And>n. n \<in> set ns \<Longrightarrow> \<exists>inp. f n = Inr inp \<and> P inp \<and> stage_input_value inp = prep_input_value n"
  shows "\<exists>inputs. collect_results (map f ns) = Inr inputs \<and> (\<forall>inp \<in> set inputs. P inp) \<and>
    length inputs = length ns \<and> sum_list (map stage_input_value inputs) = inputs_value ns"
  using assms
proof (induction ns)
  case (Cons n ns)
  obtain inp where "f n = Inr inp" "P inp" "stage_input_value inp = prep_input_value n" using Cons.prems by auto
  moreover obtain inputs where "collect_results (map f ns) = Inr inputs" "\<forall>inp \<in> set inputs. P inp"
    "length inputs = length ns" "sum_list (map stage_input_value inputs) = inputs_value ns"
    using Cons by auto
  ultimately show ?case by auto
qed simp

lemma translate_transaction_ok:
  assumes t: "translated indices available fee processed coordinates stages"
    and rep: "represents parts R"
    and fund: "mset (List.map_filter funding_value (prep_outputs tx)) \<subseteq># image_mset snd R"
    and inputs: "\<And>n. n \<in> set (prep_inputs tx) \<Longrightarrow> \<exists>inp. translate_input indices coordinates n = Inr inp \<and>
      stage_input_ok indices available stages (length stages) inp \<and> stage_input_value inp = prep_input_value n"
    and ok: "tx_ok fee tx" and small: "inputs_value (prep_inputs tx) < 2 ^ 64"
    and fresh: "(l, ti) \<notin> fst ` set processed"
  shows "\<exists>parts' R' outs s.
    translate_transaction indices fee (parts, coordinates, stages) ((l, ti), tx) =
      Inr (parts', coordinates((l, ti) \<mapsto> length stages), stages @ [s]) \<and>
    stage_outputs s = outs \<and> represents parts' R' \<and> R = R' + mset (output_parts outs) \<and>
    image_mset snd R = image_mset snd R' + mset (List.map_filter funding_value (prep_outputs tx)) \<and>
    translated indices available fee (processed @ [((l, ti), tx)]) (coordinates((l, ti) \<mapsto> length stages)) (stages @ [s])"
proof -
  obtain ins where ins: "collect_results (map (translate_input indices coordinates) (prep_inputs tx)) = Inr ins"
    "\<forall>inp \<in> set ins. stage_input_ok indices available stages (length stages) inp"
    "length ins = length (prep_inputs tx)" "sum_list (map stage_input_value ins) = inputs_value (prep_inputs tx)"
    using collect_inputs [OF inputs] by blast
  obtain outs parts' R' where outs: "translate_outputs (prep_outputs tx) parts = Inr (outs, parts')"
    "represents parts' R'" "R = R' + mset (output_parts outs)"
    "image_mset snd R = image_mset snd R' + mset (List.map_filter funding_value (prep_outputs tx))"
    "same_outputs outs (prep_outputs tx)"
    using translate_outputs_ok [OF rep fund] by blast
  have val: "sum_list (map out_value outs) = outputs_value (prep_outputs tx)"
    by (rule same_outputs_value [OF outs(5)])
  have actions: "length ins + length outs \<le> DENOMINATION_SPLIT_ACTIONS"
    using ok same_outputs_length [OF outs(5)] ins(3)
    by (simp add: tx_ok_def action_count_def DENOMINATION_SPLIT_ACTIONS_def)
  have bal: "sum_list (map stage_input_value ins) = sum_list (map out_value outs) + fee"
    using ok ins(4) val by (simp add: tx_ok_def)
  let ?s = "\<lparr> stage_layer_index = l, stage_inputs = ins, stage_outputs = outs, stage_fee = fee,
    requested_actions = length ins + length outs \<rparr>"
  have "sum_list (map stage_input_value ins) < 2 ^ 64" using ins(4) small by simp
  then have eq: "translate_transaction indices fee (parts, coordinates, stages) ((l, ti), tx) =
      Inr (parts', coordinates((l, ti) \<mapsto> length stages), stages @ [?s])"
    using ins(1) outs(1) actions bal
    by (simp add: translate_transaction_def checked_sum_eq checked_add_def Let_def)
  have "stage_ok indices available fee (stages @ [?s]) (length stages)"
    using ins(2) bal actions by (simp add: stage_ok_def stage_input_ok_append)
  moreover have "fst (processed ! k) \<noteq> (l, ti)" if "k < length processed" for k
    using fresh that by (metis image_eqI nth_mem)
  ultimately have "translated indices available fee (processed @ [((l, ti), tx)])
      (coordinates((l, ti) \<mapsto> length stages)) (stages @ [?s])"
    using t outs(5) by (auto simp: translated_def nth_append less_Suc_eq intro: stage_ok_append)
  then show ?thesis using eq outs(2-4) by (intro exI) auto
qed

section \<open>The whole translation\<close>

definition padded_ok :: "nat list \<Rightarrow> nat list \<Rightarrow> nat \<Rightarrow> nat list \<Rightarrow> padded_denomination_plan \<Rightarrow> bool" where
  "padded_ok indices available fee funding plan \<longleftrightarrow>
     (\<forall>k < length (padded_stages plan). stage_ok indices available fee (padded_stages plan) k) \<and>
     (\<forall>d \<in> set (direct_migration_inputs plan). \<exists>j < length available.
        indices ! j = direct_input_index d \<and> available ! j = direct_value d) \<and>
     sorted (map direct_part_index (direct_migration_inputs plan)) \<and>
     mset (direct_parts (direct_migration_inputs plan) @ stage_parts (padded_stages plan)) =
       mset (enumerate 0 funding)"

lemma funding_of_sublist:
  assumes "es = pre @ ((l, t), tx) # post"
  shows "mset (List.map_filter funding_value (concat (map (\<lambda>e. prep_outputs (snd e)) es))) =
    mset (List.map_filter funding_value (concat (map (\<lambda>e. prep_outputs (snd e)) pre))) +
    mset (List.map_filter funding_value (prep_outputs tx)) +
    mset (List.map_filter funding_value (concat (map (\<lambda>e. prep_outputs (snd e)) post)))"
  by (simp add: assms map_filter_append)

lemma stage_parts_snoc [simp]: "stage_parts (stages @ [s]) = stage_parts stages @ output_parts (stage_outputs s)"
  by (simp add: stage_parts_def)

theorem translate_sound:
  assumes sound: "plan_sound available fee funding plan"
    and fs: "mset fs = mset (funding_notes plan)"
    and idx: "length indices = length available" and small: "sum_list available < 2 ^ 64"
  shows "\<exists>p. translate_preparation_plan plan d indices fs fee = Inr p \<and> padded_denominations p = d \<and>
    padded_ok indices available fee fs p \<and> length (padded_stages p) = transaction_count plan \<and>
    padded_layer_count p = layer_count plan"
proof -
  let ?L = "located_transactions (plan_layers plan)"
  let ?all = "mset (enumerate 0 fs)"
  let ?F = "\<lambda>es. mset (List.map_filter funding_value (concat (map (\<lambda>e. prep_outputs (snd e)) es)))"
  let ?wallet = "layer_wallet available (direct_funding plan)"
  have ok: "plan_ok ?wallet fee (plan_layers plan)" using sound by (simp add: plan_sound_def)
  have "map (\<lambda>e. prep_outputs (snd e)) ?L = map prep_outputs (concat (plan_layers plan))"
    unfolding map_snd_located_transactions [of "plan_layers plan", symmetric] by simp
  then have allF: "?F ?L = minted (plan_layers plan)" by (simp add: minted_def all_outputs_def)
  have vals: "image_mset snd ?all = mset (map snd (direct_funding plan)) + ?F ?L"
    using fs unfolding allF by (simp add: funding_notes_def minted_def flip: mset_map)
  have direct_idx: "\<forall>(i, v) \<in> set (direct_funding plan). i < length indices"
    using sound idx by (auto simp: plan_sound_def)
  obtain dirs parts R where dirs: "translate_direct indices (direct_funding plan) (initial_parts fs) = Inr (dirs, parts)"
    "represents parts R" "?all = R + mset (direct_parts dirs)"
    "image_mset snd ?all = image_mset snd R + mset (map snd (direct_funding plan))"
    "map (\<lambda>d. (direct_input_index d, direct_value d)) dirs = map (\<lambda>(i, v). (indices ! i, v)) (direct_funding plan)"
    using translate_direct_ok [OF represents_initial _ direct_idx, of fs] vals by auto
  have Rvals: "image_mset snd R = ?F ?L" using dirs(4) vals by (simp add: ac_simps)
  define I where "I processed state \<longleftrightarrow> (case state of (parts', coordinates, stages) \<Rightarrow>
      translated indices available fee processed coordinates stages \<and>
      (\<exists>R'. represents parts' R' \<and> R = R' + mset (stage_parts stages) \<and>
        image_mset snd R = image_mset snd R' + ?F processed))"
    for processed and state :: translation
  have "\<exists>state. try_fold (translate_transaction indices fee) (parts, Map.empty, []) ?L = Inr state \<and> I ?L state"
  proof (rule try_fold_prefix)
    show "I [] (parts, Map.empty, [])"
      using dirs(2) by (auto simp: I_def translated_def stage_parts_def map_filter_simps)
    fix pre x post and state :: translation
    assume split: "?L = pre @ x # post" and inv: "I pre state"
    obtain l t tx where x: "x = ((l, t), tx)" by (metis prod.exhaust)
    obtain parts' coordinates stages where st: "state = (parts', coordinates, stages)" by (metis prod.exhaust)
    obtain R' where tr: "translated indices available fee pre coordinates stages" and
      R': "represents parts' R'" "R = R' + mset (stage_parts stages)"
      "image_mset snd R = image_mset snd R' + ?F pre"
      using inv by (auto simp: I_def st)
    have "((l, t), tx) \<in> set ?L" by (simp add: split x)
    then have at: "l < length (plan_layers plan)" "t < length (plan_layers plan ! l)" "tx = plan_layers plan ! l ! t"
      by (simp_all add: in_located_transactions)
    then have txin: "tx \<in> set (plan_layers plan ! l)" by simp
    then have txall: "tx \<in> set (concat (plan_layers plan))" using at(1) by auto
    have "image_mset snd R' = mset (List.map_filter funding_value (prep_outputs tx)) + ?F post"
      using funding_of_sublist [OF split [unfolded x]] R'(3) Rvals by (simp add: ac_simps)
    then have fund: "mset (List.map_filter funding_value (prep_outputs tx)) \<subseteq># image_mset snd R'" by simp
    have inputs: "\<exists>inp. translate_input indices coordinates n = Inr inp \<and>
        stage_input_ok indices available stages (length stages) inp \<and> stage_input_value inp = prep_input_value n"
      if n: "n \<in> set (prep_inputs tx)" for n
    proof (rule translate_input_ok [OF _ tr idx])
      show "((l', t'), plan_layers plan ! l' ! t') \<in> set pre"
        if "l' < l" "l' < length (plan_layers plan)" "t' < length (plan_layers plan ! l')" for l' t'
        by (rule located_before [OF split [unfolded x] that])
      show "case n of WalletNote i v \<Rightarrow> i < length available \<and> available ! i = v
        | PriorNote l' t' p v \<Rightarrow> l' < l \<and> l' < length (plan_layers plan) \<and> t' < length (plan_layers plan ! l') \<and>
          p < length (prep_outputs (plan_layers plan ! l' ! t')) \<and> prep_outputs (plan_layers plan ! l' ! t') ! p = Intermediate v"
        using plan_input_cases [OF sound at(1) txin n] at(1) by (auto split: prep_input.splits)
    qed
    have "inputs_value (prep_inputs tx) \<le> wallet_total ?wallet"
      by (rule tx_value_le [OF ok finite_layer_wallet txall])
    then have "inputs_value (prep_inputs tx) < 2 ^ 64"
      using layer_wallet_total [of available "direct_funding plan"] small by linarith
    moreover have "(l, t) \<notin> fst ` set pre"
      using located_transactions_distinct [of "plan_layers plan"] by (auto simp: split x)
    ultimately obtain parts'' R'' s where step:
      "translate_transaction indices fee (parts', coordinates, stages) ((l, t), tx) =
        Inr (parts'', coordinates((l, t) \<mapsto> length stages), stages @ [s])"
      "represents parts'' R''" "R' = R'' + mset (output_parts (stage_outputs s))"
      "image_mset snd R' = image_mset snd R'' + mset (List.map_filter funding_value (prep_outputs tx))"
      "translated indices available fee (pre @ [((l, t), tx)]) (coordinates((l, t) \<mapsto> length stages)) (stages @ [s])"
      using translate_transaction_ok [OF tr R'(1) fund inputs plan_tx_ok [OF sound txall]] by blast
    have "I (pre @ [x]) (parts'', coordinates((l, t) \<mapsto> length stages), stages @ [s])"
      using step(2-5) R'(2,3) unfolding I_def x
      by (auto intro!: exI [of _ R''] simp: map_filter_append ac_simps)
    then show "\<exists>state'. translate_transaction indices fee state x = Inr state' \<and> I (pre @ [x]) state'"
      using step(1) by (auto simp: st x)
  qed
  then obtain parts' coordinates stages R' where
    fold: "try_fold (translate_transaction indices fee) (parts, Map.empty, []) ?L = Inr (parts', coordinates, stages)" and
    tr: "translated indices available fee ?L coordinates stages" and
    R': "represents parts' R'" "R = R' + mset (stage_parts stages)" "image_mset snd R = image_mset snd R' + ?F ?L"
    by (auto simp: I_def)
  have empty: "R' = {#}" using R'(3) Rvals by simp
  then have none: "parts' v = None \<or> parts' v = Some []" for v using represents_end R'(1) by blast
  let ?p = "\<lparr> padded_denominations = d, padded_stages = stages, padded_layer_count = layer_count plan,
    direct_migration_inputs = sort_key direct_part_index dirs \<rparr>"
  have eq: "translate_preparation_plan plan d indices fs fee = Inr ?p"
    using dirs(1) fold none by (auto simp: translate_preparation_plan_def)
  have len: "length stages = transaction_count plan"
    using tr map_snd_located_transactions [of "plan_layers plan"]
    by (metis length_concat length_map transaction_count_def translated_def)
  have "mset (direct_parts (sort_key direct_part_index dirs)) = mset (direct_parts dirs)"
    by (simp add: direct_parts_def)
  then have parts: "mset (direct_parts (sort_key direct_part_index dirs) @ stage_parts stages) = ?all"
    using dirs(3) R'(2) empty by simp
  have "\<exists>j < length available. indices ! j = direct_input_index e \<and> available ! j = direct_value e"
    if e: "e \<in> set dirs" for e
  proof -
    have "(direct_input_index e, direct_value e) \<in> set (map (\<lambda>(i, v). (indices ! i, v)) (direct_funding plan))"
      unfolding dirs(5) [symmetric] using e by simp
    then show ?thesis using sound by (auto simp: plan_sound_def)
  qed
  then have "padded_ok indices available fee fs ?p"
    using tr parts by (simp add: padded_ok_def translated_def)
  then show ?thesis using eq len by auto
qed

end
