(* ===== verification/SplitPlanCorrect.thy ===== *)
theory SplitPlanCorrect
  imports SplitTranslate
begin

text \<open>
  Correctness of denomination planning over any preparation planner that is sound and ignores the
  order of the requested values; \<open>plan_preparation\<close> is one.
\<close>

locale preparation_planner =
  fixes mm :: nat and planner :: prep_planner
  assumes sound: "planner_bounds mm fee (length funding) \<Longrightarrow>
      no_panic (plan_sound available fee funding) (planner available funding fee)"
    and order_irrelevant: "mset funding = mset funding' \<Longrightarrow>
      planner available funding fee = planner available funding' fee"

section \<open>Facts that need no law\<close>

lemma length_canonical:
  "\<forall>c \<in> set cs. is_zip318_canonical_denomination c \<Longrightarrow> length cs * 1000000 \<le> sum_list cs"
proof (induction cs)
  case (Cons c cs)
  have "1000000 \<le> c" using Cons.prems canonical_bounds by simp
  then show ?case using Cons by simp
qed simp

lemma preparation_None_iff:
  "preparation_for_crossings mm planner ctx cs fee migration_fee = Inr None \<longleftrightarrow>
     (\<forall>c \<in> set cs. c + migration_fee < 2 ^ 64 \<and> c + migration_fee \<le> mm) \<and>
     (let r = planner (context_available ctx) (map (\<lambda>c. c + migration_fee) cs) (context_fee ctx);
          total = sum_list (map (\<lambda>c. c + migration_fee) cs) in
      r = Inl (Err InsufficientFunds) \<or>
      (\<exists>p. r = Inr p \<and> total + fee * transaction_count p < 2 ^ 64 \<and>
           context_total ctx < total + fee * transaction_count p))"
  by (auto simp: preparation_for_crossings_def funding_values_for_def and_then_eq_Inr
      collect_checked_add collect_typed committed_value_Inr Let_def
      split: sum.splits failure.splits prep_error.splits if_splits)

lemma try_candidates_None:
  "try_candidates mm planner ctx fee migration_fee crossings candidates = Inr None \<Longrightarrow>
   candidate \<in> set candidates \<Longrightarrow>
   preparation_for_crossings mm planner ctx (crossings @ candidate) fee migration_fee = Inr None"
proof (induction candidates)
  case (Cons c candidates)
  then obtain r where r: "preparation_for_crossings mm planner ctx (crossings @ c) fee migration_fee = Inr r"
    by (auto simp: and_then_eq_Inr)
  then show ?case using Cons by (cases r) auto
qed simp

definition plan_state :: "nat \<Rightarrow> prep_planner \<Rightarrow> planning_context \<Rightarrow> nat \<Rightarrow> nat \<Rightarrow> selection \<Rightarrow> bool" where
  "plan_state mm planner ctx fee migration_fee s \<longleftrightarrow> (case s of (cs, fs, p) \<Rightarrow>
     (\<forall>c \<in> set cs. is_zip318_canonical_denomination c) \<and>
     (cs = [] \<and> fs = [] \<and> p = \<lparr> plan_layers = [], direct_funding = [] \<rparr> \<or>
      accepts mm planner ctx fee migration_fee cs fs p))"

text \<open>Why planning stopped: the budget is too small, or nothing more can be prepared.\<close>

definition exhausted ::
  "nat \<Rightarrow> prep_planner \<Rightarrow> planning_context \<Rightarrow> nat \<Rightarrow> nat \<Rightarrow> nat \<Rightarrow>
     (nat \<Rightarrow> 'g \<Rightarrow> denomination_refinement \<times> 'g) \<Rightarrow> selection \<Rightarrow> bool" where
  "exhausted mm planner ctx fee migration_fee minimum_funding refine s \<longleftrightarrow> (case s of (cs, fs, p) \<Rightarrow>
     let budget = context_total ctx - (sum_list fs + fee * transaction_count p) in
     budget < minimum_funding \<or>
     (migration_fee \<le> budget \<and> (\<exists>g g'. search_denomination mm planner ctx fee migration_fee refine cs
        (min (budget - migration_fee) ZIP318_MAX_MIGRATION_DENOMINATION_ZATOSHI) g = Inr (None, g'))))"

lemma planning_loop_result:
  "planning_loop mm planner ctx fee migration_fee minimum_funding refine cs fs p g = Inr (s, g') \<Longrightarrow>
   plan_state mm planner ctx fee migration_fee (cs, fs, p) \<Longrightarrow>
   plan_state mm planner ctx fee migration_fee s \<and>
   exhausted mm planner ctx fee migration_fee minimum_funding refine s"
proof (induction mm planner ctx fee migration_fee minimum_funding refine cs fs p g
    rule: planning_loop.induct)
  case (1 mm planner ctx fee migration_fee minimum_funding refine cs fs p g)
  obtain committed where c: "committed_value fs p fee = Inr committed"
    using 1(2) by (subst (asm) planning_loop.simps) (auto simp: and_then_eq_Inr)
  then have committed: "committed = sum_list fs + fee * transaction_count p" by (simp add: committed_value_Inr)
  let ?budget = "context_total ctx - committed"
  show ?case
  proof (cases "?budget < minimum_funding")
    case True
    then have "s = (cs, fs, p)" using 1(2) c by (subst (asm) planning_loop.simps) (simp add: Let_def)
    then show ?thesis using True 1(3) by (simp add: exhausted_def committed Let_def)
  next
    case False
    obtain after accepted g1 where a: "sub_u ?budget migration_fee = (Inr after :: nat split_result)" and
      search: "search_denomination mm planner ctx fee migration_fee refine cs
        (min after ZIP318_MAX_MIGRATION_DENOMINATION_ZATOSHI) g = Inr (accepted, g1)" and
      rest: "(case accepted of None \<Rightarrow> Inr ((cs, fs, p), g1)
       | Some (cs', fs', p') \<Rightarrow>
           planning_loop mm planner ctx fee migration_fee minimum_funding refine cs' fs' p' g1) = Inr (s, g')"
      using 1(2) c False
      by (subst (asm) planning_loop.simps) (auto simp: and_then_eq_Inr Let_def)
    have after: "after = ?budget - migration_fee" "migration_fee \<le> ?budget" using sub_u_InrD [OF a] by simp_all
    show ?thesis
    proof (cases accepted)
      case None
      then have "s = (cs, fs, p)" using rest by simp
      then show ?thesis using 1(3) search None after by (auto simp: exhausted_def committed Let_def)
    next
      case (Some t)
      obtain cs' fs' p' where t: "t = (cs', fs', p')" by (cases t)
      obtain candidate greedy where "cs' = cs @ candidate" "splits_of greedy candidate"
        and acc: "accepts mm planner ctx fee migration_fee cs' fs' p'"
        using search_denomination_Some [OF search [unfolded Some t]] by blast
      then have "plan_state mm planner ctx fee migration_fee (cs', fs', p')"
        using 1(3) by (auto simp: plan_state_def splits_of_def)
      then show ?thesis
        using 1(1) [OF c refl False a search refl Some t [symmetric] refl] rest Some t by simp
    qed
  qed
qed

section \<open>Finishing\<close>

lemma zip_map_right: "zip cs (map f cs) = map (\<lambda>c. (c, f c)) cs"
  by (induction cs) auto

lemma sort_pairs: "sort (map (\<lambda>c. (c, c + fee)) cs) = map (\<lambda>c. (c, c + fee)) (sort (cs :: nat list))"
proof (rule properties_for_sort)
  have "sorted (map (\<lambda>c. (c, c + fee)) xs)" if "sorted xs" for xs :: "nat list"
    using that by (induction xs) (auto simp: less_eq_prod_def)
  then show "sorted (map (\<lambda>c. (c, c + fee)) (sort cs))" by simp
qed simp

lemma finish_pairs:
  "rev (sort (zip cs (map (\<lambda>c. c + fee) cs))) = map (\<lambda>c. (c, c + fee)) (sort_desc (cs :: nat list))"
  by (simp only: zip_map_right sort_pairs sort_desc_def rev_map)

lemma finish_order:
  assumes "mset cs = mset cs'"
  shows "finish_plan ctx cs (map (\<lambda>c. c + migration_fee) cs) p fee migration_fee minimum =
    finish_plan ctx cs' (map (\<lambda>c. c + migration_fee) cs') p fee migration_fee minimum"
proof -
  have "cs = [] \<longleftrightarrow> cs' = []" using assms by auto
  then show ?thesis
    using sort_desc_mset_eq [OF assms] by (simp add: finish_plan_def finish_pairs Let_def)
qed

lemma finish_outputs:
  assumes "finish_plan ctx cs (map (\<lambda>c. c + migration_fee) cs) p fee migration_fee minimum = Inr (Some plan)"
  shows "migration_outputs (padded_denominations plan) = sort_desc cs" and "cs \<noteq> []"
proof -
  show ne: "cs \<noteq> []" using assms by (auto simp: finish_plan_def)
  have "padded_denominations plan' = d"
    if "translate_preparation_plan p d indices fs fee = Inr plan'" for plan' d indices fs
    using that by (auto simp: translate_preparation_plan_def and_then_eq_Inr split: if_splits)
  then show "migration_outputs (padded_denominations plan) = sort_desc cs"
    using assms ne by (auto simp: finish_plan_def finish_pairs Let_def and_then_eq_Inr comp_def)
qed

lemma accepts_funding: "accepts mm planner ctx fee migration_fee cs fs p \<Longrightarrow> fs = map (\<lambda>c. c + migration_fee) cs"
  by (simp add: accepts_iff)

section \<open>Replaying approved denominations\<close>

context preparation_planner
begin

lemma accepts_order:
  assumes "accepts mm planner ctx fee migration_fee cs fs p" and "mset cs' = mset cs"
  shows "accepts mm planner ctx fee migration_fee cs' (map (\<lambda>c. c + migration_fee) cs') p"
proof -
  have "mset (map (\<lambda>c. c + migration_fee) cs') = mset (map (\<lambda>c. c + migration_fee) cs)"
    using assms(2) by simp
  then have "planner (context_available ctx) (map (\<lambda>c. c + migration_fee) cs') (context_fee ctx) =
      planner (context_available ctx) (map (\<lambda>c. c + migration_fee) cs) (context_fee ctx)"
    by (rule order_irrelevant)
  moreover have "set cs' = set cs" by (metis assms(2) set_mset_mset)
  moreover have "sum_list cs' = sum_list cs" "length cs' = length cs"
    using assms(2) sum_list_mset_eq mset_eq_length by blast+
  ultimately show ?thesis
    using assms(1) unfolding accepts_iff by (auto simp: sum_list_add_fee)
qed

lemma preparation_None_order:
  assumes "preparation_for_crossings mm planner ctx cs fee migration_fee = Inr None" and "mset cs' = mset cs"
  shows "preparation_for_crossings mm planner ctx cs' fee migration_fee = Inr None"
proof -
  have "mset (map (\<lambda>c. c + migration_fee) cs') = mset (map (\<lambda>c. c + migration_fee) cs)"
    using assms(2) by simp
  then have "planner (context_available ctx) (map (\<lambda>c. c + migration_fee) cs') (context_fee ctx) =
      planner (context_available ctx) (map (\<lambda>c. c + migration_fee) cs) (context_fee ctx)"
    by (rule order_irrelevant)
  moreover have "set cs' = set cs" by (metis assms(2) set_mset_mset)
  moreover have "sum_list cs' = sum_list cs" "length cs' = length cs"
    using assms(2) sum_list_mset_eq mset_eq_length by blast+
  ultimately show ?thesis
    using assms(1) unfolding preparation_None_iff by (simp add: sum_list_add_fee)
qed

lemma search_None_no_append:
  "search_denomination mm planner ctx fee migration_fee refine cs affordable g = Inr (None, g') \<Longrightarrow>
   mset cs' = mset cs \<Longrightarrow> can_append_loop mm planner ctx fee migration_fee cs' affordable = Inr False"
proof (induction affordable arbitrary: g rule: less_induct)
  case (less affordable)
  show ?case
  proof (cases "affordable < ZIP318_MAX_RESIDUAL_VALUE_ZATOSHI \<or> largest_zip318_denomination_at_or_below affordable = None")
    case True
    then show ?thesis by (subst can_append_loop.simps) (auto split: option.splits)
  next
    case False
    then obtain greedy where greedy: "largest_zip318_denomination_at_or_below affordable = Some greedy" by auto
    obtain r g1 where r1: "refine greedy g = (r, g1)" by fastforce
    obtain candidates where
      r: "refinement_value r = greedy" and
      c: "refinement_candidates r = Inr candidates" and
      t: "try_candidates mm planner ctx fee migration_fee cs candidates = Inr None" and
      rest: "greedy = ZIP318_MAX_RESIDUAL_VALUE_ZATOSHI \<or>
        search_denomination mm planner ctx fee migration_fee refine cs (greedy - 1) g1 = Inr (None, g')"
      using less.prems(1) [unfolded search_denomination.simps
          [of mm planner ctx fee migration_fee refine cs affordable g]] False greedy r1
      by (auto simp: and_then_eq_Inr simp del: not_None_eq split: if_splits)
    have "[greedy] \<in> set candidates" using root_candidate [OF c] r by simp
    then have "preparation_for_crossings mm planner ctx (cs @ [greedy]) fee migration_fee = Inr None"
      by (rule try_candidates_None [OF t])
    then have none: "preparation_for_crossings mm planner ctx (cs' @ [greedy]) fee migration_fee = Inr None"
      by (rule preparation_None_order) (simp add: less.prems(2))
    show ?thesis
    proof (cases "greedy = ZIP318_MAX_RESIDUAL_VALUE_ZATOSHI")
      case True
      then show ?thesis using \<open>\<not> _\<close> greedy none by (subst can_append_loop.simps) simp
    next
      case no: False
      have "can_append_loop mm planner ctx fee migration_fee cs' (greedy - 1) = Inr False"
        using less.IH [OF affordable_decreases [OF greedy]] rest no less.prems(2) by blast
      then show ?thesis using False greedy none no by (subst can_append_loop.simps) simp
    qed
  qed
qed

theorem replay:
  assumes plan: "plan_with_refiner mm planner refine g inputs fee migration_fee minimum = Inr (Some plan)"
  shows "plan_for_targets mm planner inputs (migration_outputs (padded_denominations plan))
    fee migration_fee minimum = Inr (Some plan)"
proof -
  obtain ctx minimum_funding cs fs p g' where
    ctx: "make_planning_context mm inputs fee minimum = Inr (Some ctx)" and
    min: "checked_add 64 ZIP318_MAX_RESIDUAL_VALUE_ZATOSHI migration_fee = Some minimum_funding" and
    loop: "planning_loop mm planner ctx fee migration_fee minimum_funding refine [] []
      \<lparr> plan_layers = [], direct_funding = [] \<rparr> g = Inr ((cs, fs, p), g')" and
    finish: "finish_plan ctx cs fs p fee migration_fee minimum = Inr (Some plan)"
    using plan unfolding plan_with_refiner_def
    by (auto simp: and_then_eq_Inr ok_or_eq_Inr split: option.splits prod.splits)
  have init: "plan_state mm planner ctx fee migration_fee ([], [], \<lparr> plan_layers = [], direct_funding = [] \<rparr>)"
    by (simp add: plan_state_def)
  note result = planning_loop_result [OF loop init]
  have "cs \<noteq> []" using finish by (auto simp: finish_plan_def)
  then have acc: "accepts mm planner ctx fee migration_fee cs fs p" and
    canonical: "\<forall>c \<in> set cs. is_zip318_canonical_denomination c"
    using result by (auto simp: plan_state_def)
  note fs = accepts_funding [OF acc]
  let ?ts = "sort_desc cs"
  have targets: "migration_outputs (padded_denominations plan) = ?ts"
    by (rule finish_outputs [OF finish [unfolded fs]])
  let ?fts = "map (\<lambda>c. c + migration_fee) ?ts"
  have acc': "accepts mm planner ctx fee migration_fee ?ts ?fts p" by (rule accepts_order [OF acc]) simp
  have sums: "sum_list ?fts = sum_list fs" by (simp add: fs sum_list_add_fee)
  have committed: "committed_value ?fts p fee = Inr (sum_list fs + fee * transaction_count p)"
    using acc' by (simp only: accepts_iff committed_value_Inr sums)
  have "can_append_canonical_denomination mm planner ctx ?ts ?fts p fee migration_fee = Inr False"
  proof (cases "context_total ctx - (sum_list fs + fee * transaction_count p) < minimum_funding")
    case True
    then show ?thesis by (simp add: can_append_canonical_denomination_def committed min Let_def)
  next
    case False
    then obtain h h' where fee_le: "migration_fee \<le> context_total ctx - (sum_list fs + fee * transaction_count p)" and
      search: "search_denomination mm planner ctx fee migration_fee refine cs
        (min (context_total ctx - (sum_list fs + fee * transaction_count p) - migration_fee)
          ZIP318_MAX_MIGRATION_DENOMINATION_ZATOSHI) h = Inr (None, h')"
      using result by (auto simp: exhausted_def Let_def)
    have "can_append_loop mm planner ctx fee migration_fee ?ts
        (min (context_total ctx - (sum_list fs + fee * transaction_count p) - migration_fee)
          ZIP318_MAX_MIGRATION_DENOMINATION_ZATOSHI) = Inr False"
      by (rule search_None_no_append [OF search]) simp
    then show ?thesis
      using False fee_le by (simp add: can_append_canonical_denomination_def committed min Let_def)
  qed
  moreover have "preparation_for_crossings mm planner ctx ?ts fee migration_fee = Inr (Some (?fts, p))"
    using acc' by (simp add: accepts_def)
  moreover have "finish_plan ctx ?ts ?fts p fee migration_fee minimum = Inr (Some plan)"
    using finish finish_order [of ?ts cs ctx migration_fee p fee minimum] by (simp add: fs)
  moreover have "?ts \<noteq> []" using \<open>cs \<noteq> []\<close> by (metis length_0_conv length_sort_desc)
  moreover have "find (\<lambda>v. \<not> is_zip318_canonical_denomination v) ?ts = None"
    using canonical by (simp add: find_None_iff)
  ultimately show ?thesis
    using ctx unfolding targets plan_for_targets_def by simp
qed

end

section \<open>What a planned migration guarantees\<close>

lemma make_context_facts:
  assumes "make_planning_context mm inputs fee minimum = Inr (Some ctx)"
  shows "positive_input_indices ctx = filter (\<lambda>i. 0 < inputs ! i) [0..<length inputs]"
    and "context_available ctx = map (\<lambda>i. inputs ! i) (positive_input_indices ctx)"
    and "context_total ctx = sum_list (context_available ctx)" and "context_total ctx < 2 ^ 64"
    and "context_fee ctx = fee" and "0 < fee" and "minimum = 1" and "context_total ctx = sum_list inputs"
proof -
  let ?idx = "filter (\<lambda>i. 0 < inputs ! i) [0..<length inputs]"
  show "positive_input_indices ctx = ?idx"
    and a: "context_available ctx = map (\<lambda>i. inputs ! i) (positive_input_indices ctx)"
    and t: "context_total ctx = sum_list (context_available ctx)" and "context_total ctx < 2 ^ 64"
    and "context_fee ctx = fee" and "0 < fee" and "minimum = 1"
    using assms
    by (auto simp: make_planning_context_def Let_def and_then_eq_Inr checked_sum_eq collect_typed simp del: map_map split: if_splits)
  have "sum_list (map ((!) inputs) (filter (\<lambda>i. 0 < inputs ! i) is)) = sum_list (map ((!) inputs) is)" for "is"
    by (induction "is") auto
  then show "context_total ctx = sum_list inputs"
    using t a \<open>positive_input_indices ctx = ?idx\<close> by (simp add: map_nth)
qed

definition migration_plan_ok ::
  "nat list \<Rightarrow> nat \<Rightarrow> nat \<Rightarrow> planning_context \<Rightarrow> padded_denomination_plan \<Rightarrow> bool" where
  "migration_plan_ok inputs fee migration_fee ctx plan \<longleftrightarrow>
     (let d = padded_denominations plan; outs = migration_outputs d;
          spent = sum_list outs + length outs * migration_fee + split_fee_zatoshi d in
      (\<forall>v \<in> set outs. is_zip318_canonical_denomination v) \<and> sorted_wrt (\<ge>) outs \<and>
      total_input_zatoshi d = sum_list inputs \<and> total_migratable_zatoshi d = sum_list outs \<and>
      split_fee_zatoshi d = fee * length (padded_stages plan) \<and>
      spent \<le> sum_list inputs \<and>
      orchard_change d = (if spent < sum_list inputs then Some (sum_list inputs - spent) else None) \<and>
      padded_ok (positive_input_indices ctx) (context_available ctx) fee
        (map (\<lambda>v. v + migration_fee) outs) plan)"

context preparation_planner
begin

lemma finish_sound:
  assumes ctx: "make_planning_context mm inputs fee minimum = Inr (Some ctx)"
    and acc: "accepts mm planner ctx fee migration_fee cs fs p" and ne: "cs \<noteq> []"
    and canonical: "\<forall>c \<in> set cs. is_zip318_canonical_denomination c"
    and bounds: "planner_bounds mm fee (length cs)"
  shows "\<exists>plan. finish_plan ctx cs fs p fee migration_fee minimum = Inr (Some plan) \<and>
    migration_plan_ok inputs fee migration_fee ctx plan"
proof -
  note c = make_context_facts [OF ctx]
  note fs = accepts_funding [OF acc]
  let ?cs = "sort_desc cs"
  let ?fs = "map (\<lambda>v. v + migration_fee) ?cs"
  have len: "length ?cs = length cs" by simp
  have planned: "planner (context_available ctx) fs fee = Inr p" and
    fits: "sum_list fs + fee * transaction_count p \<le> context_total ctx"
    using acc [unfolded accepts_iff] c(5) by auto
  have "no_panic (plan_sound (context_available ctx) fee fs) (planner (context_available ctx) fs fee)"
    by (rule sound) (use bounds fs in simp)
  then have ps: "plan_sound (context_available ctx) fee fs p" using planned by simp
  have "filter (\<lambda>v. 0 < v) fs = fs"
    using canonical canonical_bounds unfolding fs by (fastforce simp: filter_id_conv)
  then have fnotes: "mset ?fs = mset (funding_notes p)" using ps by (simp add: plan_sound_def fs)
  have sums: "sum_list ?fs = sum_list fs" "sum_list ?fs = sum_list ?cs + length ?cs * migration_fee"
    by (simp_all add: fs sum_list_add_fee)
  have small: "sum_list ?fs < 2 ^ 64" "fee * transaction_count p < 2 ^ 64" "sum_list ?cs < 2 ^ 64"
    using fits c(4) sums by linarith+
  let ?spent = "sum_list ?cs + length ?cs * migration_fee + fee * transaction_count p"
  let ?rest = "context_total ctx - ?spent"
  let ?d = "\<lparr> migration_outputs = ?cs, orchard_change = (if minimum \<le> ?rest then Some ?rest else None),
    split_fee_zatoshi = fee * transaction_count p, migration_fee_zatoshi = migration_fee,
    total_input_zatoshi = context_total ctx, total_migratable_zatoshi = sum_list ?cs \<rparr>"
  obtain plan where plan: "translate_preparation_plan p ?d (positive_input_indices ctx) ?fs fee = Inr plan"
    "padded_denominations plan = ?d"
    "padded_ok (positive_input_indices ctx) (context_available ctx) fee ?fs plan"
    "length (padded_stages plan) = transaction_count p"
    using translate_sound [OF ps fnotes, of "positive_input_indices ctx" ?d] c(2-4) by auto
  have subs: "checked_sub (context_total ctx) (sum_list ?fs) = Some (context_total ctx - sum_list ?fs)"
    "checked_sub (context_total ctx - sum_list ?fs) (fee * transaction_count p) = Some ?rest"
    using fits sums by (simp_all add: checked_sub_def)
  have steps: "ok_or (checked_mul 64 fee (transaction_count p)) (Err PreparationFeeOverflow) =
      (Inr (fee * transaction_count p) :: nat split_result)"
    "checked_sum ?fs (Err FundingTotalOverflow) = (Inr (sum_list ?fs) :: nat split_result)"
    "checked_sum ?cs (Err MigratableOverflow) = (Inr (sum_list ?cs) :: nat split_result)"
    using small by (simp_all add: checked_mul_def checked_sum_eq)
  have pairs: "map snd (map (\<lambda>c. (c, c + migration_fee)) ?cs) = ?fs" "map fst (map (\<lambda>c. (c, c + migration_fee)) ?cs) = ?cs"
    by (simp_all add: comp_def)
  have "finish_plan ctx cs fs p fee migration_fee minimum = Inr (Some plan)"
    unfolding finish_plan_def fs finish_pairs Let_def pairs
    by (simp only: if_not_P [OF ne] length_map refl not_True_eq_False if_False steps and_then_Inr subs
        option.case ok_or_simps plan(1))
  moreover have "migration_plan_ok inputs fee migration_fee ctx plan"
    using plan(2-4) canonical fits sums c(7,8)
    by (auto simp: migration_plan_ok_def Let_def)
  ultimately show ?thesis by blast
qed

theorem plan_guarantees:
  assumes plan: "plan_with_refiner mm planner refine g inputs fee migration_fee minimum = Inr (Some plan)"
    and bounds: "planner_bounds mm fee (sum_list inputs div 1000000)"
  shows "\<exists>ctx. make_planning_context mm inputs fee minimum = Inr (Some ctx) \<and>
    migration_plan_ok inputs fee migration_fee ctx plan"
proof -
  obtain ctx minimum_funding cs fs p g' where
    ctx: "make_planning_context mm inputs fee minimum = Inr (Some ctx)" and
    loop: "planning_loop mm planner ctx fee migration_fee minimum_funding refine [] []
      \<lparr> plan_layers = [], direct_funding = [] \<rparr> g = Inr ((cs, fs, p), g')" and
    finish: "finish_plan ctx cs fs p fee migration_fee minimum = Inr (Some plan)"
    using plan unfolding plan_with_refiner_def
    by (auto simp: and_then_eq_Inr ok_or_eq_Inr split: option.splits prod.splits)
  have "plan_state mm planner ctx fee migration_fee ([], [], \<lparr> plan_layers = [], direct_funding = [] \<rparr>)"
    by (simp add: plan_state_def)
  note result = planning_loop_result [OF loop this]
  have ne: "cs \<noteq> []" using finish by (auto simp: finish_plan_def)
  then have acc: "accepts mm planner ctx fee migration_fee cs fs p" and
    canonical: "\<forall>c \<in> set cs. is_zip318_canonical_denomination c"
    using result by (auto simp: plan_state_def)
  have "sum_list cs \<le> sum_list inputs"
    using acc make_context_facts(8) [OF ctx] by (auto simp: accepts_iff sum_list_add_fee)
  then have "length cs * 1000000 \<le> sum_list inputs" using length_canonical [OF canonical] by linarith
  then have "length cs \<le> sum_list inputs div 1000000" by (simp add: less_eq_div_iff_mult_less_eq)
  then have "planner_bounds mm fee (length cs)" by (rule planner_bounds_mono [OF bounds])
  from finish_sound [OF ctx acc ne canonical this] finish ctx show ?thesis by auto
qed

end

interpretation prep: preparation_planner mm "plan_preparation mm tie" for mm tie
  by unfold_locales (auto intro: plan_preparation_sound plan_preparation_order)

end
