(* ===== verification/Schedule.thy ===== *)
theory Schedule
  imports MigrationPolicy Complex_Main "HOL-Library.Product_Lexorder"
begin

text \<open>
  Random transfer schedules and preparation heights
  (\<open>rust/src/wallet/sync/migration/schedule.rs\<close>, the drawing half of \<open>preparation_policy.rs\<close> and
  the schedule lookups of \<open>migration.rs\<close>). The random number generator is a record of the two
  calls the code makes, \<open>next_u64\<close> and \<open>shuffle\<close>; the double-precision logarithm and addition of
  the platform are the record \<open>float_ops\<close>, every finite double being a rational. The code redraws a
  delay until it is small enough: a computation that never returns is \<open>None\<close>.
\<close>

section \<open>Randomness\<close>

text \<open>\<open>slice.shuffle\<close> permutes the positions of a slice, whatever it holds.\<close>

record 'g rng =
  next_u64 :: "'g \<Rightarrow> nat \<times> 'g"
  permutation :: "nat \<Rightarrow> 'g \<Rightarrow> nat list \<times> 'g"

record float_ops =
  neg_ln_times :: "rat \<Rightarrow> nat \<Rightarrow> rat"
  float_add :: "rat \<Rightarrow> rat \<Rightarrow> rat"

datatype schedule_error =
  CountChanged | ValuesChanged | NotOrdered | DelayOutsidePolicy
| IndexesMissing | IndexesIncomplete | IndexOutsidePlan | IndexDuplicated | PartValueChanged
| MissingRecoveryChild | MissingLayer nat | ScheduledHeightOverflow | LayerHeightOverflow
| CatchUpOverflow | CatchUpCountOverflow

type_synonym ('a, 'g) drawn = "(schedule_error failure + 'a \<times> 'g) option"

definition and_draw :: "('a, 'g) drawn \<Rightarrow> ('a \<Rightarrow> 'g \<Rightarrow> ('b, 'g) drawn) \<Rightarrow> ('b, 'g) drawn" where
  "and_draw m f = (case m of
      None \<Rightarrow> None
    | Some (Inl e) \<Rightarrow> Some (Inl e)
    | Some (Inr (x, g)) \<Rightarrow> f x g)"

lemma and_draw_simps [simp]:
  "and_draw None f = None" "and_draw (Some (Inl e)) f = Some (Inl e)"
  "and_draw (Some (Inr (x, g))) f = f x g"
  by (simp_all add: and_draw_def)

lemma and_draw_eq_Inr:
  "and_draw m f = Some (Inr y) \<longleftrightarrow> (\<exists>x g. m = Some (Inr (x, g)) \<and> f x g = Some (Inr y))"
  by (auto simp: and_draw_def split: option.splits sum.splits)

definition UNIT_STEP :: rat where "UNIT_STEP = 1 / 2 ^ 53"

definition U64_TO_MANTISSA_SHIFT :: nat where "U64_TO_MANTISSA_SHIFT = 11"

definition draw_unit_left_open :: "'g rng \<Rightarrow> 'g \<Rightarrow> rat \<times> 'g" where
  "draw_unit_left_open rng g =
     (let (word, g') = next_u64 rng g
      in (1 - of_nat (word div 2 ^ U64_TO_MANTISSA_SHIFT) * UNIT_STEP, g'))"

text \<open>\<open>as u64\<close> saturates, \<open>as u32\<close> truncates.\<close>

definition round_nonnegative_to_u32 :: "float_ops \<Rightarrow> rat \<Rightarrow> nat" where
  "round_nonnegative_to_u32 ops value =
     min (nat \<lfloor>float_add ops value (1 / 2)\<rfloor>) (2 ^ 64 - 1) mod 2 ^ 32"

definition draw_delay :: "'g rng \<Rightarrow> float_ops \<Rightarrow> nat \<Rightarrow> 'g \<Rightarrow> nat \<times> 'g" where
  "draw_delay rng ops mean_delay_blocks g =
     (let (uniform, g') = draw_unit_left_open rng g
      in (round_nonnegative_to_u32 ops (neg_ln_times ops uniform mean_delay_blocks), g'))"

partial_function (option) sample_delay ::
  "'g rng \<Rightarrow> float_ops \<Rightarrow> nat \<Rightarrow> nat \<Rightarrow> 'g \<Rightarrow> (nat \<times> 'g) option" where
  "sample_delay rng ops mean_delay_blocks max_delay_blocks g =
     (let (sampled, g') = draw_delay rng ops mean_delay_blocks g
      in if sampled \<le> max_delay_blocks then Some (sampled, g')
         else sample_delay rng ops mean_delay_blocks max_delay_blocks g')"

declare sample_delay.simps [code]

fun block_offsets_from ::
  "'g rng \<Rightarrow> float_ops \<Rightarrow> nat \<Rightarrow> nat \<Rightarrow> nat \<Rightarrow> nat \<Rightarrow> 'g \<Rightarrow> (nat list \<times> 'g) option" where
  "block_offsets_from rng ops mean_delay max_delay 0 elapsed_blocks g = Some ([], g)"
| "block_offsets_from rng ops mean_delay max_delay (Suc part_count) elapsed_blocks g =
     (case sample_delay rng ops mean_delay max_delay g of
        None \<Rightarrow> None
      | Some (delay, g') \<Rightarrow>
          let elapsed = saturating_add 32 elapsed_blocks delay in
          (case block_offsets_from rng ops mean_delay max_delay part_count elapsed g' of
             None \<Rightarrow> None
           | Some (offsets, g'') \<Rightarrow> Some (elapsed # offsets, g'')))"

definition random_schedule_block_offsets_with_rng ::
  "'g rng \<Rightarrow> float_ops \<Rightarrow> nat \<Rightarrow> nat \<Rightarrow> nat \<Rightarrow> 'g \<Rightarrow> (nat list, 'g) drawn" where
  "random_schedule_block_offsets_with_rng rng ops part_count mean_delay_blocks max_delay_blocks g =
     (if mean_delay_blocks = 0 \<or> max_delay_blocks = 0 then Some (Inl Panic)
      else map_option Inr (block_offsets_from rng ops mean_delay_blocks max_delay_blocks part_count 0 g))"

definition shuffle :: "'g rng \<Rightarrow> 'a list \<Rightarrow> 'g \<Rightarrow> 'a list \<times> 'g" where
  "shuffle rng xs g = (let (order, g') = permutation rng (length xs) g in (map (\<lambda>i. xs ! i) order, g'))"

section \<open>Transfer schedules\<close>

record migration_schedule_entry =
  part_index :: "nat option"
  value_zatoshi :: nat
  block_offset :: nat

definition planned_transfer_schedule_for_parts_with_policy ::
  "'g rng \<Rightarrow> float_ops \<Rightarrow> (nat \<times> nat) list \<Rightarrow> wallet_network \<Rightarrow> migration_timing_policy \<Rightarrow> 'g \<Rightarrow>
     (migration_schedule_entry list, 'g) drawn" where
  "planned_transfer_schedule_for_parts_with_policy rng ops parts network timing_policy g =
     (let (shuffled, g1) = shuffle rng parts g;
          (mean_delay_blocks, max_delay_blocks) =
            schedule_parameters_with_policy_for_part_count network timing_policy (length shuffled)
      in and_draw
           (random_schedule_block_offsets_with_rng rng ops (length shuffled)
              mean_delay_blocks max_delay_blocks g1)
           (\<lambda>offsets g2.
             Some (Inr (map (\<lambda>((index, value), offset).
               \<lparr> part_index = Some index, value_zatoshi = value, block_offset = offset \<rparr>)
               (zip shuffled offsets), g2))))"

definition planned_transfer_schedule_with_policy ::
  "'g rng \<Rightarrow> float_ops \<Rightarrow> nat list \<Rightarrow> wallet_network \<Rightarrow> migration_timing_policy \<Rightarrow> 'g \<Rightarrow>
     (migration_schedule_entry list, 'g) drawn" where
  "planned_transfer_schedule_with_policy rng ops values network timing_policy g =
     planned_transfer_schedule_for_parts_with_policy rng ops
       (map (\<lambda>(index, value). (index mod 2 ^ 32, value)) (enumerate 0 values)) network timing_policy g"

definition planned_transfer_schedule ::
  "'g rng \<Rightarrow> float_ops \<Rightarrow> policy_state \<Rightarrow> nat list \<Rightarrow> wallet_network \<Rightarrow> 'g \<Rightarrow>
     (migration_schedule_entry list, 'g) drawn" where
  "planned_transfer_schedule rng ops st values network g =
     planned_transfer_schedule_for_parts_with_policy rng ops
       (map (\<lambda>(index, value). (index mod 2 ^ 32, value)) (enumerate 0 values)) network
       (configured_timing_policy st network) g"

text \<open>The entry of a part: by its index, or in a schedule without indexes by its rank among equals.\<close>

definition nth_opt :: "'a list \<Rightarrow> nat \<Rightarrow> 'a option" where
  "nth_opt xs i = (if i < length xs then Some (xs ! i) else None)"

definition schedule_entry_for_pending ::
  "migration_schedule_entry list \<Rightarrow> nat list \<Rightarrow> nat \<Rightarrow> nat \<Rightarrow> migration_schedule_entry option" where
  "schedule_entry_for_pending schedule target_values index value =
     (if \<forall>entry \<in> set schedule. part_index entry \<noteq> None
      then find (\<lambda>entry. part_index entry = Some index \<and> value_zatoshi entry = value) schedule
      else if nth_opt target_values index \<noteq> Some value then None
      else nth_opt (filter (\<lambda>entry. value_zatoshi entry = value) schedule)
             (length (filter (\<lambda>v. v = value) (take index target_values))))"

definition schedule_block_offset_for_part ::
  "migration_schedule_entry list \<Rightarrow> nat list \<Rightarrow> nat \<Rightarrow> nat \<Rightarrow> nat option" where
  "schedule_block_offset_for_part schedule target_values index value =
     (if \<forall>entry \<in> set schedule. part_index entry \<noteq> None
      then map_option block_offset
             (find (\<lambda>entry. part_index entry = Some index \<and> value_zatoshi entry = value) schedule)
      else if nth_opt target_values index \<noteq> Some value then None
      else map_option block_offset
             (nth_opt (filter (\<lambda>entry. value_zatoshi entry = value) schedule)
               (length (filter (\<lambda>v. v = value) (take index target_values)))))"

definition assign_slot :: "nat list \<Rightarrow> nat \<times> nat \<Rightarrow> schedule_error failure + nat list" where
  "assign_slot assigned entry =
     (case entry of (slot, offset) \<Rightarrow>
        if slot < length assigned then Inr (assigned[slot := offset]) else Inl Panic)"

definition rebuild_schedule_block_offsets ::
  "'g rng \<Rightarrow> float_ops \<Rightarrow> migration_schedule_entry list \<Rightarrow> nat list \<Rightarrow> (nat \<times> nat) list \<Rightarrow> wallet_network \<Rightarrow>
     migration_timing_policy \<Rightarrow> 'g \<Rightarrow> (nat list, 'g) drawn" where
  "rebuild_schedule_block_offsets rng ops schedule target_values recoveries network timing_policy g =
     (if \<exists>(index, value) \<in> set recoveries.
           schedule_block_offset_for_part schedule target_values index value = None
      then Some (Inl (Err MissingRecoveryChild))
      else
        let (mean_delay_blocks, max_delay_blocks) = schedule_parameters_with_policy network timing_policy in
        and_draw
          (random_schedule_block_offsets_with_rng rng ops (length recoveries)
             mean_delay_blocks max_delay_blocks g)
          (\<lambda>offsets g1.
            let (slots, g2) = shuffle rng [0..<length recoveries] g1 in
            Some (map_sum id (\<lambda>assigned. (assigned, g2))
              (try_fold assign_slot (replicate (length recoveries) 0) (zip slots offsets)))))"

section \<open>Validation\<close>

text \<open>The checks on one entry, with the set of the indexes seen so far.\<close>

definition validate_entry_index ::
  "nat list \<Rightarrow> nat set \<Rightarrow> migration_schedule_entry \<Rightarrow> schedule_error failure + nat set" where
  "validate_entry_index target_values seen entry =
     and_then (ok_or (part_index entry) (Err IndexesIncomplete)) (\<lambda>index.
     and_then (ok_or (nth_opt target_values index) (Err IndexOutsidePlan)) (\<lambda>value.
     if index \<in> seen then Inl (Err IndexDuplicated)
     else if value \<noteq> value_zatoshi entry then Inl (Err PartValueChanged)
     else Inr (insert index seen)))"

definition validate_schedule_part_indexes ::
  "migration_schedule_entry list \<Rightarrow> nat list \<Rightarrow> schedule_error failure + unit" where
  "validate_schedule_part_indexes schedule target_values =
     (if \<forall>entry \<in> set schedule. part_index entry = None then Inr ()
      else if \<exists>entry \<in> set schedule. part_index entry = None then Inl (Err IndexesIncomplete)
      else and_then (try_fold (validate_entry_index target_values) {} schedule) (\<lambda>_. Inr ()))"

definition validate_gap ::
  "nat \<Rightarrow> nat \<Rightarrow> migration_schedule_entry \<Rightarrow> schedule_error failure + nat" where
  "validate_gap max_delay_blocks previous_offset entry =
     and_then (ok_or (checked_sub (block_offset entry) previous_offset) (Err NotOrdered)) (\<lambda>gap.
     if gap > max_delay_blocks then Inl (Err DelayOutsidePolicy) else Inr (block_offset entry))"

definition validate_schedule_with_policy ::
  "migration_schedule_entry list \<Rightarrow> nat list \<Rightarrow> wallet_network \<Rightarrow> migration_timing_policy \<Rightarrow>
     schedule_error failure + unit" where
  "validate_schedule_with_policy schedule target_values network timing_policy =
     (if length schedule \<noteq> length target_values then Inl (Err CountChanged)
      else if sort (map value_zatoshi schedule) \<noteq> sort target_values then Inl (Err ValuesChanged)
      else and_then (validate_schedule_part_indexes schedule target_values) (\<lambda>_.
        and_then (try_fold (validate_gap (snd (schedule_parameters_with_policy network timing_policy))) 0 schedule)
          (\<lambda>_. Inr ())))"

definition validate_schedule ::
  "policy_state \<Rightarrow> migration_schedule_entry list \<Rightarrow> nat list \<Rightarrow> wallet_network \<Rightarrow>
     schedule_error failure + unit" where
  "validate_schedule st schedule target_values network =
     validate_schedule_with_policy schedule target_values network (configured_timing_policy st network)"

definition record_target ::
  "nat option list \<Rightarrow> migration_schedule_entry \<Rightarrow> schedule_error failure + nat option list" where
  "record_target target_values entry =
     and_then (ok_or (part_index entry) Panic) (\<lambda>index.
     and_then (ok_or (nth_opt target_values index) (Err IndexOutsidePlan)) (\<lambda>slot.
     if slot \<noteq> None then Inl (Err IndexDuplicated)
     else Inr (target_values[index := Some (value_zatoshi entry)])))"

definition target_values_from_schedule ::
  "migration_schedule_entry list \<Rightarrow> schedule_error failure + nat list" where
  "target_values_from_schedule schedule =
     (if schedule = [] then Inr []
      else if \<forall>entry \<in> set schedule. part_index entry = None then Inl (Err IndexesMissing)
      else if \<exists>entry \<in> set schedule. part_index entry = None then Inl (Err IndexesIncomplete)
      else and_then (try_fold record_target (replicate (length schedule) None) schedule) (\<lambda>slots.
        collect_results (map (\<lambda>slot. ok_or slot (Err IndexesIncomplete)) slots)))"

section \<open>Preparation heights\<close>

definition preparation_delay_with_rng ::
  "'g rng \<Rightarrow> float_ops \<Rightarrow> wallet_network \<Rightarrow> migration_timing_policy \<Rightarrow> nat \<Rightarrow> 'g \<Rightarrow> (nat \<times> 'g) option" where
  "preparation_delay_with_rng rng ops network timing_policy transaction_count g =
     (let (mean_delay_blocks, max_delay_blocks) =
        preparation_schedule_parameters_for_transaction_count network timing_policy transaction_count
      in sample_delay rng ops mean_delay_blocks max_delay_blocks g)"

text \<open>One layer: a height for each of its stages, in the shuffled order.\<close>

fun schedule_layer ::
  "'g rng \<Rightarrow> float_ops \<Rightarrow> wallet_network \<Rightarrow> preparation_timing_policy \<Rightarrow> migration_timing_policy \<Rightarrow> nat \<Rightarrow>
     nat list \<Rightarrow> nat \<Rightarrow> nat list \<Rightarrow> 'g \<Rightarrow> (nat \<times> nat list, 'g) drawn" where
  "schedule_layer rng ops network preparation_policy timing_policy part_count [] height heights g =
     Some (Inr ((height, heights), g))"
| "schedule_layer rng ops network preparation_policy timing_policy part_count (stage # stages) height heights g =
     (if preparation_policy = Zip318Spaced then
        (case preparation_delay_with_rng rng ops network timing_policy part_count g of
           None \<Rightarrow> None
         | Some (delay, g') \<Rightarrow>
             (case checked_add 32 height delay of
                None \<Rightarrow> Some (Inl (Err ScheduledHeightOverflow))
              | Some height' \<Rightarrow>
                  schedule_layer rng ops network preparation_policy timing_policy part_count stages
                    height' (heights[stage := height']) g'))
      else schedule_layer rng ops network preparation_policy timing_policy part_count stages
             height (heights[stage := height]) g)"

definition layer_stage_indices :: "nat list \<Rightarrow> nat \<Rightarrow> nat list" where
  "layer_stage_indices stage_layers layer_index =
     filter (\<lambda>stage. stage_layers ! stage = layer_index) [0..<length stage_layers]"

fun schedule_layers ::
  "'g rng \<Rightarrow> float_ops \<Rightarrow> nat \<Rightarrow> wallet_network \<Rightarrow> preparation_timing_policy \<Rightarrow> migration_timing_policy \<Rightarrow>
     nat list \<Rightarrow> nat list \<Rightarrow> nat \<Rightarrow> nat list \<Rightarrow> 'g \<Rightarrow> (nat list, 'g) drawn" where
  "schedule_layers rng ops confirmations network preparation_policy timing_policy stage_layers []
     layer_base heights g = Some (Inr (heights, g))"
| "schedule_layers rng ops confirmations network preparation_policy timing_policy stage_layers
     (layer_index # layers) layer_base heights g =
     (let stages = layer_stage_indices stage_layers layer_index in
      if stages = [] then Some (Inl (Err (MissingLayer layer_index)))
      else
        let (order, g1) = (if preparation_policy = Zip318Spaced then shuffle rng stages g else (stages, g)) in
        and_draw
          (schedule_layer rng ops network preparation_policy timing_policy (length stage_layers)
             order layer_base heights g1)
          (\<lambda>(scheduled_height, heights') g2.
            case checked_add 32 scheduled_height confirmations of
              None \<Rightarrow> Some (Inl (Err LayerHeightOverflow))
            | Some layer_base' \<Rightarrow>
                schedule_layers rng ops confirmations network preparation_policy timing_policy
                  stage_layers layers layer_base' heights' g2))"

definition planned_preparation_scheduled_heights ::
  "'g rng \<Rightarrow> float_ops \<Rightarrow> nat \<Rightarrow> wallet_network \<Rightarrow> preparation_timing_policy \<Rightarrow> migration_timing_policy \<Rightarrow>
     nat \<Rightarrow> nat list \<Rightarrow> 'g \<Rightarrow> (nat list, 'g) drawn" where
  "planned_preparation_scheduled_heights rng ops confirmations network preparation_policy timing_policy
     target_height stage_layers g =
     (if stage_layers = [] then Some (Inr ([], g))
      else schedule_layers rng ops confirmations network preparation_policy timing_policy stage_layers
             [0..<Suc (Max (set stage_layers))] (saturating_sub target_height 1)
             (replicate (length stage_layers) 0) g)"

section \<open>Catching up after a missed height\<close>

text \<open>The rows of one run in the stages table that the re-randomisation reads and updates.\<close>

record stage_row =
  row_stage_index :: nat
  row_scheduled_height :: nat
  row_not_before_height :: "nat option"
  row_status :: string

definition remaining_row :: "stage_row \<Rightarrow> bool" where
  "remaining_row row \<longleftrightarrow> row_status row = ''awaiting_inputs'' \<or> row_status row = ''pending''"

definition or_zero :: "nat option \<Rightarrow> nat" where
  "or_zero m = (case m of None \<Rightarrow> 0 | Some n \<Rightarrow> n)"

definition remaining_rows :: "stage_row list \<Rightarrow> stage_row list" where
  "remaining_rows rows =
     sort_key (\<lambda>row. (max (row_scheduled_height row) (or_zero (row_not_before_height row)), row_stage_index row))
       (filter remaining_row rows)"

definition postpone_row :: "nat \<Rightarrow> nat \<Rightarrow> stage_row list \<Rightarrow> stage_row list" where
  "postpone_row stage_index effective_height =
     map (\<lambda>row. if row_stage_index row = stage_index \<and> remaining_row row
                then row\<lparr>row_not_before_height := Some effective_height\<rparr> else row)"

fun catch_up_rows ::
  "'g rng \<Rightarrow> float_ops \<Rightarrow> wallet_network \<Rightarrow> migration_timing_policy \<Rightarrow> nat \<Rightarrow> stage_row list \<Rightarrow> nat \<Rightarrow>
     stage_row list \<Rightarrow> 'g \<Rightarrow> (stage_row list, 'g) drawn" where
  "catch_up_rows rng ops network timing_policy transaction_count [] preceding_height rows g =
     Some (Inr (rows, g))"
| "catch_up_rows rng ops network timing_policy transaction_count (row # todo) preceding_height rows g =
     (case preparation_delay_with_rng rng ops network timing_policy transaction_count g of
        None \<Rightarrow> None
      | Some (delay, g') \<Rightarrow>
          (case checked_add 32 preceding_height delay of
             None \<Rightarrow> Some (Inl (Err CatchUpOverflow))
           | Some randomized_height \<Rightarrow>
               let effective_height = max (max randomized_height (row_scheduled_height row))
                                          (or_zero (row_not_before_height row)) in
               catch_up_rows rng ops network timing_policy transaction_count todo effective_height
                 (postpone_row (row_stage_index row) effective_height rows) g'))"

definition rerandomize_remaining_preparation_broadcast_heights ::
  "'g rng \<Rightarrow> float_ops \<Rightarrow> preparation_timing_policy \<Rightarrow> migration_timing_policy \<Rightarrow> wallet_network \<Rightarrow> nat \<Rightarrow>
     stage_row list \<Rightarrow> 'g \<Rightarrow> (stage_row list \<times> nat, 'g) drawn" where
  "rerandomize_remaining_preparation_broadcast_heights rng ops preparation_policy timing_policy network
     chain_tip_height rows g =
     (if preparation_policy = Immediate then Some (Inr ((rows, 0), g))
      else
        let remaining = remaining_rows rows in
        and_draw
          (catch_up_rows rng ops network timing_policy (length rows) remaining chain_tip_height rows g)
          (\<lambda>rows' g'.
            if length remaining < 2 ^ 32 then Some (Inr ((rows', length remaining), g'))
            else Some (Inl (Err CatchUpCountOverflow))))"

end
