(* ===== verification/ScheduleCorrect.thy ===== *)
theory ScheduleCorrect
  imports Schedule
begin

text \<open>
  What the schedules promise: drawing returns once the generator yields an acceptable word, a drawn
  schedule passes the validation the approved schedule must pass, a validated schedule gives every
  part its offset and its targets back, and preparation heights respect the layers.
\<close>

section \<open>Drawing\<close>

text \<open>Documented behaviour of \<open>shuffle\<close>: the positions are permuted.\<close>

definition permuting :: "'g rng \<Rightarrow> bool" where
  "permuting rng \<longleftrightarrow> (\<forall>n g. mset (fst (permutation rng n g)) = mset [0..<n])"

lemma mset_shuffle:
  assumes "permuting rng"
  shows "mset (fst (shuffle rng xs g)) = mset xs"
proof -
  have "mset (fst (shuffle rng xs g))
      = image_mset ((!) xs) (mset (fst (permutation rng (length xs) g)))"
    by (simp add: shuffle_def case_prod_beta Let_def)
  also have "\<dots> = mset (map ((!) xs) [0..<length xs])"
    using assms by (simp add: permuting_def)
  also have "\<dots> = mset xs" by (simp only: map_nth)
  finally show ?thesis .
qed

lemma length_shuffle: "permuting rng \<Longrightarrow> length (fst (shuffle rng xs g)) = length xs"
  by (rule mset_eq_length) (rule mset_shuffle)

lemma set_shuffle: "permuting rng \<Longrightarrow> set (fst (shuffle rng xs g)) = set xs"
  by (rule mset_eq_setD) (rule mset_shuffle)

lemma sample_delay_bounded:
  assumes "sample_delay rng ops mean mx g = Some (d, g')"
  shows "d \<le> mx"
proof -
  have "fst r \<le> mx" if "sample_delay rng ops mean mx g = Some r" for r
  proof (rule sample_delay.raw_induct
      [where P = "\<lambda>rng ops mean mx g r. fst r \<le> mx", OF _ that])
    fix sd :: "'a rng \<Rightarrow> float_ops \<Rightarrow> nat \<Rightarrow> nat \<Rightarrow> 'a \<Rightarrow> (nat \<times> 'a) option"
      and rng :: "'a rng" and ops mean mx g r
    assume IH: "\<And>rng ops mean mx g r. sd rng ops mean mx g = Some r \<Longrightarrow> fst r \<le> mx"
      and step: "(let (sampled, g') = draw_delay rng ops mean g
        in if sampled \<le> mx then Some (sampled, g') else sd rng ops mean mx g') = Some r"
    obtain s g' where "draw_delay rng ops mean g = (s, g')" by force
    then show "fst r \<le> mx"
      using step IH [of rng ops mean mx g' r] by (simp split: if_splits) (metis fst_conv)
  qed
  from this [OF assms] show ?thesis by simp
qed

text \<open>The state after \<open>n\<close> words, and a generator that yields an acceptable delay from any state.\<close>

fun state_after :: "'g rng \<Rightarrow> nat \<Rightarrow> 'g \<Rightarrow> 'g" where
  "state_after rng 0 g = g"
| "state_after rng (Suc n) g = state_after rng n (snd (next_u64 rng g))"

definition yields :: "'g rng \<Rightarrow> float_ops \<Rightarrow> nat \<Rightarrow> nat \<Rightarrow> bool" where
  "yields rng ops mean mx \<longleftrightarrow> (\<forall>g. \<exists>n. fst (draw_delay rng ops mean (state_after rng n g)) \<le> mx)"

lemma snd_draw_delay: "snd (draw_delay rng ops mean g) = snd (next_u64 rng g)"
  by (simp add: draw_delay_def draw_unit_left_open_def Let_def case_prod_beta)

lemma sample_delay_returns_after:
  "fst (draw_delay rng ops mean (state_after rng n g)) \<le> mx \<Longrightarrow> \<exists>r. sample_delay rng ops mean mx g = Some r"
proof (induction n arbitrary: g)
  case 0
  then show ?case by (subst sample_delay.simps) (simp add: case_prod_beta Let_def)
next
  case (Suc n)
  then show ?case
    by (subst sample_delay.simps) (simp add: case_prod_beta Let_def snd_draw_delay)
qed

lemma sample_delay_returns:
  assumes "yields rng ops mean mx"
  obtains d g' where "sample_delay rng ops mean mx g = Some (d, g')"
proof -
  obtain n where "fst (draw_delay rng ops mean (state_after rng n g)) \<le> mx"
    using assms unfolding yields_def by blast
  from sample_delay_returns_after [OF this] that show thesis by auto
qed

lemma block_offsets_return:
  assumes "yields rng ops mean mx"
  shows "\<exists>r. block_offsets_from rng ops mean mx n e g = Some r"
proof (induction n arbitrary: e g)
  case (Suc n)
  obtain d g' where d: "sample_delay rng ops mean mx g = Some (d, g')"
    using sample_delay_returns [OF assms] .
  obtain r where "block_offsets_from rng ops mean mx n (saturating_add 32 e d) g' = Some r"
    using Suc by blast
  then show ?case using d by (cases r) (simp add: Let_def)
qed simp

text \<open>Offsets never decrease and grow by at most the maximum delay.\<close>

fun spaced :: "nat \<Rightarrow> nat \<Rightarrow> nat list \<Rightarrow> bool" where
  "spaced mx previous [] \<longleftrightarrow> True"
| "spaced mx previous (x # xs) \<longleftrightarrow> previous \<le> x \<and> x - previous \<le> mx \<and> spaced mx x xs"

lemma block_offsets_spaced:
  "block_offsets_from rng ops mean mx n e g = Some (os, g') \<Longrightarrow> e < 2 ^ 32 \<Longrightarrow>
   length os = n \<and> spaced mx e os"
proof (induction n arbitrary: e g os)
  case (Suc n)
  from Suc.prems(1) obtain d g1 rest where
    d: "sample_delay rng ops mean mx g = Some (d, g1)"
    and rest: "block_offsets_from rng ops mean mx n (saturating_add 32 e d) g1 = Some (rest, g')"
    and os: "os = saturating_add 32 e d # rest"
    by (auto simp: Let_def split: option.splits)
  have "saturating_add 32 e d < 2 ^ 32" "e \<le> saturating_add 32 e d" "saturating_add 32 e d - e \<le> d"
    using Suc.prems(2) by (auto simp: saturating_add_def)
  then show ?case
    using Suc.IH [OF rest] os sample_delay_bounded [OF d] by auto
qed simp

lemma saturating_add_bound: "saturating_add 32 a b < 2 ^ 32"
  by (simp add: saturating_add_def min_def)

lemma block_offsets_u32:
  "block_offsets_from rng ops mean mx n e g = Some (os, g') \<Longrightarrow> x \<in> set os \<Longrightarrow> x < 2 ^ 32"
proof (induction n arbitrary: e g os)
  case (Suc n)
  then show ?case
    using saturating_add_bound by (auto simp: Let_def split: option.splits)
qed simp

lemma random_offsets_eq_Inr:
  assumes "random_schedule_block_offsets_with_rng rng ops n mean mx g = Some (Inr (os, g'))"
  shows "length os = n \<and> spaced mx 0 os"
  using assms block_offsets_spaced [of rng ops mean mx n 0 g os g']
  by (auto simp: random_schedule_block_offsets_with_rng_def split: if_splits)

section \<open>Validation\<close>

lemma validate_gap_fold:
  "(\<exists>x. try_fold (validate_gap mx) previous schedule = Inr x) \<longleftrightarrow>
   spaced mx previous (map block_offset schedule)"
proof (induction schedule arbitrary: previous)
  case (Cons e es)
  have "validate_gap mx previous e = Inr (block_offset e)
      \<or> (\<exists>x. validate_gap mx previous e = Inl x)"
    and "(\<exists>x. validate_gap mx previous e = Inl x)
      \<longleftrightarrow> \<not> (previous \<le> block_offset e \<and> block_offset e - previous \<le> mx)"
    by (auto simp: validate_gap_def checked_sub_def)
  then show ?case using Cons.IH [of "block_offset e"] by auto
qed simp

definition entry_fits :: "nat list \<Rightarrow> migration_schedule_entry \<Rightarrow> bool" where
  "entry_fits targets e \<longleftrightarrow>
     (\<exists>i. part_index e = Some i \<and> i < length targets \<and> targets ! i = value_zatoshi e)"

lemma validate_entry_index_Inr:
  "validate_entry_index targets seen e = Inr seen' \<longleftrightarrow>
   entry_fits targets e \<and> the (part_index e) \<notin> seen \<and> seen' = insert (the (part_index e)) seen"
  by (auto simp: validate_entry_index_def entry_fits_def and_then_eq_Inr ok_or_eq_Inr nth_opt_def
      split: if_splits)

lemma validate_entries_fold:
  "(\<exists>seen'. try_fold (validate_entry_index targets) seen es = Inr seen') \<longleftrightarrow>
   (\<forall>e \<in> set es. entry_fits targets e) \<and> distinct (map (the \<circ> part_index) es) \<and>
   seen \<inter> (the \<circ> part_index) ` set es = {}"
proof (induction es arbitrary: seen)
  case (Cons e es)
  have "(\<exists>seen'. try_fold (validate_entry_index targets) seen (e # es) = Inr seen') \<longleftrightarrow>
      entry_fits targets e \<and> the (part_index e) \<notin> seen \<and>
      (\<exists>seen'. try_fold (validate_entry_index targets) (insert (the (part_index e)) seen) es = Inr seen')"
    by (auto simp: and_then_eq_Inr validate_entry_index_Inr)
  then show ?case unfolding Cons.IH by (auto simp: comp_def)
qed simp

text \<open>The specification of an indexed schedule: the parts of the plan, each once, in some order.\<close>

definition indexes_parts :: "migration_schedule_entry list \<Rightarrow> nat list \<Rightarrow> bool" where
  "indexes_parts schedule targets \<longleftrightarrow>
     (\<forall>e \<in> set schedule. entry_fits targets e) \<and> distinct (map (the \<circ> part_index) schedule)"

lemma validate_part_indexes_iff:
  assumes "\<forall>e \<in> set schedule. part_index e \<noteq> None"
  shows "validate_schedule_part_indexes schedule targets = Inr () \<longleftrightarrow> indexes_parts schedule targets"
proof (cases "schedule = []")
  case True
  then show ?thesis by (simp add: validate_schedule_part_indexes_def indexes_parts_def)
next
  case False
  then have "\<exists>e \<in> set schedule. part_index e \<noteq> None" using assms by (cases schedule) auto
  then have "validate_schedule_part_indexes schedule targets = Inr () \<longleftrightarrow>
      (\<exists>seen. try_fold (validate_entry_index targets) {} schedule = Inr seen)"
    using assms by (auto simp: validate_schedule_part_indexes_def and_then_eq_Inr)
  then show ?thesis by (simp add: validate_entries_fold indexes_parts_def)
qed

lemma validate_schedule_iff:
  "validate_schedule_with_policy schedule targets network policy = Inr () \<longleftrightarrow>
   mset (map value_zatoshi schedule) = mset targets \<and>
   validate_schedule_part_indexes schedule targets = Inr () \<and>
   spaced (snd (schedule_parameters_with_policy network policy)) 0 (map block_offset schedule)"
proof -
  have "sort (map value_zatoshi schedule) = sort targets \<longleftrightarrow> mset (map value_zatoshi schedule) = mset targets"
    by (metis mset_sort sort_mset_eq)
  moreover have "mset (map value_zatoshi schedule) = mset targets \<Longrightarrow> length schedule = length targets"
    by (metis length_map size_mset)
  ultimately show ?thesis
    unfolding validate_gap_fold [symmetric] validate_schedule_with_policy_def
    by (auto simp: and_then_eq_Inr)
qed

text \<open>An indexed schedule of the right length names every part.\<close>

lemma indexes_parts_all:
  assumes "indexes_parts schedule targets" "length schedule = length targets"
  shows "(the \<circ> part_index) ` set schedule = {..<length targets}"
proof (rule card_subset_eq)
  show "(the \<circ> part_index) ` set schedule \<subseteq> {..<length targets}"
    using assms(1) by (force simp: indexes_parts_def entry_fits_def)
  have "card ((the \<circ> part_index) ` set schedule) = length (map (the \<circ> part_index) schedule)"
    using assms(1) unfolding indexes_parts_def by (metis distinct_card set_map)
  then show "card ((the \<circ> part_index) ` set schedule) = card {..<length targets}"
    using assms(2) by simp
qed simp

lemma indexed_entry:
  assumes "indexes_parts schedule targets" "length schedule = length targets" "i < length targets"
  obtains e where "e \<in> set schedule" "part_index e = Some i" "value_zatoshi e = targets ! i"
proof -
  obtain e where e: "e \<in> set schedule" "the (part_index e) = i"
    using indexes_parts_all [OF assms(1,2)] assms(3) by (metis comp_apply image_iff lessThan_iff)
  then have "entry_fits targets e" using assms(1) by (simp add: indexes_parts_def)
  then show thesis using e that by (auto simp: entry_fits_def)
qed

section \<open>Targets of a validated schedule\<close>

definition recorded :: "nat list \<Rightarrow> migration_schedule_entry list \<Rightarrow> nat option list \<Rightarrow> bool" where
  "recorded targets done_entries slots \<longleftrightarrow>
     slots = map (\<lambda>i. if i \<in> (the \<circ> part_index) ` set done_entries then Some (targets ! i) else None)
       [0..<length targets]"

lemma record_targets:
  assumes "indexes_parts schedule targets"
  shows "\<exists>slots. try_fold record_target (replicate (length targets) None) schedule = Inr slots \<and>
           recorded targets schedule slots"
proof (rule try_fold_prefix)
  show "recorded targets [] (replicate (length targets) None)"
    by (simp add: recorded_def map_replicate_const)
next
  fix pre e post slots
  assume schedule: "schedule = pre @ e # post" and slots: "recorded targets pre slots"
  obtain i where i: "part_index e = Some i" "i < length targets" "targets ! i = value_zatoshi e"
    using assms schedule by (auto simp: indexes_parts_def entry_fits_def)
  have "i \<notin> (the \<circ> part_index) ` set pre"
    using assms schedule i(1) by (auto simp: indexes_parts_def)
  then have "slots ! i = None" "length slots = length targets"
    using slots i(2) by (simp_all add: recorded_def)
  then have "record_target slots e = Inr (slots[i := Some (value_zatoshi e)])"
    using i by (simp add: record_target_def nth_opt_def)
  moreover have "recorded targets (pre @ [e]) (slots[i := Some (value_zatoshi e)])"
    using slots i unfolding recorded_def by (intro nth_equalityI) (auto simp: nth_list_update)
  ultimately show "\<exists>s. record_target slots e = Inr s \<and> recorded targets (pre @ [e]) s" by blast
qed

lemma target_values_of_indexed:
  assumes "indexes_parts schedule targets" "length schedule = length targets"
  shows "target_values_from_schedule schedule = Inr targets"
proof (cases "schedule = []")
  case True
  then show ?thesis using assms(2) by (simp add: target_values_from_schedule_def)
next
  case False
  have some: "\<forall>e \<in> set schedule. part_index e \<noteq> None"
    using assms(1) by (auto simp: indexes_parts_def entry_fits_def)
  obtain slots where slots: "try_fold record_target (replicate (length targets) None) schedule = Inr slots"
    "recorded targets schedule slots"
    using record_targets [OF assms(1)] by blast
  have "slots = map Some targets"
    using slots(2) unfolding recorded_def indexes_parts_all [OF assms]
    by (intro nth_equalityI) auto
  moreover have "\<not> (\<forall>e \<in> set schedule. part_index e = None)"
    using some False by (cases schedule) auto
  ultimately show ?thesis
    using slots(1) False some assms(2)
    by (cases schedule) (auto simp: target_values_from_schedule_def comp_def)
qed

lemma record_target_Inr:
  "record_target slots e = Inr s \<longleftrightarrow> (\<exists>i. part_index e = Some i \<and> i < length slots \<and> slots ! i = None \<and>
     s = slots[i := Some (value_zatoshi e)])"
  by (cases "part_index e") (auto simp: record_target_def nth_opt_def)

lemma record_target_no_panic: "part_index e \<noteq> None \<Longrightarrow> record_target slots e \<noteq> Inl Panic"
  by (auto simp: record_target_def nth_opt_def and_then_eq_Inl ok_or_eq_Inl split: if_splits)

lemma record_fold_Inr:
  "try_fold record_target slots es = Inr slots' \<Longrightarrow>
   length slots' = length slots \<and>
   (\<forall>e \<in> set es. \<exists>i. part_index e = Some i \<and> i < length slots \<and> slots ! i = None \<and>
      slots' ! i = Some (value_zatoshi e)) \<and>
   distinct (map (the \<circ> part_index) es) \<and>
   (\<forall>i < length slots. slots ! i \<noteq> None \<longrightarrow> slots' ! i = slots ! i)"
proof (induction es arbitrary: slots)
  case (Cons e es)
  obtain i where i: "part_index e = Some i" "i < length slots" "slots ! i = None"
    and rest: "try_fold record_target (slots[i := Some (value_zatoshi e)]) es = Inr slots'"
    using Cons.prems by (auto simp: and_then_eq_Inr record_target_Inr)
  note IH = Cons.IH [OF rest]
  have "slots' ! i = Some (value_zatoshi e)" using IH i by simp
  moreover have "i \<notin> (the \<circ> part_index) ` set es" using IH i(2) by fastforce
  moreover have "\<exists>j. part_index e' = Some j \<and> j < length slots \<and> slots ! j = None \<and> slots' ! j = Some (value_zatoshi e')"
    if e': "e' \<in> set es" for e'
  proof -
    obtain j where j: "part_index e' = Some j" "j < length slots" "slots[i := Some (value_zatoshi e)] ! j = None"
      "slots' ! j = Some (value_zatoshi e')" using IH e' by auto
    then have "slots ! j = None" using i(2,3) by (cases "i = j") auto
    then show ?thesis using j by blast
  qed
  moreover have "\<forall>j < length slots. slots ! j \<noteq> None \<longrightarrow> slots' ! j = slots ! j"
    using IH i(3) by (metis length_list_update nth_list_update_neq)
  ultimately show ?case using IH i by (auto simp: comp_def)
qed simp

lemma target_values_iff:
  "target_values_from_schedule schedule = Inr targets \<longleftrightarrow>
   indexes_parts schedule targets \<and> length schedule = length targets"
proof
  assume run: "target_values_from_schedule schedule = Inr targets"
  show "indexes_parts schedule targets \<and> length schedule = length targets"
  proof (cases "schedule = []")
    case True
    then show ?thesis using run by (simp add: target_values_from_schedule_def indexes_parts_def)
  next
    case False
    then obtain slots where slots: "try_fold record_target (replicate (length schedule) None) schedule = Inr slots"
      and all: "map (\<lambda>slot. ok_or slot (Err IndexesIncomplete)) slots = map Inr targets"
      using run by (auto simp: target_values_from_schedule_def and_then_eq_Inr collect_results_Inr split: if_splits)
    note fold = record_fold_Inr [OF slots]
    have len: "length targets = length slots" using all by (metis length_map)
    have "slots ! i = Some (targets ! i)" if "i < length slots" for i
      using arg_cong [OF all, of "\<lambda>xs. xs ! i"] that len by (simp add: ok_or_eq_Inr)
    then have "entry_fits targets e" if "e \<in> set schedule" for e
      using fold that len by (fastforce simp: entry_fits_def)
    then show ?thesis using fold len by (simp add: indexes_parts_def)
  qed
qed (auto intro: target_values_of_indexed)

lemma record_fold_no_panic:
  "\<forall>e \<in> set es. part_index e \<noteq> None \<Longrightarrow> try_fold record_target slots es \<noteq> Inl Panic"
  using record_target_no_panic by (induction es arbitrary: slots) (auto simp: and_then_eq_Inl simp del: not_None_eq)

lemma collect_ok_or_no_panic:
  "collect_results (map (\<lambda>slot. ok_or slot (Err e)) slots) \<noteq> Inl Panic"
  by (induction slots) (auto simp: and_then_eq_Inl ok_or_eq_Inl)

lemma target_values_no_panic: "target_values_from_schedule schedule \<noteq> Inl Panic"
proof (cases "\<exists>e \<in> set schedule. part_index e = None")
  case True
  then show ?thesis by (auto simp: target_values_from_schedule_def)
next
  case False
  then show ?thesis
    using record_fold_no_panic [of schedule]
    by (auto simp: target_values_from_schedule_def and_then_eq_Inl collect_ok_or_no_panic simp del: not_None_eq)
qed

section \<open>Offsets of the parts\<close>

lemma find_SomeI:
  assumes "x \<in> set xs" "P x"
  obtains y where "find P xs = Some y" "P y" "y \<in> set xs"
proof (cases "find P xs")
  case None
  then show thesis using assms by (simp add: find_None_iff)
next
  case (Some y)
  then show thesis using that find_Some_iff [of P xs y] by auto
qed

lemma schedule_block_offset_eq:
  "schedule_block_offset_for_part schedule targets i v
     = map_option block_offset (schedule_entry_for_pending schedule targets i v)"
  unfolding schedule_block_offset_for_part_def schedule_entry_for_pending_def
  by (cases "\<forall>entry \<in> set schedule. part_index entry \<noteq> None") (auto simp del: not_None_eq)

lemma rank_below:
  assumes "i < length xs" "xs ! i = v"
  shows "length (filter (\<lambda>x. x = v) (take i xs)) < length (filter (\<lambda>x. x = v) xs)"
proof -
  have "filter (\<lambda>x. x = v) xs = filter (\<lambda>x. x = v) (take i xs @ xs ! i # drop (Suc i) xs)"
    using id_take_nth_drop [OF assms(1)] by simp
  then show ?thesis using assms(2) by simp
qed

lemma validated_entry:
  assumes valid: "validate_schedule_with_policy schedule targets network policy = Inr ()"
    and i: "i < length targets"
  shows "\<exists>e \<in> set schedule. schedule_entry_for_pending schedule targets i (targets ! i) = Some e
           \<and> value_zatoshi e = targets ! i"
proof (cases "\<forall>e \<in> set schedule. part_index e \<noteq> None")
  case True
  have "mset (map value_zatoshi schedule) = mset targets" "indexes_parts schedule targets"
    using valid True by (simp_all add: validate_schedule_iff validate_part_indexes_iff)
  then obtain e where e: "e \<in> set schedule" "part_index e = Some i" "value_zatoshi e = targets ! i"
    using indexed_entry [of schedule targets i] i by (metis length_map size_mset)
  obtain y where "find (\<lambda>x. part_index x = Some i \<and> value_zatoshi x = targets ! i) schedule = Some y"
    "part_index y = Some i \<and> value_zatoshi y = targets ! i" "y \<in> set schedule"
    using find_SomeI [of e schedule "\<lambda>x. part_index x = Some i \<and> value_zatoshi x = targets ! i"] e by auto
  then show ?thesis using True by (auto simp: schedule_entry_for_pending_def)
next
  case False
  let ?v = "targets ! i" and ?n = "length (filter (\<lambda>v. v = targets ! i) (take i targets))"
  let ?es = "filter (\<lambda>e. value_zatoshi e = ?v) schedule"
  have "mset (map value_zatoshi schedule) = mset targets" using valid by (simp add: validate_schedule_iff)
  then have "filter_mset (\<lambda>v. v = ?v) (mset (map value_zatoshi schedule)) = filter_mset (\<lambda>v. v = ?v) (mset targets)"
    by simp
  then have "length (filter (\<lambda>v. v = ?v) (map value_zatoshi schedule)) = length (filter (\<lambda>v. v = ?v) targets)"
    by (metis mset_filter size_mset)
  then have "?n < length ?es"
    using rank_below [OF i refl] by (simp add: filter_map comp_def)
  then have "nth_opt ?es ?n = Some (?es ! ?n)" "?es ! ?n \<in> set ?es"
    by (simp add: nth_opt_def, rule nth_mem)
  then show ?thesis
    using False i by (auto simp: schedule_entry_for_pending_def nth_opt_def)
qed

section \<open>Planned schedules\<close>

lemma planned_parts_schedule:
  assumes perm: "permuting rng"
    and run: "planned_transfer_schedule_for_parts_with_policy rng ops parts network policy g = Some (Inr (schedule, g'))"
  shows "mset (map (\<lambda>e. (part_index e, value_zatoshi e)) schedule) = mset (map (\<lambda>(i, v). (Some i, v)) parts) \<and>
    spaced (snd (schedule_parameters_with_policy network policy)) 0 (map block_offset schedule) \<and>
    (\<forall>e \<in> set schedule. block_offset e < 2 ^ 32)"
proof -
  let ?ps = "fst (shuffle rng parts g)" and ?g = "snd (shuffle rng parts g)"
  obtain os where
    os: "random_schedule_block_offsets_with_rng rng ops (length ?ps)
           (fst (schedule_parameters_with_policy_for_part_count network policy (length ?ps)))
           (snd (schedule_parameters_with_policy network policy)) ?g = Some (Inr (os, g'))"
    and schedule: "schedule = map (\<lambda>((i, v), offset).
        \<lparr> part_index = Some i, value_zatoshi = v, block_offset = offset \<rparr>) (zip ?ps os)"
    using run by (auto simp: planned_transfer_schedule_for_parts_with_policy_def and_draw_eq_Inr
        case_prod_beta Let_def)
  have len: "length os = length ?ps" and spaced: "spaced (snd (schedule_parameters_with_policy network policy)) 0 os"
    using random_offsets_eq_Inr [OF os] by simp_all
  have "map (\<lambda>e. (part_index e, value_zatoshi e)) schedule = map ((\<lambda>(i, v). (Some i, v)) \<circ> fst) (zip ?ps os)"
    by (auto simp: schedule)
  also have "\<dots> = map (\<lambda>(i, v). (Some i, v)) ?ps"
    using len by (simp add: map_map [symmetric] del: map_map)
  finally have "mset (map (\<lambda>e. (part_index e, value_zatoshi e)) schedule)
      = image_mset (\<lambda>(i, v). (Some i, v)) (mset ?ps)" by (metis mset_map)
  moreover have "map block_offset schedule = map snd (zip ?ps os)"
    by (auto simp: schedule)
  moreover have "block_offset e \<in> set os" if "e \<in> set schedule" for e
    using that unfolding schedule by (auto dest: set_zip_rightD)
  then have "\<forall>e \<in> set schedule. block_offset e < 2 ^ 32"
    using os by (auto simp: random_schedule_block_offsets_with_rng_def split: if_splits intro: block_offsets_u32 [simplified])
  ultimately show ?thesis using len spaced mset_shuffle [OF perm, of parts g] by simp
qed

lemma planned_schedule_indexes:
  assumes perm: "permuting rng" and few: "length targets \<le> 2 ^ 32"
    and run: "planned_transfer_schedule_with_policy rng ops targets network policy g = Some (Inr (schedule, g'))"
  shows "indexes_parts schedule targets" and "length schedule = length targets"
    and "mset (map value_zatoshi schedule) = mset targets"
    and "spaced (snd (schedule_parameters_with_policy network policy)) 0 (map block_offset schedule)"
proof -
  let ?parts = "enumerate 0 targets"
  have "map (\<lambda>(i, v). (i mod 2 ^ 32, v)) ?parts = ?parts"
    using few by (intro map_idI) (auto simp: in_set_enumerate_eq)
  with run have "planned_transfer_schedule_for_parts_with_policy rng ops ?parts network policy g = Some (Inr (schedule, g'))"
    by (simp add: planned_transfer_schedule_with_policy_def)
  from planned_parts_schedule [OF perm this]
  have m: "mset (map (\<lambda>e. (part_index e, value_zatoshi e)) schedule) = mset (map (\<lambda>(i, v). (Some i, v)) ?parts)"
    and spaced: "spaced (snd (schedule_parameters_with_policy network policy)) 0 (map block_offset schedule)"
    by simp_all
  from m have sets: "(\<lambda>e. (part_index e, value_zatoshi e)) ` set schedule = (\<lambda>(i, v). (Some i, v)) ` set ?parts"
    by (metis set_map set_mset_mset)
  have fits: "entry_fits targets e" if "e \<in> set schedule" for e
  proof -
    have "(part_index e, value_zatoshi e) \<in> (\<lambda>(i, v). (Some i, v)) ` set ?parts" using that sets by blast
    then show ?thesis by (auto simp: entry_fits_def in_set_enumerate_eq)
  qed
  have "image_mset (the \<circ> fst) (mset (map (\<lambda>e. (part_index e, value_zatoshi e)) schedule))
      = image_mset (the \<circ> fst) (mset (map (\<lambda>(i, v). (Some i, v)) ?parts))" by (simp only: m)
  then have "mset (map (the \<circ> part_index) schedule) = mset (map fst ?parts)"
    by (simp add: multiset.map_comp comp_def case_prod_beta mset_map [symmetric] del: mset_map map_fst_enumerate)
  then have "distinct (map (the \<circ> part_index) schedule)"
    by (metis distinct_upt map_fst_enumerate mset_eq_imp_distinct_iff)
  then show "indexes_parts schedule targets" using fits by (simp add: indexes_parts_def)
  have "image_mset snd (mset (map (\<lambda>e. (part_index e, value_zatoshi e)) schedule))
      = image_mset snd (mset (map (\<lambda>(i, v). (Some i, v)) ?parts))" by (simp only: m)
  then have "mset (map value_zatoshi schedule) = mset (map snd ?parts)"
    by (simp add: multiset.map_comp comp_def case_prod_beta mset_map [symmetric] del: mset_map map_snd_enumerate)
  then show vals: "mset (map value_zatoshi schedule) = mset targets" by (simp only: map_snd_enumerate)
  show "length schedule = length targets" using vals by (metis length_map size_mset)
  show "spaced (snd (schedule_parameters_with_policy network policy)) 0 (map block_offset schedule)" by (rule spaced)
qed

lemma planned_schedule_valid:
  assumes "permuting rng" "length targets \<le> 2 ^ 32"
    and "planned_transfer_schedule_with_policy rng ops targets network policy g = Some (Inr (schedule, g'))"
  shows "validate_schedule_with_policy schedule targets network policy = Inr ()"
proof -
  note facts = planned_schedule_indexes [OF assms]
  have "\<forall>e \<in> set schedule. part_index e \<noteq> None"
    using facts(1) by (auto simp: indexes_parts_def entry_fits_def)
  then show ?thesis using facts by (simp add: validate_schedule_iff validate_part_indexes_iff)
qed

lemma planned_schedule_returns:
  assumes "\<And>n. yields rng ops (fst (schedule_parameters_with_policy_for_part_count network policy n))
                 (snd (schedule_parameters_with_policy network policy))"
  shows "\<exists>schedule g'. planned_transfer_schedule_for_parts_with_policy rng ops parts network policy g
           = Some (Inr (schedule, g'))"
proof -
  let ?n = "length (fst (shuffle rng parts g))"
  have "fst (schedule_parameters_with_policy_for_part_count network policy ?n) \<noteq> 0"
    "snd (schedule_parameters_with_policy network policy) \<noteq> 0"
    using schedule_parameters_for_part_count_mean_positive [of network policy ?n]
      schedule_parameters_positive [of network policy] by simp_all
  moreover obtain r where "block_offsets_from rng ops
      (fst (schedule_parameters_with_policy_for_part_count network policy ?n))
      (snd (schedule_parameters_with_policy network policy)) ?n 0 (snd (shuffle rng parts g)) = Some r"
    using block_offsets_return [OF assms] by blast
  ultimately show ?thesis
    by (cases r) (simp add: planned_transfer_schedule_for_parts_with_policy_def case_prod_beta Let_def
        random_schedule_block_offsets_with_rng_def)
qed

lemma draw_unit_range:
  assumes "fst (next_u64 rng g) < 2 ^ 64"
  shows "0 < fst (draw_unit_left_open rng g)" "fst (draw_unit_left_open rng g) \<le> 1"
proof -
  let ?k = "fst (next_u64 rng g) div 2 ^ 11"
  have "?k < 2 ^ 53" using assms by (simp add: less_mult_imp_div_less)
  then have "(of_nat ?k :: rat) < 2 ^ 53" by (metis of_nat_less_iff of_nat_numeral of_nat_power)
  then show "0 < fst (draw_unit_left_open rng g)" "fst (draw_unit_left_open rng g) \<le> 1"
    by (simp_all add: draw_unit_left_open_def case_prod_beta Let_def UNIT_STEP_def U64_TO_MANTISSA_SHIFT_def)
qed

lemma planned_entries_u32:
  assumes "permuting rng"
    and run: "planned_transfer_schedule_with_policy rng ops targets network policy g = Some (Inr (schedule, g'))"
    and e: "e \<in> set schedule"
  shows "\<exists>i < 2 ^ 32. part_index e = Some i" "block_offset e < 2 ^ 32"
proof -
  define parts where "parts = map (\<lambda>(i, v). (i mod 2 ^ 32, v)) (enumerate 0 targets)"
  have run: "planned_transfer_schedule_for_parts_with_policy rng ops parts network policy g = Some (Inr (schedule, g'))"
    using run by (simp add: planned_transfer_schedule_with_policy_def parts_def)
  note facts = planned_parts_schedule [OF assms(1) run]
  have "(\<lambda>e. (part_index e, value_zatoshi e)) ` set schedule = (\<lambda>(i, v). (Some i, v)) ` set parts"
    using conjunct1 [OF facts] by (metis set_map set_mset_mset)
  then have "(part_index e, value_zatoshi e) \<in> (\<lambda>(i, v). (Some i, v)) ` set parts" using e by blast
  moreover have "\<forall>(i, v) \<in> set parts. i < 2 ^ 32" by (auto simp: parts_def)
  ultimately show "\<exists>i < 2 ^ 32. part_index e = Some i" by auto
  show "block_offset e < 2 ^ 32" using facts e by simp
qed

end
