(* ===== verification/PreparationHeights.thy ===== *)
theory PreparationHeights
  imports ScheduleCorrect
begin

text \<open>
  The heights drawn for the preparation transactions: every layer is scheduled past the layer before
  it by the required confirmations, and a catch-up only ever postpones.
\<close>

section \<open>One layer\<close>

lemma schedule_layer_result:
  "schedule_layer rng ops network prep policy n stages h heights g = Some (Inr ((h', heights'), g')) \<Longrightarrow>
   \<forall>s \<in> set stages. s < length heights \<Longrightarrow>
   h \<le> h' \<and> length heights' = length heights \<and>
   (\<forall>s. s \<notin> set stages \<longrightarrow> heights' ! s = heights ! s) \<and>
   (\<forall>s \<in> set stages. h \<le> heights' ! s \<and> heights' ! s \<le> h')"
proof (induction stages arbitrary: h heights g)
  case Nil
  then show ?case by simp
next
  case (Cons s stages)
  obtain k g1 where k: "h \<le> k"
    "schedule_layer rng ops network prep policy n stages k (heights[s := k]) g1 = Some (Inr ((h', heights'), g'))"
    using Cons.prems(1)
    by (auto simp: checked_add_def intro: that [OF le_add1] that [OF order_refl]
        split: if_split_asm option.split_asm)
  note IH = Cons.IH [OF k(2)]
  show ?case
  proof (cases "s \<in> set stages")
    case True
    then show ?thesis using IH Cons.prems(2) k(1) by fastforce
  next
    case False
    then have "heights' ! s = k" "k \<le> h'" using IH Cons.prems(2) by auto
    then show ?thesis using IH Cons.prems(2) k(1) by fastforce
  qed
qed

lemma schedule_layer_immediate:
  "schedule_layer rng ops network Immediate policy n stages h heights g =
     Some (Inr ((h, foldl (\<lambda>hs s. hs[s := h]) heights stages), g))"
  by (induction stages arbitrary: heights) simp_all

lemma set_layer_stage_indices:
  "set (layer_stage_indices stage_layers l) = {s. s < length stage_layers \<and> stage_layers ! s = l}"
  by (auto simp: layer_stage_indices_def)

section \<open>All layers\<close>

definition layered :: "nat list \<Rightarrow> nat set \<Rightarrow> nat \<Rightarrow> nat \<Rightarrow> nat list \<Rightarrow> bool" where
  "layered stage_layers layers confirmations base heights \<longleftrightarrow>
     (\<forall>s < length stage_layers. stage_layers ! s \<in> layers \<longrightarrow> base \<le> heights ! s) \<and>
     (\<forall>s < length stage_layers. \<forall>t < length stage_layers.
        stage_layers ! s \<in> layers \<longrightarrow> stage_layers ! t \<in> layers \<longrightarrow> stage_layers ! s < stage_layers ! t \<longrightarrow>
        heights ! s + confirmations \<le> heights ! t)"

lemma schedule_layers_result:
  assumes "permuting rng"
  shows "schedule_layers rng ops confirmations network prep policy stage_layers layers base heights g
      = Some (Inr (heights', g')) \<Longrightarrow>
    length heights = length stage_layers \<Longrightarrow> sorted_wrt (<) layers \<Longrightarrow>
    length heights' = length heights \<and>
    (\<forall>s < length stage_layers. stage_layers ! s \<notin> set layers \<longrightarrow> heights' ! s = heights ! s) \<and>
    layered stage_layers (set layers) confirmations base heights'"
proof (induction layers arbitrary: base heights g)
  case Nil
  then show ?case by (simp add: layered_def)
next
  case (Cons l layers)
  let ?stages = "layer_stage_indices stage_layers l"
  obtain order g1 where order: "(if prep = Zip318Spaced then shuffle rng ?stages g else (?stages, g)) = (order, g1)"
    by force
  have set_order: "set order = {s. s < length stage_layers \<and> stage_layers ! s = l}"
    using order set_shuffle [OF assms, of ?stages g] set_layer_stage_indices [of stage_layers l]
    by (auto split: if_splits)
  from Cons.prems(1) obtain h hs g2 where
    layer: "schedule_layer rng ops network prep policy (length stage_layers) order base heights g1 = Some (Inr ((h, hs), g2))"
    and rest: "schedule_layers rng ops confirmations network prep policy stage_layers layers (h + confirmations) hs g2
      = Some (Inr (heights', g'))"
    by (auto simp: order Let_def and_draw_eq_Inr checked_add_def split: if_split_asm)
  have here: "base \<le> h" "length hs = length stage_layers"
    "\<forall>s. s \<notin> set order \<longrightarrow> hs ! s = heights ! s"
    "\<forall>s \<in> set order. base \<le> hs ! s \<and> hs ! s \<le> h"
    using schedule_layer_result [OF layer] set_order Cons.prems(2) by auto
  have later: "length heights' = length hs"
    "\<forall>s < length stage_layers. stage_layers ! s \<notin> set layers \<longrightarrow> heights' ! s = hs ! s"
    "layered stage_layers (set layers) confirmations (h + confirmations) heights'"
    using Cons.IH [OF rest here(2)] Cons.prems(3) by simp_all
  have above: "l < l'" if "l' \<in> set layers" for l' using that Cons.prems(3) by simp
  have mine: "base \<le> heights' ! s \<and> heights' ! s \<le> h" if "s < length stage_layers" "stage_layers ! s = l" for s
    using that later(2) here(4) set_order above by force
  have "layered stage_layers (set (l # layers)) confirmations base heights'"
    unfolding layered_def
  proof (intro conjI allI impI)
    fix s assume "s < length stage_layers" "stage_layers ! s \<in> set (l # layers)"
    then show "base \<le> heights' ! s"
      using mine [of s] later(3) here(1) unfolding layered_def by fastforce
  next
    fix s t
    assume "s < length stage_layers" "t < length stage_layers" "stage_layers ! s \<in> set (l # layers)"
      "stage_layers ! t \<in> set (l # layers)" "stage_layers ! s < stage_layers ! t"
    then show "heights' ! s + confirmations \<le> heights' ! t"
      using mine [of s] later(3) above [of "stage_layers ! s"] unfolding layered_def by fastforce
  qed
  moreover have "\<forall>s < length stage_layers. stage_layers ! s \<notin> set (l # layers) \<longrightarrow> heights' ! s = heights ! s"
    using later(2) here(3) set_order by auto
  ultimately show ?case using later(1) here(2) Cons.prems(2) by simp
qed

lemma preparation_heights_layered:
  assumes "permuting rng"
    and "planned_preparation_scheduled_heights rng ops confirmations network prep policy target stage_layers g
      = Some (Inr (heights, g'))"
  shows "length heights = length stage_layers \<and>
    (\<forall>s < length stage_layers. target - 1 \<le> heights ! s) \<and>
    (\<forall>s < length stage_layers. \<forall>t < length stage_layers.
       stage_layers ! s < stage_layers ! t \<longrightarrow> heights ! s + confirmations \<le> heights ! t)"
proof (cases "stage_layers = []")
  case True
  then show ?thesis using assms(2) by (simp add: planned_preparation_scheduled_heights_def)
next
  case False
  let ?layers = "[0..<Suc (Max (set stage_layers))]"
  have run: "schedule_layers rng ops confirmations network prep policy stage_layers ?layers (target - 1)
      (replicate (length stage_layers) 0) g = Some (Inr (heights, g'))"
    using assms(2) False by (simp add: planned_preparation_scheduled_heights_def)
  have "stage_layers ! s \<in> set ?layers" if "s < length stage_layers" for s
    using that Max_ge [of "set stage_layers" "stage_layers ! s"] by (simp del: upt_Suc add: less_Suc_eq_le)
  moreover have "length heights = length stage_layers \<and>
      layered stage_layers (set ?layers) confirmations (target - 1) heights"
    using schedule_layers_result [OF assms(1) run] sorted_wrt_upt [of 0 "Suc (Max (set stage_layers))"]
    by (simp del: upt_Suc)
  ultimately show ?thesis unfolding layered_def by blast
qed

section \<open>Catching up\<close>

lemma set_remaining_rows: "set (remaining_rows rows) = {row \<in> set rows. remaining_row row}"
  by (auto simp: remaining_rows_def)

text \<open>A row of the table after the catch-up: untouched, or postponed past the tip and its own heights.\<close>

definition postponed :: "nat \<Rightarrow> stage_row \<Rightarrow> stage_row \<Rightarrow> bool" where
  "postponed tip row row' \<longleftrightarrow>
     (\<exists>h. row' = row\<lparr>row_not_before_height := Some h\<rparr> \<and> tip \<le> h \<and> row_scheduled_height row \<le> h \<and>
          or_zero (row_not_before_height row) \<le> h)"

lemma catch_up_rows_untouched:
  "catch_up_rows rng ops network policy n todo h rows g = Some (Inr (rows', g')) \<Longrightarrow>
   length rows' = length rows \<and>
   (\<forall>i < length rows. (row_stage_index (rows ! i) \<notin> row_stage_index ` set todo \<or> \<not> remaining_row (rows ! i)) \<longrightarrow>
      rows' ! i = rows ! i)"
proof (induction todo arbitrary: h rows g)
  case (Cons r todo)
  from Cons.prems obtain e g1 where
    e: "catch_up_rows rng ops network policy n todo e (postpone_row (row_stage_index r) e rows) g1 = Some (Inr (rows', g'))"
    by (auto simp: Let_def split: option.splits)
  show ?case
    using Cons.IH [OF e] by (auto simp: postpone_row_def)
qed simp

lemma catch_up_rows_postponed:
  "catch_up_rows rng ops network policy n todo h rows g = Some (Inr (rows', g')) \<Longrightarrow>
   distinct (map row_stage_index todo) \<Longrightarrow>
   i < length rows \<Longrightarrow> remaining_row (rows ! i) \<Longrightarrow> rows ! i \<in> set todo \<Longrightarrow> postponed h (rows ! i) (rows' ! i)"
proof (induction todo arbitrary: h rows g)
  case (Cons r todo)
  from Cons.prems(1) obtain d g1 where
    rest: "catch_up_rows rng ops network policy n todo
      (max (max (h + d) (row_scheduled_height r)) (or_zero (row_not_before_height r)))
      (postpone_row (row_stage_index r)
        (max (max (h + d) (row_scheduled_height r)) (or_zero (row_not_before_height r))) rows) g1
      = Some (Inr (rows', g'))"
    by (auto simp: Let_def checked_add_def split: option.split_asm if_split_asm)
  define e where "e = max (max (h + d) (row_scheduled_height r)) (or_zero (row_not_before_height r))"
  have e: "h \<le> e" "row_scheduled_height r \<le> e" "or_zero (row_not_before_height r) \<le> e"
    by (auto simp: e_def)
  note rest = rest [folded e_def]
  let ?rows = "postpone_row (row_stage_index r) e rows"
  show ?case
  proof (cases "rows ! i = r")
    case True
    have "?rows ! i = r\<lparr>row_not_before_height := Some e\<rparr>"
      using Cons.prems(3,4) True by (simp add: postpone_row_def)
    moreover have "row_stage_index (?rows ! i) \<notin> row_stage_index ` set todo"
      using Cons.prems(2) calculation by simp
    then have "rows' ! i = ?rows ! i"
      using catch_up_rows_untouched [OF rest] Cons.prems(3) by (simp add: postpone_row_def)
    ultimately show ?thesis using True e by (auto simp: postponed_def)
  next
    case False
    then have todo: "rows ! i \<in> set todo" using Cons.prems(5) by simp
    then have "row_stage_index (rows ! i) \<noteq> row_stage_index r" using Cons.prems(2) by (auto simp: image_iff)
    then have "?rows ! i = rows ! i" using Cons.prems(3) by (simp add: postpone_row_def)
    then have "postponed e (rows ! i) (rows' ! i)"
      using Cons.IH [OF rest] Cons.prems(2,3,4) todo by (simp add: postpone_row_def)
    then show ?thesis using e(1) by (auto simp: postponed_def)
  qed
qed simp

lemma rerandomize_postpones:
  assumes run: "rerandomize_remaining_preparation_broadcast_heights rng ops Zip318Spaced policy network tip rows g
      = Some (Inr ((rows', n), g'))"
    and keys: "distinct (map row_stage_index rows)" and i: "i < length rows"
  shows "if remaining_row (rows ! i) then postponed tip (rows ! i) (rows' ! i) else rows' ! i = rows ! i"
proof -
  from run have loop: "\<exists>g1. catch_up_rows rng ops network policy (length rows) (remaining_rows rows) tip rows g
      = Some (Inr (rows', g1))"
    by (auto simp: rerandomize_remaining_preparation_broadcast_heights_def Let_def and_draw_eq_Inr split: if_splits)
  then obtain g1 where loop: "catch_up_rows rng ops network policy (length rows) (remaining_rows rows) tip rows g
      = Some (Inr (rows', g1))" by blast
  have "mset (map row_stage_index (remaining_rows rows)) = mset (map row_stage_index (filter remaining_row rows))"
    by (simp add: remaining_rows_def)
  then have "distinct (map row_stage_index (remaining_rows rows))"
    using keys by (metis distinct_map_filter mset_eq_imp_distinct_iff)
  then show ?thesis
    using catch_up_rows_postponed [OF loop] catch_up_rows_untouched [OF loop] i set_remaining_rows [of rows]
    by auto
qed

end
