(* ===== verification/TimingProjection.thy ===== *)
theory TimingProjection
  imports Schedule
begin

text \<open>
  The projection of a running migration shown to the user, the choice of the parts of the next
  signing batch, and the target value shown for a preparation output
  (\<open>calculate_migration_timing_projection\<close>, \<open>select_migration_batch_signing_part_indices\<close> and
  \<open>migration_preparation_output_target_value\<close> of \<open>rust/src/wallet/sync/migration.rs\<close>). What the
  callers read from the database are the arguments.
\<close>

section \<open>Data\<close>

record timing_pending_part =
  pending_part_index :: "nat option"
  pending_target_height :: nat
  pending_schedule_start_height :: "nat option"
  pending_scheduled_height :: nat
  pending_status :: string
  pending_mined_height :: "nat option"

record timing_signed_child =
  child_part_index :: nat
  child_target_height :: nat
  child_scheduled_height :: "nat option"

record projected_signed_part =
  projected_part_index :: nat
  projected_start_height :: nat
  projected_scheduled_height :: nat

record timing_projection =
  next_action_height :: "nat option"
  next_proof_window_height :: "nat option"
  next_proof_window_part_indices :: "nat list"
  estimated_completion_height :: "nat option"
  next_action_part_index :: "nat option"
  schedule_order_by_part :: "nat \<rightharpoonup> nat"
  projected_signed_parts :: "projected_signed_part list"

datatype projection_error =
  OrderExceedsU32 | NoScheduleOrigin | MissingChildSchedule | ChildScheduleUnderflow
| BroadcastHeightOverflow | PartCountOverflow | ConfirmationHeightOverflow | CompletionHeightOverflow

type_synonym 'a projected = "projection_error + 'a"

section \<open>Selecting minima\<close>

text \<open>\<open>Iterator::min_by_key\<close> returns the first of several minima.\<close>

fun min_by_key :: "('a \<Rightarrow> nat) \<Rightarrow> 'a list \<Rightarrow> 'a option" where
  "min_by_key key [] = None"
| "min_by_key key (x # xs) =
     (case min_by_key key xs of
        None \<Rightarrow> Some x
      | Some y \<Rightarrow> Some (if key x \<le> key y then x else y))"

definition max_opt :: "nat list \<Rightarrow> nat option" where
  "max_opt xs = (if xs = [] then None else Some (Max (set xs)))"

definition min_opt :: "nat list \<Rightarrow> nat option" where
  "min_opt xs = (if xs = [] then None else Some (Min (set xs)))"

definition or_else :: "'a option \<Rightarrow> 'a option \<Rightarrow> 'a option" where
  "or_else a b = (if a = None then b else a)"

section \<open>The projection\<close>

definition insert_schedule_order ::
  "(nat \<rightharpoonup> nat) \<Rightarrow> nat \<times> migration_schedule_entry \<Rightarrow> (nat \<rightharpoonup> nat) projected" where
  "insert_schedule_order orders indexed =
     (case indexed of (order, entry) \<Rightarrow>
      (case part_index entry of
         None \<Rightarrow> Inr orders
       | Some index \<Rightarrow> if order < 2 ^ 32 then Inr (orders(index \<mapsto> order)) else Inl OrderExceedsU32))"

definition proof_window_parts :: "(nat \<rightharpoonup> nat) \<Rightarrow> nat list \<Rightarrow> nat list" where
  "proof_window_parts orders indices =
     sort_key (\<lambda>index. (case orders index of None \<Rightarrow> 2 ^ 32 - 1 | Some order \<Rightarrow> order, index)) indices"

definition child_offset :: "migration_schedule_entry list \<Rightarrow> timing_signed_child \<Rightarrow> nat option" where
  "child_offset schedule child =
     (if \<forall>entry \<in> set schedule. part_index entry \<noteq> None
      then map_option block_offset (find (\<lambda>entry. part_index entry = Some (child_part_index child)) schedule)
      else max_opt (map block_offset schedule))"

definition persisted_schedule_origin :: "timing_pending_part list \<Rightarrow> nat option" where
  "persisted_schedule_origin pending =
     (case pending of
        [] \<Rightarrow> None
      | part # parts \<Rightarrow>
          Some (case pending_schedule_start_height part of
                  Some height \<Rightarrow> height
                | None \<Rightarrow> saturating_sub (pending_target_height part) 1))"

definition fallback_schedule_origin ::
  "nat option \<Rightarrow> nat option \<Rightarrow> timing_signed_child list \<Rightarrow> nat option \<Rightarrow> nat \<Rightarrow> nat option" where
  "fallback_schedule_origin persisted_origin rebased_origin signed_children proof_retry_height scanned_height =
     or_else persisted_origin (or_else rebased_origin
       (map_option (\<lambda>height. max (max height (or_zero proof_retry_height)) scanned_height)
         (max_opt (map (\<lambda>child. saturating_sub (child_target_height child) 1) signed_children))))"

definition project_child ::
  "migration_schedule_entry list \<Rightarrow> nat option \<Rightarrow> nat option \<Rightarrow> nat \<Rightarrow> nat option \<Rightarrow> timing_signed_child \<Rightarrow>
     projected_signed_part projected" where
  "project_child schedule persisted_origin rebased_origin fallback_origin proof_retry_height child =
     and_then (ok_or (child_offset schedule child) MissingChildSchedule) (\<lambda>offset.
     case (if persisted_origin \<noteq> None \<or> rebased_origin \<noteq> None then child_scheduled_height child else None) of
       Some scheduled_height \<Rightarrow>
         and_then (ok_or (checked_sub scheduled_height offset) ChildScheduleUnderflow) (\<lambda>start.
         Inr \<lparr> projected_part_index = child_part_index child, projected_start_height = start,
               projected_scheduled_height = max scheduled_height (or_zero proof_retry_height) \<rparr>)
     | None \<Rightarrow>
         and_then (ok_or (checked_add 32 fallback_origin offset) BroadcastHeightOverflow) (\<lambda>scheduled_height.
         Inr \<lparr> projected_part_index = child_part_index child, projected_start_height = fallback_origin,
               projected_scheduled_height =
                 (if persisted_origin \<noteq> None then max scheduled_height (or_zero proof_retry_height)
                  else scheduled_height) \<rparr>))"

definition project_signed_children ::
  "migration_schedule_entry list \<Rightarrow> timing_pending_part list \<Rightarrow> timing_signed_child list \<Rightarrow> nat option \<Rightarrow>
     nat option \<Rightarrow> nat \<Rightarrow> projected_signed_part list projected" where
  "project_signed_children schedule pending signed_children proof_retry_height rebased_origin scanned_height =
     (if signed_children = [] then Inr []
      else
        let persisted_origin = persisted_schedule_origin pending in
        and_then (ok_or (fallback_schedule_origin persisted_origin rebased_origin signed_children
                   proof_retry_height scanned_height) NoScheduleOrigin) (\<lambda>fallback_origin.
        collect_results (map (project_child schedule persisted_origin rebased_origin fallback_origin
          proof_retry_height) signed_children)))"

definition catch_up_schedule_pending ::
  "timing_pending_part list \<Rightarrow> projected_signed_part list \<Rightarrow> nat option \<Rightarrow> bool" where
  "catch_up_schedule_pending pending projected_parts proof_retry_height =
     (case proof_retry_height of
        None \<Rightarrow> False
      | Some retry_height \<Rightarrow>
          1 < length (filter (\<lambda>part. pending_status part = ''scheduled'' \<and> pending_scheduled_height part \<le> retry_height)
                       pending)
            + length (filter (\<lambda>part. projected_scheduled_height part \<le> retry_height) projected_parts))"

definition complete_pending_part ::
  "nat \<Rightarrow> nat option \<Rightarrow> timing_pending_part \<Rightarrow> nat option projected" where
  "complete_pending_part confirmation_target last_height part =
     (let lag = (if pending_mined_height part \<noteq> None then saturating_sub confirmation_target 1
                 else confirmation_target);
          base = (case pending_mined_height part of Some height \<Rightarrow> height | None \<Rightarrow> pending_scheduled_height part)
      in and_then (ok_or (checked_add 32 base lag) ConfirmationHeightOverflow) (\<lambda>completion_height.
         Inr (Some (case last_height of
                      None \<Rightarrow> completion_height
                    | Some height \<Rightarrow> max height completion_height))))"

definition completion_height ::
  "timing_pending_part list \<Rightarrow> projected_signed_part list \<Rightarrow> nat \<Rightarrow> nat option projected" where
  "completion_height pending projected_parts confirmation_target =
     and_then (try_fold (complete_pending_part confirmation_target) None pending) (\<lambda>last_height.
     case max_opt (map projected_scheduled_height projected_parts) of
       None \<Rightarrow> Inr last_height
     | Some broadcast_height \<Rightarrow>
         and_then (ok_or (checked_add 32 broadcast_height confirmation_target) CompletionHeightOverflow)
           (\<lambda>projected_height.
         Inr (Some (case last_height of
                      None \<Rightarrow> projected_height
                    | Some height \<Rightarrow> max height projected_height))))"

type_synonym action = "nat \<times> nat option"

definition scheduled_action :: "timing_pending_part list \<Rightarrow> action option" where
  "scheduled_action pending =
     map_option (\<lambda>part. (pending_scheduled_height part, pending_part_index part))
       (min_by_key pending_scheduled_height (filter (\<lambda>part. pending_status part = ''scheduled'') pending))"

definition proof_action :: "timing_signed_child list \<Rightarrow> nat option \<Rightarrow> action option" where
  "proof_action signed_children proof_retry_height =
     (if signed_children = [] then None
      else map_option (\<lambda>height. (height, min_opt (map child_part_index signed_children))) proof_retry_height)"

definition projected_action ::
  "timing_pending_part list \<Rightarrow> nat option \<Rightarrow> projected_signed_part list \<Rightarrow> action option" where
  "projected_action pending rebased_origin projected_parts =
     (if rebased_origin \<noteq> None \<and> pending = []
      then map_option (\<lambda>part. (projected_scheduled_height part, Some (projected_part_index part)))
             (min_by_key projected_scheduled_height projected_parts)
      else None)"

definition next_action :: "action option list \<Rightarrow> action option" where
  "next_action candidates = min_by_key fst (List.map_filter id candidates)"

definition calculate_migration_timing_projection ::
  "migration_schedule_entry list \<Rightarrow> timing_pending_part list \<Rightarrow> timing_signed_child list \<Rightarrow> nat option \<Rightarrow>
     nat option \<Rightarrow> nat \<Rightarrow> nat \<Rightarrow> nat \<Rightarrow> timing_projection projected" where
  "calculate_migration_timing_projection schedule pending signed_children proof_retry_height rebased_origin
     current_scanned_height total_count confirmation_target =
     and_then (try_fold insert_schedule_order Map.empty (enumerate 0 schedule)) (\<lambda>orders.
     let proof_next = proof_action signed_children proof_retry_height;
         proof_parts = (if proof_next = None then []
                        else proof_window_parts orders (map child_part_index signed_children)) in
     and_then (project_signed_children schedule pending signed_children proof_retry_height rebased_origin
         current_scanned_height) (\<lambda>projected_parts.
     let action = next_action [scheduled_action pending, proof_next,
                    projected_action pending rebased_origin projected_parts] in
     and_then (ok_or (checked_add 64 (length pending) (length signed_children)) PartCountOverflow)
       (\<lambda>accounted_count.
     and_then
       (if accounted_count = total_count \<and> \<not> (\<exists>part \<in> set pending. pending_status part = ''needs_resign'') \<and>
           \<not> catch_up_schedule_pending pending projected_parts proof_retry_height
        then completion_height pending projected_parts confirmation_target
        else Inr None) (\<lambda>completion.
     Inr \<lparr> next_action_height = map_option fst action,
           next_proof_window_height = map_option fst proof_next,
           next_proof_window_part_indices = proof_parts,
           estimated_completion_height = completion,
           next_action_part_index = Option.bind action snd,
           schedule_order_by_part = orders,
           projected_signed_parts = projected_parts \<rparr>))))"

section \<open>Signing batches and preparation outputs\<close>

datatype batch_error = NoPreparedNotes | SignedCountOverflow | AllSigned

datatype stage_output_kind = MigrationOutput | ChangeOutput | ContinuationOutput

text \<open>The batch limit is the constant of the Keystone protocol, \<open>max_parts\<close>.\<close>

definition select_migration_batch_signing_part_indices ::
  "nat \<Rightarrow> nat \<Rightarrow> nat \<Rightarrow> nat \<Rightarrow> nat list \<Rightarrow> batch_error failure + nat list" where
  "select_migration_batch_signing_part_indices max_parts prepared_note_count pending_tx_count
     signed_child_pczt_count recovery_part_indices =
     (if recovery_part_indices \<noteq> [] then Inr (take max_parts recovery_part_indices)
      else if prepared_note_count = 0 then Inl (Err NoPreparedNotes)
      else and_then (ok_or (checked_add 32 pending_tx_count signed_child_pczt_count) (Err SignedCountOverflow))
        (\<lambda>assigned_count.
        if assigned_count \<ge> prepared_note_count then Inl (Err AllSigned)
        else and_then (add_u 32 assigned_count max_parts) (\<lambda>limit.
          Inr [assigned_count..<min prepared_note_count limit])))"

definition best_target :: "nat list \<Rightarrow> nat set \<Rightarrow> nat \<Rightarrow> nat option" where
  "best_target target_values assigned limit =
     (let candidates = filter (\<lambda>(index, value). index < 2 ^ 32 \<and> index \<notin> assigned \<and> value \<le> limit)
                         (enumerate 0 target_values)
      in if candidates = [] then None
         else Some (Max (set (map fst (filter (\<lambda>(index, value). value = Max (set (map snd candidates)))
                candidates)))))"

definition migration_preparation_output_target_value ::
  "stage_output_kind \<Rightarrow> nat option \<Rightarrow> nat \<Rightarrow> nat list \<Rightarrow> nat set \<Rightarrow> nat option \<times> nat set" where
  "migration_preparation_output_target_value kind index output_value target_values assigned =
     (if kind \<noteq> MigrationOutput then (None, assigned)
      else
        let explicit = (case index of
              Some i \<Rightarrow> if i < length target_values \<and> i \<notin> assigned then Some i else None
            | None \<Rightarrow> None);
            part = or_else explicit (best_target target_values assigned output_value)
        in (case part of
              None \<Rightarrow> (None, assigned)
            | Some i \<Rightarrow> (Some (target_values ! i), insert i assigned)))"

end
