(* ===== verification/TimingProjectionCorrect.thy ===== *)
theory TimingProjectionCorrect
  imports TimingProjection
begin

text \<open>
  What the timing projection promises: the next action is an earliest one, the estimate is the last
  completion of the parts, no part is projected before its proof can be built, and signing batches
  and preparation outputs never hand out a part twice.
\<close>

section \<open>Minima\<close>

lemma min_by_key_None [simp]: "min_by_key key xs = None \<longleftrightarrow> xs = []"
  by (cases xs) (auto split: option.splits)

lemma min_by_key_Some: "min_by_key key xs = Some y \<Longrightarrow> y \<in> set xs \<and> (\<forall>x \<in> set xs. key y \<le> key x)"
proof (induction xs arbitrary: y)
  case (Cons x xs)
  then show ?case by (fastforce split: option.splits if_splits)
qed simp

lemma max_opt_eq_Some: "max_opt xs = Some m \<longleftrightarrow> m \<in> set xs \<and> (\<forall>x \<in> set xs. x \<le> m)"
proof (cases "xs = []")
  case False
  then show ?thesis
    using Max_eq_iff [of "set xs" m] by (auto simp: max_opt_def)
qed (simp add: max_opt_def)

lemma max_opt_None [simp]: "max_opt xs = None \<longleftrightarrow> xs = []"
  by (simp add: max_opt_def)

lemma next_action_earliest:
  assumes "next_action candidates = Some a"
  shows "Some a \<in> set candidates \<and> (\<forall>b. Some b \<in> set candidates \<longrightarrow> fst a \<le> fst b)"
  using min_by_key_Some [OF assms [unfolded next_action_def]] by (auto simp: in_set_map_filter)

lemma next_action_None:
  "next_action candidates = None \<longleftrightarrow> (\<forall>b. Some b \<notin> set candidates)"
  by (auto simp: next_action_def map_filter_def filter_empty_conv)

section \<open>Unfolding a projection\<close>

lemma projection_Inr:
  assumes "calculate_migration_timing_projection schedule pending children retry rebased scanned part_total target = Inr p"
  shows "project_signed_children schedule pending children retry rebased scanned = Inr (projected_signed_parts p)"
    and "next_action_height p = map_option fst (next_action [scheduled_action pending, proof_action children retry,
           projected_action pending rebased (projected_signed_parts p)])"
    and "next_action_part_index p = Option.bind (next_action [scheduled_action pending, proof_action children retry,
           projected_action pending rebased (projected_signed_parts p)]) snd"
    and "estimated_completion_height p = Some h \<Longrightarrow>
           completion_height pending (projected_signed_parts p) target = Inr (Some h) \<and>
           length pending + length children = part_total \<and>
           (\<forall>part \<in> set pending. pending_status part \<noteq> ''needs_resign'')"
  using assms unfolding calculate_migration_timing_projection_def
  by (auto simp: Let_def and_then_eq_Inr ok_or_eq_Inr dest!: checked_add_SomeD split: if_splits)

section \<open>The next action\<close>

lemma projection_next_action:
  assumes "calculate_migration_timing_projection schedule pending children retry rebased scanned part_total target = Inr p"
    and "part \<in> set pending" "pending_status part = ''scheduled''"
  shows "\<exists>h. next_action_height p = Some h \<and> h \<le> pending_scheduled_height part"
proof -
  let ?cs = "[scheduled_action pending, proof_action children retry,
    projected_action pending rebased (projected_signed_parts p)]"
  have "filter (\<lambda>part. pending_status part = ''scheduled'') pending \<noteq> []"
    using assms(2,3) by (auto simp: filter_empty_conv)
  then obtain m where m: "min_by_key pending_scheduled_height
      (filter (\<lambda>part. pending_status part = ''scheduled'') pending) = Some m"
    by (metis min_by_key_None not_None_eq)
  then have "pending_scheduled_height m \<le> pending_scheduled_height part"
    using min_by_key_Some [OF m] assms(2,3) by simp
  moreover have mem: "Some (pending_scheduled_height m, pending_part_index m) \<in> set ?cs"
    using m by (simp add: scheduled_action_def)
  moreover obtain a where a: "next_action ?cs = Some a"
    using mem next_action_None [of ?cs] by (metis not_None_eq)
  ultimately have "fst a \<le> pending_scheduled_height part"
    using next_action_earliest [OF a] by fastforce
  then show ?thesis using projection_Inr(2) [OF assms(1)] a by auto
qed

lemma projection_proof_action:
  assumes "calculate_migration_timing_projection schedule pending children (Some retry) rebased scanned part_total target = Inr p"
    and "children \<noteq> []"
  shows "\<exists>h. next_action_height p = Some h \<and> h \<le> retry"
proof -
  let ?cs = "[scheduled_action pending, proof_action children (Some retry),
    projected_action pending rebased (projected_signed_parts p)]"
  have mem: "Some (retry, min_opt (map child_part_index children)) \<in> set ?cs"
    using assms(2) by (simp add: proof_action_def)
  then obtain a where a: "next_action ?cs = Some a"
    using next_action_None [of ?cs] by (metis not_None_eq)
  then have "fst a \<le> retry" using next_action_earliest [OF a] mem by fastforce
  then show ?thesis using projection_Inr(2) [OF assms(1)] a by auto
qed

section \<open>Projected parts\<close>

lemma project_child_fields:
  assumes "project_child schedule persisted rebased origin retry child = Inr part"
  shows "projected_part_index part = child_part_index child"
    and "persisted \<noteq> None \<or> rebased = None \<and> or_zero retry \<le> origin
         \<Longrightarrow> or_zero retry \<le> projected_scheduled_height part"
    and "\<exists>offset. child_offset schedule child = Some offset
           \<and> projected_start_height part + offset \<le> projected_scheduled_height part"
  using assms unfolding project_child_def
  by (auto simp: and_then_eq_Inr ok_or_eq_Inr split: option.splits if_splits
      dest!: checked_add_SomeD checked_sub_SomeD)

lemma projected_children:
  assumes "project_signed_children schedule pending children retry rebased scanned = Inr parts"
  shows "map projected_part_index parts = map child_part_index children"
    and "rebased = None \<Longrightarrow> part \<in> set parts \<Longrightarrow> or_zero retry \<le> projected_scheduled_height part"
proof -
  consider (empty) "children = []" "parts = []"
    | (some) origin where "children \<noteq> []"
        "fallback_schedule_origin (persisted_schedule_origin pending) rebased children retry scanned = Some origin"
        "map (project_child schedule (persisted_schedule_origin pending) rebased origin retry) children = map Inr parts"
    using assms unfolding project_signed_children_def
    by (auto simp: Let_def and_then_eq_Inr ok_or_eq_Inr collect_results_Inr split: if_splits)
  then have "map projected_part_index parts = map child_part_index children \<and>
    (rebased = None \<longrightarrow> (\<forall>part \<in> set parts. or_zero retry \<le> projected_scheduled_height part))"
  proof cases
    case empty
    then show ?thesis by simp
  next
    case some
    have len: "length parts = length children" using some(3) by (metis length_map)
    have each: "project_child schedule (persisted_schedule_origin pending) rebased origin retry (children ! i)
        = Inr (parts ! i)" if "i < length children" for i
      using some(3) that len by (metis nth_map)
    have "map projected_part_index parts = map child_part_index children"
      using len project_child_fields(1) [OF each] by (intro nth_equalityI) auto
    moreover have "or_zero retry \<le> origin" if "rebased = None" "persisted_schedule_origin pending = None"
      using some(2) that by (auto simp: fallback_schedule_origin_def or_else_def)
    then have "or_zero retry \<le> projected_scheduled_height (parts ! i)" if "rebased = None" "i < length children" for i
      using project_child_fields(2) [OF each [OF that(2)]] that(1) by blast
    ultimately show ?thesis using len by (auto simp: in_set_conv_nth)
  qed
  then show "map projected_part_index parts = map child_part_index children"
    and "rebased = None \<Longrightarrow> part \<in> set parts \<Longrightarrow> or_zero retry \<le> projected_scheduled_height part" by simp_all
qed

section \<open>The estimate\<close>

text \<open>When one part completes: mined and confirmed, or broadcast at its height and confirmed.\<close>

definition part_completion :: "nat \<Rightarrow> timing_pending_part \<Rightarrow> nat" where
  "part_completion target part = (case pending_mined_height part of
      Some mined \<Rightarrow> mined + (target - 1)
    | None \<Rightarrow> pending_scheduled_height part + target)"

lemma complete_pending_part_Inr:
  "complete_pending_part target latest part = Inr r \<Longrightarrow>
   r = Some (max (or_zero latest) (part_completion target part))"
  by (auto simp: complete_pending_part_def part_completion_def or_zero_def Let_def and_then_eq_Inr ok_or_eq_Inr
      split: option.splits if_splits dest!: checked_add_SomeD)

lemma complete_pending_parts:
  "try_fold (complete_pending_part target) latest parts = Inr r \<Longrightarrow>
   r = (if parts = [] then latest else Some (Max (set (or_zero latest # map (part_completion target) parts))))"
proof (induction parts arbitrary: latest)
  case (Cons part parts)
  then obtain l where l: "complete_pending_part target latest part = Inr l"
    and rest: "try_fold (complete_pending_part target) l parts = Inr r"
    by (auto simp: and_then_eq_Inr)
  have "l = Some (max (or_zero latest) (part_completion target part))"
    by (rule complete_pending_part_Inr [OF l])
  then show ?case
    using Cons.IH [OF rest]
    by (cases "parts = []") (simp_all add: or_zero_def max.assoc)
qed simp

lemma completion_height_max:
  assumes "completion_height pending parts target = Inr r"
  shows "r = max_opt (map (part_completion target) pending
               @ map (\<lambda>part. projected_scheduled_height part + target) parts)"
proof -
  obtain latest where fold: "try_fold (complete_pending_part target) None pending = Inr latest"
    using assms by (auto simp: completion_height_def and_then_eq_Inr)
  have latest: "latest = max_opt (map (part_completion target) pending)"
    using complete_pending_parts [OF fold] by (cases "pending = []") (simp_all add: max_opt_def or_zero_def)
  show ?thesis
  proof (cases "parts = []")
    case True
    then show ?thesis using assms fold latest by (simp add: completion_height_def max_opt_def)
  next
    case False
    let ?top = "Max (projected_scheduled_height ` set parts)"
    have "Max ((\<lambda>x. x + target) ` projected_scheduled_height ` set parts) = ?top + target"
      using False by (intro mono_Max_commute [symmetric]) (auto simp: mono_def)
    then have top: "Max (set (map (\<lambda>part. projected_scheduled_height part + target) parts)) = ?top + target"
      by (simp add: image_image)
    have "r = Some (case latest of None \<Rightarrow> ?top + target | Some h \<Rightarrow> max h (?top + target))"
      using assms fold False
      by (auto simp: completion_height_def max_opt_def and_then_eq_Inr ok_or_eq_Inr dest!: checked_add_SomeD)
    then show ?thesis
      using top False latest by (cases "pending = []") (simp_all add: max_opt_def Max_Un)
  qed
qed

section \<open>Signing batches\<close>

lemma batch_selection:
  assumes "select_migration_batch_signing_part_indices max_parts prepared in_flight presigned recoveries = Inr parts"
  shows "if recoveries \<noteq> [] then parts = take max_parts recoveries
         else parts = [in_flight + presigned..<min prepared (in_flight + presigned + max_parts)] \<and> in_flight + presigned < prepared"
  using assms unfolding select_migration_batch_signing_part_indices_def
  by (auto simp: and_then_eq_Inr ok_or_eq_Inr split: if_splits dest!: checked_add_SomeD add_u_InrD)

section \<open>Targets of the preparation outputs\<close>

lemma best_target_Some:
  assumes "best_target targets assigned limit = Some i"
  shows "i < length targets \<and> i \<notin> assigned \<and> targets ! i \<le> limit \<and>
    (\<forall>j < length targets. j < 2 ^ 32 \<longrightarrow> j \<notin> assigned \<longrightarrow> targets ! j \<le> limit \<longrightarrow> targets ! j \<le> targets ! i)"
proof -
  define cs where "cs = filter (\<lambda>(index, value). index < 2 ^ 32 \<and> index \<notin> assigned \<and> value \<le> limit)
    (enumerate 0 targets)"
  have cs: "(j, v) \<in> set cs \<longleftrightarrow> j < length targets \<and> v = targets ! j \<and> j < 2 ^ 32 \<and> j \<notin> assigned \<and> v \<le> limit" for j v
    by (auto simp: cs_def in_set_enumerate_eq)
  define m where "m = Max (set (map snd cs))"
  have ne: "cs \<noteq> []" and i: "i = Max (set (map fst (filter (\<lambda>(index, value). value = m) cs)))"
    using assms unfolding best_target_def Let_def cs_def [symmetric] m_def [symmetric]
    by (simp_all only: split: if_split_asm) simp_all
  have "m \<in> set (map snd cs)" unfolding m_def using ne by (intro Max_in) simp_all
  then obtain j where "(j, m) \<in> set cs" by auto
  then have "map fst (filter (\<lambda>(index, value). value = m) cs) \<noteq> []" by (force simp: filter_empty_conv)
  then have "i \<in> set (map fst (filter (\<lambda>(index, value). value = m) cs))"
    unfolding i by (metis List.finite_set Max_in set_empty)
  then have here: "(i, m) \<in> set cs" by auto
  have "v \<le> m" if "(j, v) \<in> set cs" for j v
    unfolding m_def using that by (intro Max_ge) force+
  then show ?thesis using here unfolding cs by blast
qed

lemma output_target:
  assumes "migration_preparation_output_target_value kind index amount targets assigned = (target, assigned')"
  shows "target = None \<and> assigned' = assigned \<or>
    (\<exists>i. kind = MigrationOutput \<and> i < length targets \<and> i \<notin> assigned \<and>
         target = Some (targets ! i) \<and> assigned' = insert i assigned)"
  using assms best_target_Some [of targets assigned amount]
  unfolding migration_preparation_output_target_value_def
  by (auto simp: Let_def or_else_def split: if_splits option.splits)

end
