(* ===== verification/ScheduleProperties.thy ===== *)
theory ScheduleProperties
  imports PreparationHeights TimingProjectionCorrect "HOL-Library.Code_Target_Nat"
begin

text \<open>
  The properties of transfer schedules, preparation heights and the timing projection, each with a
  concrete instance. The example generator returns the word 0 in even states and \<open>2 ^ 63\<close> in odd
  ones and shuffles by reversing; the second word gives a delay beyond the maximum, so the redraw
  loop runs.
\<close>

definition example_rng :: "nat rng" where
  "example_rng = \<lparr> next_u64 = (\<lambda>g. (if even g then 0 else 2 ^ 63, Suc g)),
                  permutation = (\<lambda>n g. (rev [0..<n], Suc g)) \<rparr>"

definition example_ops :: float_ops where
  "example_ops = \<lparr> neg_ln_times = (\<lambda>u mean. (1 - u) * 4000 + 7), float_add = (+) \<rparr>"

definition example_targets :: "nat list" where "example_targets = [5000000, 2000000, 2000000]"

definition example_schedule :: "migration_schedule_entry list" where
  "example_schedule = [\<lparr> part_index = Some 2, value_zatoshi = 2000000, block_offset = 7 \<rparr>,
     \<lparr> part_index = Some 1, value_zatoshi = 2000000, block_offset = 14 \<rparr>,
     \<lparr> part_index = Some 0, value_zatoshi = 5000000, block_offset = 21 \<rparr>]"

lemma example_permuting: "permuting example_rng"
  by (simp add: permuting_def example_rng_def)

lemma example_delay:
  "draw_delay example_rng example_ops mean g = (if even g then 7 else 2007, Suc g)"
proof -
  have "\<lfloor>15 / 2 :: rat\<rfloor> = 7" by (simp add: floor_eq_iff)
  then show ?thesis
    by (simp add: draw_delay_def draw_unit_left_open_def round_nonnegative_to_u32_def example_rng_def
        example_ops_def UNIT_STEP_def U64_TO_MANTISSA_SHIFT_def)
qed

lemma example_sample:
  assumes "7 \<le> limit" "limit < 2007"
  shows "sample_delay example_rng example_ops mean limit g = Some (7, if even g then Suc g else Suc (Suc g))"
proof (cases "even g")
  case True
  then show ?thesis using assms by (subst sample_delay.simps) (simp add: example_delay)
next
  case False
  have "sample_delay example_rng example_ops mean limit (Suc g) = Some (7, Suc (Suc g))"
    using assms False by (subst sample_delay.simps) (simp add: example_delay)
  then show ?thesis using assms False by (subst sample_delay.simps) (simp add: example_delay)
qed

lemma example_planned_schedule:
  "planned_transfer_schedule_with_policy example_rng example_ops example_targets Main Standard90Minutes 0
     = Some (Inr (example_schedule, 7))"
proof -
  have params: "schedule_parameters_with_policy_for_part_count Main Standard90Minutes 3 = (66, 576)" by code_simp
  have shuffled: "shuffle example_rng (map (\<lambda>(index, value). (index mod 2 ^ 32, value)) (enumerate 0 example_targets)) 0
      = ([(2, 2000000), (1, 2000000), (0, 5000000)], 1)"
    by code_simp
  have offsets: "block_offsets_from example_rng example_ops 66 576 3 0 1 = Some ([7, 14, 21], 7)"
    by (simp add: numeral_3_eq_3 example_sample saturating_add_def)
  show ?thesis
    unfolding planned_transfer_schedule_with_policy_def planned_transfer_schedule_for_parts_with_policy_def shuffled
    using params offsets
    by (simp add: numeral_3_eq_3 random_schedule_block_offsets_with_rng_def example_schedule_def)
qed

section \<open>Transfer schedules\<close>

text \<open>
  C15: A planned schedule is one the wallet accepts later: with a generator whose \<open>shuffle\<close> permutes,
  the schedule drawn for at most \<open>2 ^ 32\<close> values passes the validation against those values.
\<close>

theorem planned_schedule_validates:
  assumes "permuting rng" "length targets \<le> 2 ^ 32"
    and "planned_transfer_schedule_with_policy rng ops targets network policy g = Some (Inr (schedule, g'))"
  shows "validate_schedule_with_policy schedule targets network policy = Inr ()"
  by (rule planned_schedule_valid [OF assms])

theorem planned_schedule_validates_witness:
  "validate_schedule_with_policy example_schedule example_targets Main Standard90Minutes = Inr ()"
  by (rule planned_schedule_validates [OF example_permuting _ example_planned_schedule])
    (simp add: example_targets_def)

text \<open>
  Planning loses nothing: from the shuffled schedule alone, the values come back in the order in
  which they were planned.
\<close>

theorem planned_targets_roundtrip:
  assumes "permuting rng" "length targets \<le> 2 ^ 32"
    and "planned_transfer_schedule_with_policy rng ops targets network policy g = Some (Inr (schedule, g'))"
  shows "target_values_from_schedule schedule = Inr targets"
  using planned_schedule_indexes [OF assms] by (simp add: target_values_iff)

theorem planned_targets_roundtrip_witness:
  "target_values_from_schedule example_schedule = Inr example_targets"
  by (rule planned_targets_roundtrip [OF example_permuting _ example_planned_schedule])
    (simp add: example_targets_def)

text \<open>
  C16: The targets of a schedule are recovered exactly when the entries carry the indexes
  \<open>0, ..., n - 1\<close>, each once; any missing, repeated or foreign index is an error, and no schedule at
  all makes the function panic.
\<close>

theorem target_values_characterised:
  "(target_values_from_schedule schedule = Inr targets \<longleftrightarrow>
      length schedule = length targets \<and> distinct (map (the \<circ> part_index) schedule) \<and>
      list_all (\<lambda>e. part_index e \<noteq> None \<and> the (part_index e) < length targets \<and>
        targets ! the (part_index e) = value_zatoshi e) schedule) \<and>
   target_values_from_schedule schedule \<noteq> Inl Panic"
  using target_values_iff [of schedule targets] target_values_no_panic [of schedule]
  by (auto simp: indexes_parts_def entry_fits_def list_all_iff)

text \<open>
  C17: Planning returns: the redraw loop may run for ever in principle, but with a generator that from
  any state eventually yields a delay within the maximum, a schedule is produced, without a panic.
\<close>

theorem planning_returns:
  assumes "\<And>mean. yields rng ops mean (snd (schedule_parameters_with_policy network policy))"
  shows "\<exists>schedule g'. planned_transfer_schedule_with_policy rng ops targets network policy g
    = Some (Inr (schedule, g'))"
  unfolding planned_transfer_schedule_with_policy_def by (rule planned_schedule_returns) (rule assms)

theorem planning_returns_witness:
  "\<exists>schedule g'. planned_transfer_schedule_with_policy example_rng example_ops [1, 2, 3] Main Standard 1
    = Some (Inr (schedule, g'))"
proof (rule planning_returns)
  fix mean
  have limit: "7 \<le> snd (schedule_parameters_with_policy Main Standard)" by code_simp
  have even: "fst (draw_delay example_rng example_ops mean g) \<le> snd (schedule_parameters_with_policy Main Standard)"
    if "even g" for g
    using that limit by (simp add: example_delay)
  have "\<exists>n. even (state_after example_rng n g)" for g
  proof (cases "even g")
    case True
    then show ?thesis by (intro exI [of _ 0]) simp
  next
    case False
    then show ?thesis by (intro exI [of _ 1]) (simp add: example_rng_def)
  qed
  then show "yields example_rng example_ops mean (snd (schedule_parameters_with_policy Main Standard))"
    using even unfolding yields_def by (metis le0)
qed

text \<open>
  Every part of a validated schedule is found, whether or not the schedule carries indexes: the
  lookup by part returns an entry of the schedule with the value of the part, and the offset lookup
  agrees with it.
\<close>

theorem validated_parts_found:
  assumes "validate_schedule_with_policy schedule targets network policy = Inr ()" "i < length targets"
  shows "\<exists>e \<in> set schedule. schedule_entry_for_pending schedule targets i (targets ! i) = Some e \<and>
    value_zatoshi e = targets ! i \<and>
    schedule_block_offset_for_part schedule targets i (targets ! i) = Some (block_offset e)"
  using validated_entry [OF assms] by (auto simp: schedule_block_offset_eq)

theorem validated_parts_found_witness:
  "\<exists>e \<in> set example_schedule. schedule_entry_for_pending example_schedule example_targets 1 2000000 = Some e \<and>
    value_zatoshi e = 2000000 \<and>
    schedule_block_offset_for_part example_schedule example_targets 1 2000000 = Some (block_offset e)"
proof -
  have "validate_schedule_with_policy example_schedule example_targets Main Standard90Minutes = Inr ()" by code_simp
  from validated_parts_found [OF this, of 1] show ?thesis by (simp add: example_targets_def)
qed

text \<open>
  C18: The integers of a schedule keep their width: part indexes and block offsets of a planned
  schedule are \<open>u32\<close>, and the uniform draw behind them lies in the interval from 0, excluded, to 1.
\<close>

theorem planned_entries_typed:
  assumes "permuting rng" "fst (next_u64 rng g) < 2 ^ 64"
    and "planned_transfer_schedule_with_policy rng ops targets network policy g = Some (Inr (schedule, g'))"
  shows "0 < fst (draw_unit_left_open rng g) \<and> fst (draw_unit_left_open rng g) \<le> 1 \<and>
    (\<forall>e \<in> set schedule. (\<exists>i < 2 ^ 32. part_index e = Some i) \<and> block_offset e < 2 ^ 32)"
  using draw_unit_range [OF assms(2)] planned_entries_u32 [OF assms(1,3)] by blast

theorem planned_entries_typed_witness:
  "list_all (\<lambda>e. (\<exists>i < 2 ^ 32. part_index e = Some i) \<and> block_offset e < 2 ^ 32) example_schedule"
proof -
  have "fst (next_u64 example_rng 0) < 2 ^ 64" by (simp add: example_rng_def)
  from planned_entries_typed [OF example_permuting this example_planned_schedule] show ?thesis
    by (simp add: list_all_iff)
qed

section \<open>Preparation heights\<close>

text \<open>
  C19: Preparation layers are spaced: every transaction is scheduled at or after the height before the
  target, and one in a later layer at least the required confirmations after each one in an earlier
  layer, so that its inputs can be spent.
\<close>

theorem preparation_layers_spaced:
  assumes "permuting rng"
    and "planned_preparation_scheduled_heights rng ops confirmations network prep policy target stage_layers g
      = Some (Inr (heights, g'))"
    and "s < length stage_layers" "t < length stage_layers" "stage_layers ! s < stage_layers ! t"
  shows "target - 1 \<le> heights ! s \<and> heights ! s + confirmations \<le> heights ! t"
  using preparation_heights_layered [OF assms(1,2)] assms(3-5) by blast

theorem preparation_layers_spaced_witness:
  "(199 :: nat) \<le> [213, 223, 206] ! 0 \<and> [213, 223, 206] ! 0 + 3 \<le> ([213, 223, 206] ! 1 :: nat)"
proof -
  have run: "planned_preparation_scheduled_heights example_rng example_ops 3 Main Zip318Spaced Standard 200 [0, 1, 0] 0
      = Some (Inr ([213, 223, 206], 7))"
  proof -
    have params: "preparation_schedule_parameters_for_transaction_count Main Standard 3 = (16, 96)" by code_simp
    have layers: "[0..<Suc (Suc 0)] = [0, Suc 0]" by simp
    have stages: "layer_stage_indices [0, 1, 0] 0 = [0, 2]" "layer_stage_indices [0, 1, 0] 1 = [1]" by code_simp+
    have "shuffle example_rng [0, 2 :: nat] 0 = ([2, 0], 1)" "shuffle example_rng [1 :: nat] g = ([1], Suc g)" for g
      by (code_simp, simp add: shuffle_def example_rng_def)
    with stages show ?thesis
      by (simp del: upt_Suc add: Let_def planned_preparation_scheduled_heights_def layers preparation_delay_with_rng_def
          params [unfolded numeral_3_eq_3] example_sample checked_add_def)
  qed
  show ?thesis
    using preparation_layers_spaced [OF example_permuting run, of 0 1] by simp
qed

text \<open>
  C20: A catch-up only postpones: a remaining transaction moves to a height not before the tip, its
  own scheduled height or an earlier postponement, and every other row stays as it is.
\<close>

theorem catch_up_postpones:
  assumes "rerandomize_remaining_preparation_broadcast_heights rng ops Zip318Spaced policy network tip rows g
      = Some (Inr ((rows', n), g'))"
    and "distinct (map row_stage_index rows)" "i < length rows"
  shows "if remaining_row (rows ! i)
    then \<exists>h. rows' ! i = (rows ! i)\<lparr>row_not_before_height := Some h\<rparr> \<and> tip \<le> h \<and>
           row_scheduled_height (rows ! i) \<le> h \<and> or_zero (row_not_before_height (rows ! i)) \<le> h
    else rows' ! i = rows ! i"
  using rerandomize_postpones [OF assms] unfolding postponed_def .

theorem catch_up_postpones_witness:
  "\<exists>h. h = 300 \<and> 250 \<le> h \<and> 300 \<le> (h :: nat)"
proof -
  let ?row = "\<lambda>i h nb s. \<lparr> row_stage_index = i, row_scheduled_height = h, row_not_before_height = nb, row_status = s \<rparr>"
  let ?rows = "[?row 0 100 None ''broadcasted'', ?row 1 300 None ''pending'', ?row 2 120 (Some 140) ''awaiting_inputs'']"
  let ?rows' = "[?row 0 100 None ''broadcasted'', ?row 1 300 (Some 300) ''pending'', ?row 2 120 (Some 257) ''awaiting_inputs'']"
  have run: "rerandomize_remaining_preparation_broadcast_heights example_rng example_ops Zip318Spaced Standard Main 250
      ?rows 0 = Some (Inr ((?rows', 2), 3))"
  proof -
    have params: "preparation_schedule_parameters_for_transaction_count Main Standard 3 = (16, 96)" by code_simp
    have "remaining_rows ?rows = [?row 2 120 (Some 140) ''awaiting_inputs'', ?row 1 300 None ''pending'']" by code_simp
    then show ?thesis
      by (simp add: rerandomize_remaining_preparation_broadcast_heights_def preparation_delay_with_rng_def
          params [unfolded numeral_3_eq_3] example_sample checked_add_def Let_def postpone_row_def or_zero_def remaining_row_def)
  qed
  show ?thesis
    using catch_up_postpones [OF run, of 1] by (simp add: remaining_row_def)
qed

section \<open>The timing projection\<close>

definition example_pending :: "timing_pending_part list" where
  "example_pending =
     [\<lparr> pending_part_index = Some 2, pending_target_height = 101, pending_schedule_start_height = Some 100,
        pending_scheduled_height = 140, pending_status = ''confirmed'', pending_mined_height = Some 141 \<rparr>,
      \<lparr> pending_part_index = Some 1, pending_target_height = 101, pending_schedule_start_height = Some 100,
        pending_scheduled_height = 190, pending_status = ''scheduled'', pending_mined_height = None \<rparr>]"

definition example_children :: "timing_signed_child list" where
  "example_children = [\<lparr> child_part_index = 0, child_target_height = 101, child_scheduled_height = None \<rparr>]"

definition example_approved :: "migration_schedule_entry list" where
  "example_approved = [\<lparr> part_index = Some 2, value_zatoshi = 2000000, block_offset = 40 \<rparr>,
     \<lparr> part_index = Some 1, value_zatoshi = 2000000, block_offset = 90 \<rparr>,
     \<lparr> part_index = Some 0, value_zatoshi = 5000000, block_offset = 120 \<rparr>]"

definition example_result :: "timing_projection projected" where
  "example_result = calculate_migration_timing_projection example_approved example_pending example_children
     (Some 160) None 150 3 3"

definition example_projection :: timing_projection where
  "example_projection = projr example_result"

lemma example_projected:
  "calculate_migration_timing_projection example_approved example_pending example_children (Some 160) None 150 3 3
     = Inr example_projection"
proof -
  have "\<not> isl example_result" by code_simp
  then show ?thesis by (cases example_result) (simp_all add: example_projection_def example_result_def)
qed

text \<open>
  C21: The height shown for the next action is never too late: no scheduled part is due before it, and
  while signed parts wait for their proofs, the next proof attempt is not before it either.
\<close>

theorem next_action_not_late:
  assumes "calculate_migration_timing_projection schedule pending children retry rebased scanned n target = Inr p"
  shows "(\<forall>part \<in> set pending. pending_status part = ''scheduled'' \<longrightarrow>
      (\<exists>h. next_action_height p = Some h \<and> h \<le> pending_scheduled_height part)) \<and>
    (\<forall>r. retry = Some r \<and> children \<noteq> [] \<longrightarrow> (\<exists>h. next_action_height p = Some h \<and> h \<le> r))"
  using projection_next_action [OF assms] projection_proof_action assms by blast

theorem next_action_not_late_witness:
  "next_action_height example_projection = Some 160 \<and>
   (\<exists>h. next_action_height example_projection = Some h \<and> h \<le> 190)"
proof -
  have "next_action_height example_projection = Some 160" by code_simp
  with next_action_not_late [OF example_projected] show ?thesis by (simp add: example_pending_def)
qed

text \<open>
  C22: The estimated completion is the last completion: when the projection gives one, every part is
  accounted for, none has to be signed again, and the height is the maximum of the heights at which
  the broadcast parts and the projected ones have their confirmations.
\<close>

theorem estimate_is_last_completion:
  assumes "calculate_migration_timing_projection schedule pending children retry rebased scanned n target = Inr p"
    and "estimated_completion_height p = Some h"
  shows "length pending + length children = n \<and> (\<forall>part \<in> set pending. pending_status part \<noteq> ''needs_resign'') \<and>
    max_opt (map (part_completion target) pending
      @ map (\<lambda>part. projected_scheduled_height part + target) (projected_signed_parts p)) = Some h"
  using projection_Inr(4) [OF assms] completion_height_max by fastforce

theorem estimate_is_last_completion_witness:
  "max_opt (map (part_completion 3) example_pending
     @ map (\<lambda>part. projected_scheduled_height part + 3) (projected_signed_parts example_projection)) = Some 223"
proof -
  have "estimated_completion_height example_projection = Some 223" by code_simp
  from estimate_is_last_completion [OF example_projected this] show ?thesis by blast
qed

text \<open>
  The signed parts are projected one by one, in order and under their own indexes, and unless the
  schedule was rebased none of them is projected to be broadcast before its proof can be built.
\<close>

theorem projected_after_proof:
  assumes "calculate_migration_timing_projection schedule pending children retry rebased scanned n target = Inr p"
  shows "map projected_part_index (projected_signed_parts p) = map child_part_index children \<and>
    (rebased = None \<longrightarrow> (\<forall>part \<in> set (projected_signed_parts p). or_zero retry \<le> projected_scheduled_height part))"
  using projected_children [OF projection_Inr(1) [OF assms]] by blast

theorem projected_after_proof_witness:
  "list_all (\<lambda>part. 160 \<le> projected_scheduled_height part) (projected_signed_parts example_projection)"
  using projected_after_proof [OF example_projected] by (simp add: or_zero_def list_all_iff)

text \<open>
  A signing batch never signs a part twice: without recovered parts it is the interval of the
  first unsigned parts, at most \<open>max_parts\<close> of them and all prepared; recovered parts go first, in
  their order. When every prepared part is signed the call is refused.
\<close>

theorem batch_is_unsigned_interval:
  assumes "select_migration_batch_signing_part_indices max_parts prepared in_flight presigned recoveries = Inr parts"
  shows "if recoveries \<noteq> [] then parts = take max_parts recoveries
    else parts = [in_flight + presigned..<min prepared (in_flight + presigned + max_parts)]
      \<and> in_flight + presigned < prepared"
  by (rule batch_selection [OF assms])

theorem batch_is_unsigned_interval_witness:
  "[3..<min 12 (3 + 5)] = [3, 4, 5, 6, 7 :: nat]"
proof -
  have "select_migration_batch_signing_part_indices 5 12 2 1 [] = Inr [3, 4, 5, 6, 7]" by code_simp
  from batch_is_unsigned_interval [OF this] show ?thesis by (simp add: eval_nat_numeral)
qed

text \<open>
  A target is assigned to one preparation output only: the target shown for an output is one not
  assigned yet, and it is recorded as assigned; outputs that are not migration outputs take none.
\<close>

theorem output_target_fresh:
  assumes "migration_preparation_output_target_value kind index amount targets assigned = (target, assigned')"
  shows "target = None \<and> assigned' = assigned \<or>
    (\<exists>i. kind = MigrationOutput \<and> i < length targets \<and> i \<notin> assigned \<and>
         target = Some (targets ! i) \<and> assigned' = insert i assigned)"
  by (rule output_target [OF assms])

theorem output_target_fresh_witness:
  "\<exists>i < length [500000, 500000 :: nat]. i \<notin> {0} \<and> Some 500000 = Some ([500000, 500000 :: nat] ! i) \<and>
     {0, 1} = insert i {0}"
proof -
  have "migration_preparation_output_target_value MigrationOutput (Some 0) 500000 [500000, 500000] {0}
      = (Some 500000, {0, 1})"
  proof -
    have "best_target [500000, 500000] {0} 500000 = Some 1" by code_simp
    then show ?thesis
      by (simp add: migration_preparation_output_target_value_def or_else_def doubleton_eq_iff)
  qed
  then have "\<exists>i. MigrationOutput = MigrationOutput \<and> i < length [500000, 500000 :: nat] \<and> i \<notin> {0} \<and>
      Some 500000 = Some ([500000, 500000 :: nat] ! i) \<and> {0, 1} = insert i {0}"
    by (rule disjE [OF output_target_fresh]) simp_all
  then show ?thesis by blast
qed

end
