(* ===== verification/LedgerWire.thy ===== *)
theory LedgerWire
  imports Prelude
begin

unbundle bit_operations_syntax

text \<open>
  The byte format in which a parsed PCZT is sent to the Ledger Zcash app
  (\<open>rust/src/wallet/ledger/serializer.rs\<close> and the data of \<open>parse.rs\<close>). Bytes are \<open>8 word\<close>, integers
  words of their width; a fixed-size array is a list whose length is part of the predicate \<open>wf_pczt\<close>.
\<close>

section \<open>Data\<close>

type_synonym byte = "8 word"
type_synonym bytes = "8 word list"

record bip32_derivation =
  signing_path :: "32 word list"
  pubkey :: bytes
  seed_fingerprint :: bytes

record pczt_global =
  tx_version :: "32 word"
  version_group_id :: "32 word"
  consensus_branch_id :: "32 word"
  fallback_lock_time :: "32 word option"
  expiry_height :: "32 word"
  coin_type :: "32 word"
  tx_modifiable :: byte

record transparent_output =
  output_value :: "64 word"
  output_script_pubkey :: bytes
  output_derivation :: "bip32_derivation option"

record transparent_input =
  prevout_txid :: bytes
  prevout_index :: "32 word"
  sequence :: "32 word option"
  input_value :: "64 word"
  input_script_pubkey :: bytes
  sighash_type :: byte
  input_derivation :: bip32_derivation

record shielded_action =
  cv_net :: bytes
  nullifier :: bytes
  rk :: bytes
  spend_recipient :: bytes
  spend_value :: "64 word"
  spend_rho :: bytes
  spend_rseed :: bytes
  alpha :: bytes
  action_signing_path :: "32 word list"
  action_seed_fingerprint :: bytes
  cmx :: bytes
  ephemeral_key :: bytes
  enc_ciphertext :: bytes
  out_ciphertext :: bytes
  recipient :: bytes
  action_value :: "64 word"
  rseed :: bytes
  rcv :: bytes

record shielded_bundle =
  bundle_actions :: "shielded_action list"
  bundle_flags :: byte
  bundle_value_balance :: int
  bundle_anchor :: bytes

record ironwood_action =
  inner_action :: shielded_action
  note_plaintext_version :: byte

record ironwood_bundle =
  ironwood_actions :: "ironwood_action list"
  ironwood_flags :: byte
  ironwood_value_balance :: int
  ironwood_anchor :: bytes

record parsed_pczt =
  global :: pczt_global
  transparent_inputs :: "transparent_input list"
  transparent_outputs :: "transparent_output list"
  orchard_part :: "shielded_bundle option"
  ironwood_part :: "ironwood_bundle option"
  memo_reaches_hash_path :: bool

record command_packets =
  instruction :: byte
  packets :: "bytes list"
  finishes_pczt :: bool

text \<open>The lengths of the arrays and the range of the \<open>i128\<close> balance, as the types of the code fix them.\<close>

definition wf_derivation :: "bip32_derivation \<Rightarrow> bool" where
  "wf_derivation d \<longleftrightarrow> length (pubkey d) = 33 \<and> length (seed_fingerprint d) = 32"

definition wf_action :: "shielded_action \<Rightarrow> bool" where
  "wf_action a \<longleftrightarrow>
     (\<forall>f \<in> {cv_net, nullifier, rk, spend_rho, spend_rseed, alpha, action_seed_fingerprint, cmx,
             ephemeral_key, rseed, rcv}. length (f a) = 32) \<and>
     length (spend_recipient a) = 43 \<and> length (recipient a) = 43"

definition wf_pczt :: "parsed_pczt \<Rightarrow> bool" where
  "wf_pczt p \<longleftrightarrow>
     (\<forall>i \<in> set (transparent_inputs p). length (prevout_txid i) = 32 \<and> wf_derivation (input_derivation i)) \<and>
     (\<forall>out \<in> set (transparent_outputs p). case output_derivation out of None \<Rightarrow> True | Some d \<Rightarrow> wf_derivation d) \<and>
     (case orchard_part p of None \<Rightarrow> True
      | Some b \<Rightarrow> (\<forall>a \<in> set (bundle_actions b). wf_action a) \<and> length (bundle_anchor b) = 32) \<and>
     (case ironwood_part p of None \<Rightarrow> True
      | Some b \<Rightarrow> (\<forall>a \<in> set (ironwood_actions b). wf_action (inner_action a)) \<and> length (ironwood_anchor b) = 32)"

section \<open>Constants and errors\<close>

definition MAX_PACKET_SIZE :: nat where "MAX_PACKET_SIZE = 255"
definition MAX_TRANSPARENT_INPUTS :: nat where "MAX_TRANSPARENT_INPUTS = 32"
definition MAX_TRANSPARENT_OUTPUTS :: nat where "MAX_TRANSPARENT_OUTPUTS = 10"
definition MAX_SHIELDED_ACTIONS :: nat where "MAX_SHIELDED_ACTIONS = 32"

datatype ledger_error =
  MemoHashUnsupported
| Capacity string nat nat
| PayloadTooLong nat
| PathTooLong
| BalanceExceedsU64
| UseFullSigning
| CommandWithoutPackets
| NothingToSign
| SigningIndexRange
| ResponseTooShort
| DeviceStatus string
| UfvkMissing
| UfvkNoLength
| UfvkUnreasonable nat
| UfvkTrailingChunks
| UfvkEndedEarly
| UfvkTrailingBytes
| UfvkNotUtf8
| AccountIndexRange
| ResponseCount nat nat
| UnexpectedPacketData nat
| SignatureLength nat
| ZeroSignature
| TransparentSignatureLength nat nat
| TransparentSignatureTag nat
| TransparentSignatureDer nat
| CoinTypeMismatch
| ForeignPath string nat
| ForeignFingerprint string nat
| LegacyOrchardRecovery

type_synonym 'a ledger_result = "ledger_error + 'a"

section \<open>Integers as bytes\<close>

definition le_bytes :: "nat \<Rightarrow> 'a::len word \<Rightarrow> bytes" where
  "le_bytes n x = map (\<lambda>i. ucast (drop_bit (8 * i) x)) [0..<n]"

definition be_bytes :: "nat \<Rightarrow> 'a::len word \<Rightarrow> bytes" where
  "be_bytes n x = rev (le_bytes n x)"

definition push_u32_le :: "bytes \<Rightarrow> 32 word \<Rightarrow> bytes" where
  "push_u32_le bs x = bs @ le_bytes 4 x"

definition push_optional_u32_le :: "bytes \<Rightarrow> 32 word option \<Rightarrow> bytes" where
  "push_optional_u32_le bs m = (case m of Some x \<Rightarrow> push_u32_le (bs @ [1]) x | None \<Rightarrow> bs @ [0])"

definition ensure_count :: "string \<Rightarrow> nat \<Rightarrow> nat \<Rightarrow> unit ledger_result" where
  "ensure_count label found maximum = (if found > maximum then Inl (Capacity label maximum found) else Inr ())"

definition ensure_packet_size :: "bytes \<Rightarrow> unit ledger_result" where
  "ensure_packet_size packet =
     (if length packet > MAX_PACKET_SIZE then Inl (PayloadTooLong (length packet)) else Inr ())"

definition compact_size :: "nat \<Rightarrow> bytes" where
  "compact_size value =
     (if value < 253 then [of_nat value]
      else if value \<le> 65535 then 253 # le_bytes 2 (of_nat value :: 16 word)
      else if value \<le> 4294967295 then 254 # le_bytes 4 (of_nat value :: 32 word)
      else 255 # le_bytes 8 (of_nat value :: 64 word))"

function chunks :: "nat \<Rightarrow> 'a list \<Rightarrow> 'a list list" where
  "chunks n xs = (if xs = [] \<or> n = 0 then [] else take n xs # chunks n (drop n xs))"
  by pat_completeness auto
termination by (relation "measure (\<lambda>(n, xs). length xs)") auto

declare chunks.simps [simp del]

definition field_packets :: "bytes \<Rightarrow> bytes list" where
  "field_packets field = chunks MAX_PACKET_SIZE (compact_size (length field) @ field)"

definition pack_derivation_path :: "32 word list \<Rightarrow> bytes ledger_result" where
  "pack_derivation_path path =
     (if length path < 256
      then let bs = of_nat (length path) # concat (map (be_bytes 4) path)
           in and_then (ensure_packet_size bs) (\<lambda>_. Inr bs)
      else Inl PathTooLong)"

definition serialize_bip32_derivation :: "bip32_derivation option \<Rightarrow> bytes ledger_result" where
  "serialize_bip32_derivation derivation = (case derivation of
      None \<Rightarrow> Inr [0]
    | Some d \<Rightarrow>
        and_then (pack_derivation_path (signing_path d)) (\<lambda>path.
        let bs = 1 # pubkey d @ seed_fingerprint d @ path
        in and_then (ensure_packet_size bs) (\<lambda>_. Inr bs)))"

section \<open>Header and transparent parts\<close>

definition serialize_header :: "pczt_global \<Rightarrow> bytes" where
  "serialize_header g =
     (let bs = [0x50, 0x43, 0x5A, 0x54];
          bs = push_u32_le bs (if 6 \<le> tx_version g then 2 else 1);
          bs = push_u32_le bs (tx_version g);
          bs = push_u32_le bs (version_group_id g);
          bs = push_u32_le bs (consensus_branch_id g);
          bs = push_optional_u32_le bs (fallback_lock_time g);
          bs = push_u32_le bs (expiry_height g);
          bs = push_u32_le bs (coin_type g)
      in bs @ [tx_modifiable g])"

definition serialize_transparent_input :: "transparent_input \<Rightarrow> bytes list ledger_result" where
  "serialize_transparent_input input =
     (let small_fields = push_optional_u32_le (push_u32_le (prevout_txid input) (prevout_index input)) (sequence input)
                           @ le_bytes 8 (input_value input)
      in and_then (serialize_bip32_derivation (Some (input_derivation input))) (\<lambda>derivation.
         let signing_fields = sighash_type input # derivation
         in and_then (ensure_packet_size signing_fields) (\<lambda>_.
            Inr (small_fields # field_packets (input_script_pubkey input) @ [signing_fields]))))"

definition serialize_transparent_inputs :: "transparent_input list \<Rightarrow> bytes list ledger_result" where
  "serialize_transparent_inputs inputs =
     and_then (ensure_count ''transparent inputs'' (length inputs) MAX_TRANSPARENT_INPUTS) (\<lambda>_.
     and_then (collect_results (map serialize_transparent_input inputs)) (\<lambda>parts.
     Inr (compact_size (length inputs) # concat parts)))"

definition serialize_transparent_output :: "transparent_output \<Rightarrow> bytes list ledger_result" where
  "serialize_transparent_output out =
     and_then (serialize_bip32_derivation (output_derivation out)) (\<lambda>derivation.
     Inr (le_bytes 8 (output_value out) # field_packets (output_script_pubkey out) @ [derivation]))"

definition serialize_transparent_outputs :: "transparent_output list \<Rightarrow> bytes list ledger_result" where
  "serialize_transparent_outputs outputs =
     and_then (ensure_count ''transparent outputs'' (length outputs) MAX_TRANSPARENT_OUTPUTS) (\<lambda>_.
     and_then (collect_results (map serialize_transparent_output outputs)) (\<lambda>parts.
     Inr (compact_size (length outputs) # concat parts)))"

section \<open>Shielded bundles\<close>

definition serialize_shielded_action :: "shielded_action \<Rightarrow> byte option \<Rightarrow> bytes list ledger_result" where
  "serialize_shielded_action a note_version =
     (let spend = cv_net a @ nullifier a @ rk a @ spend_recipient a @ le_bytes 8 (spend_value a)
                    @ spend_rho a @ spend_rseed a @ alpha a
      in and_then (pack_derivation_path (action_signing_path a)) (\<lambda>path.
         let derivation = action_seed_fingerprint a @ path;
             output = cmx a @ ephemeral_key a;
             metadata = recipient a @ le_bytes 8 (action_value a) @ rseed a @ rcv a
                          @ (case note_version of Some version \<Rightarrow> [version] | None \<Rightarrow> [])
         in Inr (spend # derivation # output # field_packets (enc_ciphertext a)
                   @ field_packets (out_ciphertext a) @ [metadata])))"

definition shielded_trailer :: "byte \<Rightarrow> int \<Rightarrow> bytes \<Rightarrow> bytes ledger_result" where
  "shielded_trailer flags value_balance anchor =
     (if nat \<bar>value_balance\<bar> < 2 ^ 64
      then Inr (flags # le_bytes 8 (of_nat (nat \<bar>value_balance\<bar>) :: 64 word)
                  @ [if value_balance < 0 then 1 else 0] @ anchor)
      else Inl BalanceExceedsU64)"

definition serialize_shielded_bundle ::
  "shielded_action list \<Rightarrow> byte \<Rightarrow> int \<Rightarrow> bytes \<Rightarrow> (nat \<Rightarrow> byte option) \<Rightarrow> bytes list ledger_result" where
  "serialize_shielded_bundle actions flags value_balance anchor note_version =
     and_then (ensure_count ''shielded actions'' (length actions) MAX_SHIELDED_ACTIONS) (\<lambda>_.
     if actions = [] then Inr [compact_size 0]
     else
       and_then (collect_results (map (\<lambda>(index, action). serialize_shielded_action action (note_version index))
                   (enumerate 0 actions))) (\<lambda>parts.
       and_then (shielded_trailer flags value_balance anchor) (\<lambda>trailer.
       Inr (compact_size (length actions) # concat parts @ [trailer]))))"

definition serialize_orchard_bundle :: "shielded_bundle option \<Rightarrow> bytes list ledger_result" where
  "serialize_orchard_bundle bundle = (case bundle of
      None \<Rightarrow> Inr [[0]]
    | Some b \<Rightarrow> serialize_shielded_bundle (bundle_actions b) (bundle_flags b) (bundle_value_balance b)
                  (bundle_anchor b) (\<lambda>_. None))"

definition serialize_ironwood_bundle :: "ironwood_bundle option \<Rightarrow> bytes list ledger_result" where
  "serialize_ironwood_bundle bundle = (case bundle of
      None \<Rightarrow> Inr [[0]]
    | Some b \<Rightarrow> serialize_shielded_bundle (map inner_action (ironwood_actions b)) (ironwood_flags b)
                  (ironwood_value_balance b) (ironwood_anchor b)
                  (\<lambda>index. Some (note_plaintext_version (ironwood_actions b ! index))))"

section \<open>The whole PCZT\<close>

definition serialize_pczt :: "parsed_pczt \<Rightarrow> bool \<Rightarrow> command_packets list ledger_result" where
  "serialize_pczt pczt memo_hash_supported =
     (if \<not> memo_hash_supported \<and> memo_reaches_hash_path pczt then Inl MemoHashUnsupported
      else
        let is_v6 = (6 \<le> tx_version (global pczt)) in
        and_then (serialize_transparent_inputs (transparent_inputs pczt)) (\<lambda>inputs.
        and_then (serialize_transparent_outputs (transparent_outputs pczt)) (\<lambda>outputs.
        and_then (serialize_orchard_bundle (orchard_part pczt)) (\<lambda>orchard.
        let commands =
          [\<lparr> instruction = 0x52, packets = [serialize_header (global pczt)], finishes_pczt = False \<rparr>,
           \<lparr> instruction = 0x53, packets = inputs, finishes_pczt = False \<rparr>,
           \<lparr> instruction = 0x54, packets = outputs, finishes_pczt = False \<rparr>,
           \<lparr> instruction = 0x56, packets = orchard, finishes_pczt = \<not> is_v6 \<rparr>]
        in if is_v6
           then and_then (serialize_ironwood_bundle (ironwood_part pczt)) (\<lambda>ironwood.
                  Inr (commands @ [\<lparr> instruction = 0x58, packets = ironwood, finishes_pczt = True \<rparr>]))
           else Inr commands))))"

definition packet_p1 :: "nat \<Rightarrow> nat \<Rightarrow> byte" where
  "packet_p1 index total_packets = (if index = 0 then 0x00 else if index = total_packets - 1 then 0x01 else 0x80)"

definition packet_p2 :: "nat \<Rightarrow> nat \<Rightarrow> bool \<Rightarrow> byte" where
  "packet_p2 index total_packets finishes = (if finishes \<and> index = total_packets - 1 then 0x01 else 0x00)"

end
