(* ===== verification/LedgerReader.thy ===== *)
theory LedgerReader
  imports LedgerWire
begin

text \<open>
  A reader of the wire format, as the device needs one: it is the specification against which the
  serializer is proved lossless. \<open>reads r bs x\<close> says that \<open>r\<close> turns the bytes \<open>bs\<close> into \<open>x\<close> whatever
  follows them, so that the statements compose along the stream.
\<close>

section \<open>Integers\<close>

fun from_le :: "bytes \<Rightarrow> nat" where
  "from_le [] = 0"
| "from_le (b # bs) = unat b + 256 * from_le bs"

lemma unat_of_nat_small: "n < 2 ^ LENGTH('a) \<Longrightarrow> unat (of_nat n :: 'a::len word) = n"
  by (simp add: unsigned_of_nat take_bit_nat_eq_self)

lemma length_le_bytes [simp]: "length (le_bytes n x) = n"
  by (simp add: le_bytes_def)

lemma length_be_bytes [simp]: "length (be_bytes n x) = n"
  by (simp add: be_bytes_def)

lemma le_bytes_0: "le_bytes 0 x = []"
  by (simp add: le_bytes_def)

lemma le_bytes_Suc: "le_bytes (Suc n) x = ucast x # le_bytes n (drop_bit 8 x)"
  unfolding le_bytes_def upt_conv_Cons [OF zero_less_Suc] map_Suc_upt [symmetric]
  by (simp add: drop_bit_drop_bit algebra_simps)

lemma from_le_bytes: "from_le (le_bytes n x) = unat (x :: 'a::len word) mod 256 ^ n"
proof (induction n arbitrary: x)
  case 0
  then show ?case by (simp add: le_bytes_0)
next
  case (Suc n)
  have "unat (ucast x :: 8 word) = unat x mod 256"
    by (simp add: unsigned_ucast_eq take_bit_eq_mod)
  moreover have "unat (drop_bit 8 x) = unat x div 256"
    by (subst unat_drop_bit_eq) (simp add: drop_bit_eq_div)
  ultimately show ?case
    by (simp add: le_bytes_Suc Suc.IH mod_mult2_eq)
qed

lemma word_from_le:
  assumes "LENGTH('a) \<le> 8 * n"
  shows "of_nat (from_le (le_bytes n x)) = (x :: 'a::len word)"
proof -
  have "unat x < 2 ^ LENGTH('a)" by (rule unsigned_less)
  also have "(2 :: nat) ^ LENGTH('a) \<le> 2 ^ (8 * n)" using assms by (rule power_increasing) simp
  also have "(2 :: nat) ^ (8 * n) = 256 ^ n" by (simp add: power_mult)
  finally show ?thesis by (simp add: from_le_bytes)
qed

section \<open>Readers\<close>

type_synonym 'a reader = "bytes \<Rightarrow> ('a \<times> bytes) option"

definition read_give :: "'a \<Rightarrow> 'a reader" where
  "read_give x bs = Some (x, bs)"

definition and_read :: "'a reader \<Rightarrow> ('a \<Rightarrow> 'b reader) \<Rightarrow> 'b reader" where
  "and_read r f bs = (case r bs of None \<Rightarrow> None | Some (x, rest) \<Rightarrow> f x rest)"

definition read_bytes :: "nat \<Rightarrow> bytes reader" where
  "read_bytes n bs = (if n \<le> length bs then Some (take n bs, drop n bs) else None)"

fun read_byte :: "byte reader" where
  "read_byte [] = None"
| "read_byte (b # bs) = Some (b, bs)"

definition read_word :: "nat \<Rightarrow> 'a::len word reader" where
  "read_word n = and_read (read_bytes n) (\<lambda>bs. read_give (of_nat (from_le bs)))"

definition read_word_be :: "nat \<Rightarrow> 'a::len word reader" where
  "read_word_be n = and_read (read_bytes n) (\<lambda>bs. read_give (of_nat (from_le (rev bs))))"

fun read_many :: "nat \<Rightarrow> 'a reader \<Rightarrow> 'a list reader" where
  "read_many 0 r = read_give []"
| "read_many (Suc n) r = and_read r (\<lambda>x. and_read (read_many n r) (\<lambda>xs. read_give (x # xs)))"

definition reads :: "'a reader \<Rightarrow> bytes \<Rightarrow> 'a \<Rightarrow> bool" where
  "reads r bs x \<longleftrightarrow> (\<forall>rest. r (bs @ rest) = Some (x, rest))"

named_theorems reads_rules \<open>what the readers read\<close>

lemma reads_unique: "reads r bs x \<Longrightarrow> reads r bs y \<Longrightarrow> x = y"
  unfolding reads_def by fastforce

lemma reads_injective:
  assumes "\<And>x. P x \<Longrightarrow> reads r (f x) x" and "P x" "P y" "f x = f y"
  shows "x = y"
  using assms by (metis reads_unique)

lemma reads_give [reads_rules]: "y = x \<Longrightarrow> reads (read_give y) [] x"
  by (simp add: reads_def read_give_def)

lemma reads_and:
  "reads r bs x \<Longrightarrow> reads (f x) cs y \<Longrightarrow> reads (and_read r f) (bs @ cs) y"
  by (simp add: reads_def and_read_def)

lemma reads_and_Cons:
  "reads r [b] x \<Longrightarrow> reads (f x) cs y \<Longrightarrow> reads (and_read r f) (b # cs) y"
  using reads_and [of r "[b]" x f cs y] by simp

lemma reads_and_last:
  "reads r bs x \<Longrightarrow> reads (f x) [] y \<Longrightarrow> reads (and_read r f) bs y"
  using reads_and [of r bs x f "[]" y] by simp

lemma reads_bytes [reads_rules]: "length bs = n \<Longrightarrow> reads (read_bytes n) bs bs"
  by (auto simp: reads_def read_bytes_def)

lemma reads_word [reads_rules]:
  "LENGTH('a) \<le> 8 * n \<Longrightarrow> reads (read_word n) (le_bytes n x) (x :: 'a::len word)"
  unfolding read_word_def
  by (rule reads_and_last [OF reads_bytes]) (simp_all add: word_from_le reads_give)

lemma reads_word_be [reads_rules]:
  "LENGTH('a) \<le> 8 * n \<Longrightarrow> reads (read_word_be n) (be_bytes n x) (x :: 'a::len word)"
  unfolding read_word_be_def
  by (rule reads_and_last [OF reads_bytes]) (simp_all add: be_bytes_def word_from_le reads_give)

lemma reads_byte [reads_rules]: "reads read_byte [b] b"
  by (simp add: reads_def)

lemma reads_many_list:
  "list_all2 (reads r) bss xs \<Longrightarrow> reads (read_many (length xs) r) (concat bss) xs"
proof (induction rule: list_all2_induct)
  case Nil
  then show ?case by (simp add: reads_give)
next
  case (Cons bs bss x xs)
  then show ?case by (auto intro: reads_and reads_and_last reads_give)
qed

lemma reads_many [reads_rules]:
  "(\<And>x. x \<in> set xs \<Longrightarrow> reads r (f x) x) \<Longrightarrow> reads (read_many (length xs) r) (concat (map f xs)) xs"
  by (rule reads_many_list) (simp add: list_all2_conv_all_nth)

section \<open>Lengths and fields\<close>

definition read_compact_size :: "nat reader" where
  "read_compact_size =
     and_read read_byte (\<lambda>tag.
       if tag = 253 then and_read (read_word 2 :: 16 word reader) (\<lambda>n. read_give (unat n))
       else if tag = 254 then and_read (read_word 4 :: 32 word reader) (\<lambda>n. read_give (unat n))
       else if tag = 255 then and_read (read_word 8 :: 64 word reader) (\<lambda>n. read_give (unat n))
       else read_give (unat tag))"

lemma of_nat_byte_neq:
  assumes "n < 253"
  shows "(of_nat n :: byte) \<noteq> 253" "(of_nat n :: byte) \<noteq> 254" "(of_nat n :: byte) \<noteq> 255"
proof -
  have "unat (of_nat n :: byte) = n" using assms by (simp add: unat_of_nat_small)
  then show "(of_nat n :: byte) \<noteq> 253" "(of_nat n :: byte) \<noteq> 254" "(of_nat n :: byte) \<noteq> 255"
    using assms by auto
qed

lemma reads_compact_size [reads_rules]:
  assumes "v < 2 ^ 64"
  shows "reads read_compact_size (compact_size v) v"
proof -
  consider "v < 253" | "253 \<le> v" "v \<le> 65535" | "65535 < v" "v \<le> 4294967295" | "4294967295 < v"
    by linarith
  then show ?thesis
  proof cases
    case 1
    then have "unat (of_nat v :: byte) = v" by (simp add: unat_of_nat_small)
    then show ?thesis
      using 1 of_nat_byte_neq [OF 1] unfolding read_compact_size_def compact_size_def
      by (auto intro!: reads_and_last reads_byte simp: reads_give)
  next
    case 2
    then have "unat (of_nat v :: 16 word) = v" by (simp add: unat_of_nat_small)
    then show ?thesis
      using 2 unfolding read_compact_size_def compact_size_def
      by (auto intro!: reads_and_Cons [OF reads_byte] reads_and_last [OF reads_word] simp: reads_give)
  next
    case 3
    then have "unat (of_nat v :: 32 word) = v" by (simp add: unat_of_nat_small)
    then show ?thesis
      using 3 unfolding read_compact_size_def compact_size_def
      by (auto intro!: reads_and_Cons [OF reads_byte] reads_and_last [OF reads_word] simp: reads_give)
  next
    case 4
    then have "unat (of_nat v :: 64 word) = v" using assms by (simp add: unat_of_nat_small)
    then show ?thesis
      using 4 unfolding read_compact_size_def compact_size_def
      by (auto intro!: reads_and_Cons [OF reads_byte] reads_and_last [OF reads_word] simp: reads_give)
  qed
qed

lemma concat_chunks: "0 < n \<Longrightarrow> concat (chunks n xs) = xs"
proof (induction n xs rule: chunks.induct)
  case (1 n xs)
  then show ?case by (subst chunks.simps) auto
qed

lemma chunks_bounds: "c \<in> set (chunks n xs) \<Longrightarrow> c \<noteq> [] \<and> length c \<le> n"
proof (induction n xs rule: chunks.induct)
  case (1 n xs)
  then show ?case by (subst (asm) (2) chunks.simps) (auto split: if_splits)
qed

lemma concat_field_packets: "concat (field_packets field) = compact_size (length field) @ field"
  by (simp add: field_packets_def concat_chunks MAX_PACKET_SIZE_def)

lemma field_packets_bounds: "p \<in> set (field_packets field) \<Longrightarrow> length p \<le> 255"
  using chunks_bounds [of p 255] by (simp add: field_packets_def MAX_PACKET_SIZE_def)

definition read_field :: "bytes reader" where
  "read_field = and_read read_compact_size read_bytes"

lemma reads_field [reads_rules]:
  "length field < 2 ^ 64 \<Longrightarrow> reads read_field (concat (field_packets field)) field"
  unfolding concat_field_packets read_field_def
  by (auto intro!: reads_and [OF reads_compact_size] reads_bytes)

section \<open>Derivations, header, transparent parts\<close>

definition read_path :: "32 word list reader" where
  "read_path = and_read read_byte (\<lambda>n. read_many (unat n) (read_word_be 4))"

lemma pack_derivation_path_Inr:
  "pack_derivation_path path = Inr bs \<Longrightarrow>
   length path \<le> 63 \<and> bs = of_nat (length path) # concat (map (be_bytes 4) path)"
proof -
  assume h: "pack_derivation_path path = Inr bs"
  have "length (concat (map (be_bytes 4) path)) = 4 * length path"
    by (simp add: length_concat comp_def sum_list_triv)
  with h show ?thesis
    by (auto simp: pack_derivation_path_def ensure_packet_size_def MAX_PACKET_SIZE_def Let_def and_then_eq_Inr
        split: if_splits)
qed

lemma reads_path [reads_rules]:
  assumes "pack_derivation_path path = Inr bs"
  shows "reads read_path bs path"
proof -
  note facts = pack_derivation_path_Inr [OF assms]
  have "unat (of_nat (length path) :: byte) = length path"
    using facts by (simp add: unat_of_nat_small)
  moreover have "reads (read_many (length path) (read_word_be 4)) (concat (map (be_bytes 4) path)) path"
    by (rule reads_many) (simp add: reads_word_be)
  ultimately show ?thesis
    using facts unfolding read_path_def by (auto intro: reads_and_Cons [OF reads_byte])
qed

definition read_derivation :: "bip32_derivation option reader" where
  "read_derivation =
     and_read read_byte (\<lambda>tag.
       if tag = 0 then read_give None
       else and_read (read_bytes 33) (\<lambda>key. and_read (read_bytes 32) (\<lambda>fingerprint.
            and_read read_path (\<lambda>path.
            read_give (Some \<lparr> signing_path = path, pubkey = key, seed_fingerprint = fingerprint \<rparr>)))))"

lemma reads_derivation [reads_rules]:
  assumes "serialize_bip32_derivation d = Inr bs" and "\<And>x. d = Some x \<Longrightarrow> wf_derivation x"
  shows "reads read_derivation bs d"
proof (cases d)
  case None
  then show ?thesis
    using assms(1) unfolding read_derivation_def
    by (auto simp: serialize_bip32_derivation_def reads_give intro: reads_and_last [OF reads_byte])
next
  case (Some x)
  obtain path where path: "pack_derivation_path (signing_path x) = Inr path"
    and bs: "bs = 1 # pubkey x @ seed_fingerprint x @ path"
    using assms(1) Some by (auto simp: serialize_bip32_derivation_def Let_def and_then_eq_Inr)
  have "length (pubkey x) = 33" "length (seed_fingerprint x) = 32"
    using assms(2) [OF Some] by (simp_all add: wf_derivation_def)
  then show ?thesis
    unfolding read_derivation_def bs Some
    by (auto intro!: reads_and_Cons [OF reads_byte] reads_and [OF reads_bytes] reads_and_last [OF reads_path [OF path]]
        reads_give)
qed

definition read_optional_u32 :: "32 word option reader" where
  "read_optional_u32 =
     and_read read_byte (\<lambda>tag.
       if tag = 0 then read_give None else and_read (read_word 4) (\<lambda>x. read_give (Some x)))"

lemma reads_optional_u32 [reads_rules]: "reads read_optional_u32 (push_optional_u32_le [] m) m"
  unfolding read_optional_u32_def push_optional_u32_le_def push_u32_le_def
  by (cases m) (auto intro!: reads_and_Cons [OF reads_byte] reads_and_last [OF reads_word] reads_and_last [OF reads_byte]
      simp: reads_give)

lemma push_optional_u32_le_append: "push_optional_u32_le bs m = bs @ push_optional_u32_le [] m"
  by (cases m) (simp_all add: push_optional_u32_le_def push_u32_le_def)

definition read_header :: "pczt_global reader" where
  "read_header =
     and_read (read_bytes 4) (\<lambda>magic. and_read (read_word 4 :: 32 word reader) (\<lambda>format.
     and_read (read_word 4) (\<lambda>tx. and_read (read_word 4) (\<lambda>group. and_read (read_word 4) (\<lambda>branch.
     and_read read_optional_u32 (\<lambda>lock. and_read (read_word 4) (\<lambda>expiry. and_read (read_word 4) (\<lambda>coin.
     and_read read_byte (\<lambda>modifiable.
     read_give \<lparr> tx_version = tx, version_group_id = group, consensus_branch_id = branch,
       fallback_lock_time = lock, expiry_height = expiry, coin_type = coin, tx_modifiable = modifiable \<rparr>)))))))))"

lemma reads_header [reads_rules]: "reads read_header (serialize_header g) g"
proof -
  define format where "format = (if 6 \<le> tx_version g then 2 else 1 :: 32 word)"
  show ?thesis
    unfolding read_header_def serialize_header_def Let_def push_u32_le_def
      push_optional_u32_le_append [of "_ @ _"] append_assoc format_def [symmetric]
    by (intro reads_and reads_and_last)
      (auto intro: reads_bytes reads_word reads_byte reads_optional_u32 reads_give)
qed

definition read_input :: "transparent_input reader" where
  "read_input =
     and_read (read_bytes 32) (\<lambda>txid. and_read (read_word 4) (\<lambda>index. and_read read_optional_u32 (\<lambda>seq.
     and_read (read_word 8) (\<lambda>amount. and_read read_field (\<lambda>script. and_read read_byte (\<lambda>sighash.
     and_read read_derivation (\<lambda>derivation.
     read_give \<lparr> prevout_txid = txid, prevout_index = index, sequence = seq, input_value = amount,
       input_script_pubkey = script, sighash_type = sighash, input_derivation = the derivation \<rparr>)))))))"

lemma reads_input:
  assumes "serialize_transparent_input i = Inr ps"
    and "length (prevout_txid i) = 32" "wf_derivation (input_derivation i)" "length (input_script_pubkey i) < 2 ^ 64"
  shows "reads read_input (concat ps) i"
proof -
  obtain d where d: "serialize_bip32_derivation (Some (input_derivation i)) = Inr d"
    and ps: "concat ps = prevout_txid i @ le_bytes 4 (prevout_index i) @ push_optional_u32_le [] (sequence i)
      @ le_bytes 8 (input_value i) @ concat (field_packets (input_script_pubkey i)) @ [sighash_type i] @ d"
    using assms(1) push_optional_u32_le_append [of "prevout_txid i @ le_bytes 4 (prevout_index i)" "sequence i"]
    by (auto simp: serialize_transparent_input_def Let_def and_then_eq_Inr push_u32_le_def)
  have derivation: "reads read_derivation d (Some (input_derivation i))"
    by (rule reads_derivation [OF d]) (use assms(3) in simp)
  note field = reads_field [OF assms(4)]
  show ?thesis
    unfolding read_input_def ps
    by (intro reads_and reads_and_last)
      (auto intro: reads_bytes reads_word reads_byte reads_optional_u32 field derivation reads_give simp: assms)
qed

definition read_output :: "transparent_output reader" where
  "read_output =
     and_read (read_word 8) (\<lambda>amount. and_read read_field (\<lambda>script. and_read read_derivation (\<lambda>derivation.
     read_give \<lparr> output_value = amount, output_script_pubkey = script, output_derivation = derivation \<rparr>)))"

lemma reads_output:
  assumes "serialize_transparent_output out = Inr ps"
    and "\<And>d. output_derivation out = Some d \<Longrightarrow> wf_derivation d" "length (output_script_pubkey out) < 2 ^ 64"
  shows "reads read_output (concat ps) out"
proof -
  obtain d where d: "serialize_bip32_derivation (output_derivation out) = Inr d"
    and ps: "concat ps = le_bytes 8 (output_value out) @ concat (field_packets (output_script_pubkey out)) @ d"
    using assms(1) by (auto simp: serialize_transparent_output_def and_then_eq_Inr)
  have derivation: "reads read_derivation d (output_derivation out)"
    by (rule reads_derivation [OF d]) (use assms(2) in simp)
  note field = reads_field [OF assms(3)]
  show ?thesis
    unfolding read_output_def ps
    by (intro reads_and reads_and_last)
      (auto intro: reads_word field derivation reads_give simp: assms)
qed

end
