(* ===== verification/LedgerWireCorrect.thy ===== *)
theory LedgerWireCorrect
  imports LedgerReader
begin

text \<open>
  The stream of a PCZT can be read back, and every packet of a PCZT whose derivation paths are short
  enough fits one APDU.
\<close>

section \<open>Shielded actions\<close>

definition read_action :: "bool \<Rightarrow> (shielded_action \<times> byte option) reader" where
  "read_action versioned =
     and_read (read_bytes 32) (\<lambda>cv. and_read (read_bytes 32) (\<lambda>nf. and_read (read_bytes 32) (\<lambda>key.
     and_read (read_bytes 43) (\<lambda>from_recipient. and_read (read_word 8) (\<lambda>from_value.
     and_read (read_bytes 32) (\<lambda>rho. and_read (read_bytes 32) (\<lambda>from_rseed. and_read (read_bytes 32) (\<lambda>alph.
     and_read (read_bytes 32) (\<lambda>fingerprint. and_read read_path (\<lambda>path.
     and_read (read_bytes 32) (\<lambda>cm. and_read (read_bytes 32) (\<lambda>epk.
     and_read read_field (\<lambda>enc. and_read read_field (\<lambda>out_ct.
     and_read (read_bytes 43) (\<lambda>to_recipient. and_read (read_word 8) (\<lambda>to_value.
     and_read (read_bytes 32) (\<lambda>to_rseed. and_read (read_bytes 32) (\<lambda>cv_rand.
     and_read (if versioned then and_read read_byte (\<lambda>v. read_give (Some v)) else read_give None) (\<lambda>version.
     read_give
       (\<lparr> cv_net = cv, nullifier = nf, rk = key, spend_recipient = from_recipient, spend_value = from_value,
          spend_rho = rho, spend_rseed = from_rseed, alpha = alph, action_signing_path = path,
          action_seed_fingerprint = fingerprint, cmx = cm, ephemeral_key = epk, enc_ciphertext = enc,
          out_ciphertext = out_ct, recipient = to_recipient, action_value = to_value, rseed = to_rseed,
          rcv = cv_rand \<rparr>, version))))))))))))))))))))"

text \<open>Variable fields whose length a \<open>usize\<close> holds.\<close>

definition sized_action :: "shielded_action \<Rightarrow> bool" where
  "sized_action a \<longleftrightarrow> length (enc_ciphertext a) < 2 ^ 64 \<and> length (out_ciphertext a) < 2 ^ 64"

lemma serialize_shielded_action_Inr:
  assumes "serialize_shielded_action a version = Inr ps"
  obtains path where "pack_derivation_path (action_signing_path a) = Inr path"
    "ps = (cv_net a @ nullifier a @ rk a @ spend_recipient a @ le_bytes 8 (spend_value a)
             @ spend_rho a @ spend_rseed a @ alpha a)
        # (action_seed_fingerprint a @ path) # (cmx a @ ephemeral_key a)
        # field_packets (enc_ciphertext a) @ field_packets (out_ciphertext a)
        @ [recipient a @ le_bytes 8 (action_value a) @ rseed a @ rcv a
             @ (case version of Some v \<Rightarrow> [v] | None \<Rightarrow> [])]"
  using assms by (auto simp: serialize_shielded_action_def Let_def and_then_eq_Inr)

lemma reads_action:
  assumes "serialize_shielded_action a version = Inr ps" "wf_action a" "sized_action a"
  shows "reads (read_action (version \<noteq> None)) (concat ps) (a, version)"
proof -
  obtain path where path: "pack_derivation_path (action_signing_path a) = Inr path"
    and ps: "ps = (cv_net a @ nullifier a @ rk a @ spend_recipient a @ le_bytes 8 (spend_value a)
             @ spend_rho a @ spend_rseed a @ alpha a)
        # (action_seed_fingerprint a @ path) # (cmx a @ ephemeral_key a)
        # field_packets (enc_ciphertext a) @ field_packets (out_ciphertext a)
        @ [recipient a @ le_bytes 8 (action_value a) @ rseed a @ rcv a
             @ (case version of Some v \<Rightarrow> [v] | None \<Rightarrow> [])]"
    by (rule serialize_shielded_action_Inr [OF assms(1)])
  have stream: "concat ps = cv_net a @ nullifier a @ rk a @ spend_recipient a @ le_bytes 8 (spend_value a)
             @ spend_rho a @ spend_rseed a @ alpha a @ action_seed_fingerprint a @ path @ cmx a @ ephemeral_key a
             @ concat (field_packets (enc_ciphertext a)) @ concat (field_packets (out_ciphertext a))
             @ recipient a @ le_bytes 8 (action_value a) @ rseed a @ rcv a
             @ (case version of Some v \<Rightarrow> [v] | None \<Rightarrow> [])"
    by (simp add: ps)
  have lens: "length (cv_net a) = 32" "length (nullifier a) = 32" "length (rk a) = 32" "length (spend_rho a) = 32"
    "length (spend_rseed a) = 32" "length (alpha a) = 32" "length (action_seed_fingerprint a) = 32"
    "length (cmx a) = 32" "length (ephemeral_key a) = 32" "length (rseed a) = 32" "length (rcv a) = 32"
    "length (spend_recipient a) = 43" "length (recipient a) = 43"
    using assms(2) by (auto simp: wf_action_def)
  have enc: "reads read_field (concat (field_packets (enc_ciphertext a))) (enc_ciphertext a)"
    and out_ct: "reads read_field (concat (field_packets (out_ciphertext a))) (out_ciphertext a)"
    using assms(3) by (auto simp: sized_action_def intro: reads_field)
  have ver: "reads (if version \<noteq> None then and_read read_byte (\<lambda>v. read_give (Some v)) else read_give None)
      (case version of Some v \<Rightarrow> [v] | None \<Rightarrow> []) version"
    by (cases version) (auto intro: reads_and_last [OF reads_byte] reads_give)
  note bytes32 = lens(1-11) [THEN reads_bytes] and bytes43 = lens(12-13) [THEN reads_bytes]
  show ?thesis
    unfolding read_action_def stream
    by (rule reads_and bytes32 bytes43 reads_word reads_path [OF path] enc out_ct reads_and_last [OF ver] reads_give
        | simp)+
qed

section \<open>Bundles\<close>

text \<open>What a bundle sends: nothing at all when it has no action.\<close>

type_synonym bundle_view = "(shielded_action \<times> byte option) list \<times> (byte \<times> int \<times> bytes) option"

definition bundle_view :: "(shielded_action \<times> byte option) list \<Rightarrow> byte \<Rightarrow> int \<Rightarrow> bytes \<Rightarrow> bundle_view" where
  "bundle_view actions flags balance anchor =
     (actions, if actions = [] then None else Some (flags, balance, anchor))"

definition read_trailer :: "(byte \<times> int \<times> bytes) reader" where
  "read_trailer =
     and_read read_byte (\<lambda>flags. and_read (read_word 8 :: 64 word reader) (\<lambda>magnitude.
     and_read read_byte (\<lambda>sign. and_read (read_bytes 32) (\<lambda>anchor.
     read_give (flags, if sign = 1 then - int (unat magnitude) else int (unat magnitude), anchor)))))"

definition read_bundle :: "bool \<Rightarrow> bundle_view reader" where
  "read_bundle versioned =
     and_read read_compact_size (\<lambda>n.
       if n = 0 then read_give ([], None)
       else and_read (read_many n (read_action versioned)) (\<lambda>actions.
            and_read read_trailer (\<lambda>trailer. read_give (actions, Some trailer))))"

lemma reads_trailer:
  assumes "shielded_trailer flags balance anchor = Inr t" "length anchor = 32"
  shows "reads read_trailer t (flags, balance, anchor)"
proof -
  define m :: "64 word" where "m = of_nat (nat \<bar>balance\<bar>)"
  have small: "nat \<bar>balance\<bar> < 2 ^ 64"
    and t: "t = flags # le_bytes 8 m @ (if balance < 0 then 1 else 0) # anchor"
    using assms(1) unfolding shielded_trailer_def m_def by (simp_all split: if_split_asm)
  have m: "unat m = nat \<bar>balance\<bar>"
    unfolding m_def by (rule unat_of_nat_small) (use small in simp)
  have balance: "balance = (if (if balance < 0 then 1 else 0 :: byte) = 1 then - int (unat m) else int (unat m))"
    by (simp add: m)
  show ?thesis
    unfolding read_trailer_def t
    by (rule reads_and_Cons [OF reads_byte] reads_and [OF reads_word] reads_and_last [OF reads_bytes]
        reads_give | use assms(2) balance in simp)+
qed

lemma reads_bundle:
  assumes run: "serialize_shielded_bundle actions flags balance anchor version = Inr ps"
    and "\<forall>a \<in> set actions. wf_action a \<and> sized_action a" "length anchor = 32"
    and versioned: "\<And>i. i < length actions \<Longrightarrow> (version i \<noteq> None) = versioned"
  shows "reads (read_bundle versioned) (concat ps)
    (bundle_view (map (\<lambda>(i, a). (a, version i)) (enumerate 0 actions)) flags balance anchor)"
proof (cases "actions = []")
  case True
  then have "concat ps = compact_size 0"
    using run by (auto simp: serialize_shielded_bundle_def ensure_count_def split: if_splits)
  then show ?thesis
    unfolding read_bundle_def using True
    by (auto intro!: reads_and_last [OF reads_compact_size] reads_give simp: bundle_view_def)
next
  case False
  let ?pairs = "map (\<lambda>(i, a). (a, version i)) (enumerate 0 actions)"
  obtain parts t where len: "length actions \<le> 32"
    and parts: "map (\<lambda>(i, a). serialize_shielded_action a (version i)) (enumerate 0 actions) = map Inr parts"
    and t: "shielded_trailer flags balance anchor = Inr t"
    and ps: "ps = compact_size (length actions) # concat parts @ [t]"
    using run False
    by (auto simp: serialize_shielded_bundle_def ensure_count_def MAX_SHIELDED_ACTIONS_def and_then_eq_Inr
        collect_results_Inr split: if_splits)
  have lp: "length parts = length actions" using parts by (metis length_enumerate length_map)
  have each: "reads (read_action versioned) (concat (parts ! i)) (?pairs ! i)" if i: "i < length actions" for i
  proof -
    have "serialize_shielded_action (actions ! i) (version i) = Inr (parts ! i)"
      using arg_cong [OF parts, of "\<lambda>xs. xs ! i"] i lp by (simp add: nth_enumerate_eq)
    moreover have "wf_action (actions ! i)" "sized_action (actions ! i)" using assms(2) i by simp_all
    ultimately show ?thesis
      using reads_action [of "actions ! i" "version i" "parts ! i"] versioned [OF i] i
      by (simp add: nth_enumerate_eq)
  qed
  have "reads (read_many (length ?pairs) (read_action versioned)) (concat (map concat parts)) ?pairs"
    by (rule reads_many_list) (use each lp in \<open>simp add: list_all2_conv_all_nth\<close>)
  moreover have "concat (map concat parts) = concat (concat parts)" by (induction parts) simp_all
  ultimately have actions: "reads (read_many (length actions) (read_action versioned)) (concat (concat parts)) ?pairs"
    by simp
  have size_of: "reads read_compact_size (compact_size (length actions)) (length actions)"
    using len by (intro reads_compact_size) simp
  have "enumerate 0 actions \<noteq> []" using False by (metis length_0_conv length_enumerate)
  moreover have "concat ps = compact_size (length actions) @ concat (concat parts) @ t" by (simp add: ps)
  ultimately show ?thesis
    unfolding read_bundle_def using False
    by (auto intro!: reads_and [OF size_of] reads_and [OF actions] reads_and_last [OF reads_trailer [OF t assms(3)]]
        reads_give simp: bundle_view_def)
qed

section \<open>The whole PCZT\<close>

definition orchard_view :: "parsed_pczt \<Rightarrow> bundle_view" where
  "orchard_view p = (case orchard_part p of
      None \<Rightarrow> ([], None)
    | Some b \<Rightarrow> bundle_view (map (\<lambda>a. (a, None)) (bundle_actions b)) (bundle_flags b)
                  (bundle_value_balance b) (bundle_anchor b))"

definition ironwood_view :: "parsed_pczt \<Rightarrow> bundle_view" where
  "ironwood_view p = (case ironwood_part p of
      None \<Rightarrow> ([], None)
    | Some b \<Rightarrow> bundle_view (map (\<lambda>a. (inner_action a, Some (note_plaintext_version a))) (ironwood_actions b))
                  (ironwood_flags b) (ironwood_value_balance b) (ironwood_anchor b))"

type_synonym pczt_view =
  "pczt_global \<times> transparent_input list \<times> transparent_output list \<times> bundle_view \<times> bundle_view option"

definition pczt_view :: "parsed_pczt \<Rightarrow> pczt_view" where
  "pczt_view p = (global p, transparent_inputs p, transparent_outputs p, orchard_view p,
     if 6 \<le> tx_version (global p) then Some (ironwood_view p) else None)"

definition read_pczt :: "pczt_view reader" where
  "read_pczt =
     and_read read_header (\<lambda>g.
     and_read read_compact_size (\<lambda>n. and_read (read_many n read_input) (\<lambda>inputs.
     and_read read_compact_size (\<lambda>m. and_read (read_many m read_output) (\<lambda>outputs.
     and_read (read_bundle False) (\<lambda>orchard.
     if 6 \<le> tx_version g
     then and_read (read_bundle True) (\<lambda>ironwood. read_give (g, inputs, outputs, orchard, Some ironwood))
     else read_give (g, inputs, outputs, orchard, None)))))))"

definition pczt_stream :: "command_packets list \<Rightarrow> bytes" where
  "pczt_stream commands = concat (map (concat \<circ> packets) commands)"

definition sized_pczt :: "parsed_pczt \<Rightarrow> bool" where
  "sized_pczt p \<longleftrightarrow>
     (\<forall>i \<in> set (transparent_inputs p). length (input_script_pubkey i) < 2 ^ 64) \<and>
     (\<forall>out \<in> set (transparent_outputs p). length (output_script_pubkey out) < 2 ^ 64) \<and>
     (case orchard_part p of None \<Rightarrow> True | Some b \<Rightarrow> \<forall>a \<in> set (bundle_actions b). sized_action a) \<and>
     (case ironwood_part p of None \<Rightarrow> True | Some b \<Rightarrow> \<forall>a \<in> set (ironwood_actions b). sized_action (inner_action a))"

lemma reads_parts:
  assumes "collect_results (map f xs) = Inr parts"
    and "\<And>x ps. x \<in> set xs \<Longrightarrow> f x = Inr ps \<Longrightarrow> reads r (concat ps) x"
  shows "reads (read_many (length xs) r) (concat (concat parts)) xs"
proof -
  have parts: "map f xs = map Inr parts" using assms(1) by (simp add: collect_results_Inr)
  then have len: "length parts = length xs" by (metis length_map)
  have "f (xs ! i) = Inr (parts ! i)" if "i < length xs" for i
    using arg_cong [OF parts, of "\<lambda>ys. ys ! i"] that len by simp
  then have "list_all2 (reads r) (map concat parts) xs"
    using assms(2) len by (simp add: list_all2_conv_all_nth)
  moreover have "concat (map concat parts) = concat (concat parts)" by (induction parts) simp_all
  ultimately show ?thesis using reads_many_list by fastforce
qed

lemma reads_inputs:
  assumes "serialize_transparent_inputs inputs = Inr ps"
    and "\<forall>i \<in> set inputs. length (prevout_txid i) = 32 \<and> wf_derivation (input_derivation i) \<and>
      length (input_script_pubkey i) < 2 ^ 64"
  shows "\<exists>stream. concat ps = compact_size (length inputs) @ stream \<and> length inputs \<le> 32 \<and>
    reads (read_many (length inputs) read_input) stream inputs"
  using assms reads_parts [of serialize_transparent_input inputs _ read_input] reads_input
  by (auto simp: serialize_transparent_inputs_def ensure_count_def MAX_TRANSPARENT_INPUTS_def and_then_eq_Inr
      split: if_splits)

lemma reads_outputs:
  assumes "serialize_transparent_outputs outputs = Inr ps"
    and "\<forall>out \<in> set outputs. (case output_derivation out of None \<Rightarrow> True | Some d \<Rightarrow> wf_derivation d) \<and>
      length (output_script_pubkey out) < 2 ^ 64"
  shows "\<exists>stream. concat ps = compact_size (length outputs) @ stream \<and> length outputs \<le> 10 \<and>
    reads (read_many (length outputs) read_output) stream outputs"
proof -
  have each: "reads read_output (concat qs) out" if "out \<in> set outputs" "serialize_transparent_output out = Inr qs" for out qs
    by (rule reads_output [OF that(2)]) (use assms(2) that(1) in auto)
  show ?thesis
    using assms(1) reads_parts [of serialize_transparent_output outputs _ read_output] each
    by (auto simp: serialize_transparent_outputs_def ensure_count_def MAX_TRANSPARENT_OUTPUTS_def and_then_eq_Inr
        split: if_splits)
qed

lemma reads_no_bundle: "reads (read_bundle versioned) [0] ([], None)"
proof -
  have "compact_size 0 = [0]" by (simp add: compact_size_def)
  then show ?thesis
    unfolding read_bundle_def
    using reads_compact_size [of 0] by (auto intro!: reads_and_last reads_give)
qed

lemma reads_orchard:
  assumes "serialize_orchard_bundle (orchard_part p) = Inr ps" "wf_pczt p" "sized_pczt p"
  shows "reads (read_bundle False) (concat ps) (orchard_view p)"
proof (cases "orchard_part p")
  case None
  then show ?thesis using assms(1) reads_no_bundle by (auto simp: serialize_orchard_bundle_def orchard_view_def)
next
  case (Some b)
  have run: "serialize_shielded_bundle (bundle_actions b) (bundle_flags b) (bundle_value_balance b) (bundle_anchor b)
      (\<lambda>_. None) = Inr ps"
    using assms(1) Some by (simp add: serialize_orchard_bundle_def)
  have "map (\<lambda>(i, a). (a, None :: byte option)) (enumerate 0 (bundle_actions b)) = map (\<lambda>a. (a, None)) (bundle_actions b)"
    by (intro nth_equalityI) (simp_all add: nth_enumerate_eq)
  then show ?thesis
    using reads_bundle [OF run, of False] assms(2,3) Some
    by (simp add: orchard_view_def wf_pczt_def sized_pczt_def)
qed

lemma reads_ironwood:
  assumes "serialize_ironwood_bundle (ironwood_part p) = Inr ps" "wf_pczt p" "sized_pczt p"
  shows "reads (read_bundle True) (concat ps) (ironwood_view p)"
proof (cases "ironwood_part p")
  case None
  then show ?thesis using assms(1) reads_no_bundle by (auto simp: serialize_ironwood_bundle_def ironwood_view_def)
next
  case (Some b)
  let ?version = "\<lambda>index. Some (note_plaintext_version (ironwood_actions b ! index))"
  have run: "serialize_shielded_bundle (map inner_action (ironwood_actions b)) (ironwood_flags b)
      (ironwood_value_balance b) (ironwood_anchor b) ?version = Inr ps"
    using assms(1) Some by (simp add: serialize_ironwood_bundle_def)
  have "map (\<lambda>(i, a). (a, ?version i)) (enumerate 0 (map inner_action (ironwood_actions b)))
      = map (\<lambda>a. (inner_action a, Some (note_plaintext_version a))) (ironwood_actions b)"
    by (intro nth_equalityI) (simp_all add: nth_enumerate_eq)
  then show ?thesis
    using reads_bundle [OF run, of True] assms(2,3) Some
    by (simp add: ironwood_view_def wf_pczt_def sized_pczt_def)
qed

lemma serialize_pczt_Inr:
  assumes "serialize_pczt p memo = Inr commands"
  obtains inputs outputs orchard where
    "serialize_transparent_inputs (transparent_inputs p) = Inr inputs"
    "serialize_transparent_outputs (transparent_outputs p) = Inr outputs"
    "serialize_orchard_bundle (orchard_part p) = Inr orchard"
    "6 \<le> tx_version (global p) \<Longrightarrow> \<exists>ironwood. serialize_ironwood_bundle (ironwood_part p) = Inr ironwood \<and>
       map packets commands = [[serialize_header (global p)], inputs, outputs, orchard, ironwood]"
    "\<not> 6 \<le> tx_version (global p) \<Longrightarrow> map packets commands = [[serialize_header (global p)], inputs, outputs, orchard]"
  using assms
  by (auto simp: serialize_pczt_def Let_def and_then_eq_Inr split: if_split_asm)

theorem reads_pczt:
  assumes "serialize_pczt p memo = Inr commands" "wf_pczt p" "sized_pczt p"
  shows "reads read_pczt (pczt_stream commands) (pczt_view p)"
proof (rule serialize_pczt_Inr [OF assms(1)])
  fix inputs outputs orchard
  assume ins: "serialize_transparent_inputs (transparent_inputs p) = Inr inputs"
    and outs: "serialize_transparent_outputs (transparent_outputs p) = Inr outputs"
    and orch: "serialize_orchard_bundle (orchard_part p) = Inr orchard"
    and v6: "6 \<le> tx_version (global p) \<Longrightarrow> \<exists>ironwood. serialize_ironwood_bundle (ironwood_part p) = Inr ironwood \<and>
       map packets commands = [[serialize_header (global p)], inputs, outputs, orchard, ironwood]"
    and v5: "\<not> 6 \<le> tx_version (global p) \<Longrightarrow> map packets commands = [[serialize_header (global p)], inputs, outputs, orchard]"
  obtain in_bytes where is_eq: "concat inputs = compact_size (length (transparent_inputs p)) @ in_bytes"
      "length (transparent_inputs p) \<le> 32"
      "reads (read_many (length (transparent_inputs p)) read_input) in_bytes (transparent_inputs p)"
    using reads_inputs [OF ins] assms(2,3) by (auto simp: wf_pczt_def sized_pczt_def)
  obtain os where os: "concat outputs = compact_size (length (transparent_outputs p)) @ os"
      "length (transparent_outputs p) \<le> 10"
      "reads (read_many (length (transparent_outputs p)) read_output) os (transparent_outputs p)"
    using reads_outputs [OF outs] assms(2,3) by (auto simp: wf_pczt_def sized_pczt_def)
  have nums: "reads read_compact_size (compact_size (length (transparent_inputs p))) (length (transparent_inputs p))"
    "reads read_compact_size (compact_size (length (transparent_outputs p))) (length (transparent_outputs p))"
    using is_eq(2) os(2) by (auto intro!: reads_compact_size)
  have orchard: "reads (read_bundle False) (concat orchard) (orchard_view p)"
    by (rule reads_orchard [OF orch assms(2,3)])
  have stream: "pczt_stream commands = concat (map concat (map packets commands))"
    by (simp add: pczt_stream_def)
  show ?thesis
  proof (cases "6 \<le> tx_version (global p)")
    case True
    obtain ironwood where iw: "serialize_ironwood_bundle (ironwood_part p) = Inr ironwood"
      and packets: "map packets commands = [[serialize_header (global p)], inputs, outputs, orchard, ironwood]"
      using v6 [OF True] by (elim exE conjE) (rule that)
    have flat: "pczt_stream commands = serialize_header (global p)
        @ compact_size (length (transparent_inputs p)) @ in_bytes
        @ compact_size (length (transparent_outputs p)) @ os @ concat orchard @ concat ironwood"
      unfolding stream packets by (simp add: is_eq(1) os(1))
    show ?thesis
      unfolding flat read_pczt_def pczt_view_def if_P [OF True]
      by (rule reads_and [OF reads_header] reads_and [OF nums(1)] reads_and [OF nums(2)]
          reads_and [OF is_eq(3)] reads_and [OF os(3)] reads_and [OF orchard]
          reads_and_last [OF reads_ironwood [OF iw assms(2,3)]] reads_give | subst if_P [OF True])+ simp
  next
    case False
    have flat: "pczt_stream commands = serialize_header (global p)
        @ compact_size (length (transparent_inputs p)) @ in_bytes
        @ compact_size (length (transparent_outputs p)) @ os @ concat orchard"
      unfolding stream v5 [OF False] by (simp add: is_eq(1) os(1))
    show ?thesis
      unfolding flat read_pczt_def pczt_view_def if_not_P [OF False]
      by (rule reads_and [OF reads_header] reads_and [OF nums(1)] reads_and [OF nums(2)]
          reads_and [OF is_eq(3)] reads_and [OF os(3)] reads_and_last [OF orchard] reads_give
          | subst if_not_P [OF False])+ simp
  qed
qed

section \<open>Packets fit an APDU\<close>

lemma length_compact_size: "length (compact_size v) \<le> 9"
  by (simp add: compact_size_def)

lemma serialize_bip32_derivation_bound: "serialize_bip32_derivation d = Inr bs \<Longrightarrow> length bs \<le> 255"
  by (auto simp: serialize_bip32_derivation_def ensure_packet_size_def MAX_PACKET_SIZE_def Let_def and_then_eq_Inr
      split: option.splits if_splits)

definition fits :: "bytes list \<Rightarrow> bool" where
  "fits ps \<longleftrightarrow> (\<forall>p \<in> set ps. length p \<le> 255)"

lemma fits_input:
  "serialize_transparent_input i = Inr ps \<Longrightarrow> length (prevout_txid i) = 32 \<Longrightarrow> fits ps"
  by (auto simp: serialize_transparent_input_def fits_def push_u32_le_def push_optional_u32_le_def Let_def
      and_then_eq_Inr ensure_packet_size_def MAX_PACKET_SIZE_def dest: field_packets_bounds
      split: option.splits if_splits)

lemma fits_output: "serialize_transparent_output out = Inr ps \<Longrightarrow> fits ps"
  by (auto simp: serialize_transparent_output_def fits_def and_then_eq_Inr
      dest: field_packets_bounds serialize_bip32_derivation_bound)

lemma length_packed_path: "pack_derivation_path path = Inr bs \<Longrightarrow> length bs = 1 + 4 * length path"
  by (drule pack_derivation_path_Inr) (auto simp: length_concat comp_def sum_list_triv)

lemma fits_action:
  assumes "serialize_shielded_action a version = Inr ps" "wf_action a" "length (action_signing_path a) \<le> 55"
  shows "fits ps"
proof (rule serialize_shielded_action_Inr [OF assms(1)])
  fix path
  assume path: "pack_derivation_path (action_signing_path a) = Inr path"
    and ps: "ps = (cv_net a @ nullifier a @ rk a @ spend_recipient a @ le_bytes 8 (spend_value a)
             @ spend_rho a @ spend_rseed a @ alpha a)
        # (action_seed_fingerprint a @ path) # (cmx a @ ephemeral_key a)
        # field_packets (enc_ciphertext a) @ field_packets (out_ciphertext a)
        @ [recipient a @ le_bytes 8 (action_value a) @ rseed a @ rcv a
             @ (case version of Some v \<Rightarrow> [v] | None \<Rightarrow> [])]"
  show "fits ps"
    using assms(2,3) length_packed_path [OF path] unfolding fits_def ps wf_action_def
    by (auto dest: field_packets_bounds split: option.splits)
qed

lemma fits_bundle:
  assumes "serialize_shielded_bundle actions flags balance anchor version = Inr ps"
    and "\<forall>a \<in> set actions. wf_action a \<and> length (action_signing_path a) \<le> 55" "length anchor = 32"
  shows "fits ps"
proof -
  have "length t = 42" if "shielded_trailer flags balance anchor = Inr t" for t
    using that assms(3) by (auto simp: shielded_trailer_def split: if_splits)
  moreover have "fits (concat parts)"
    if "map (\<lambda>(i, a). serialize_shielded_action a (version i)) (enumerate 0 actions) = map Inr parts" for parts
  proof -
    have "fits part" if part: "part \<in> set parts" for part
    proof -
      have "Inr part \<in> set (map (\<lambda>(i, a). serialize_shielded_action a (version i)) (enumerate 0 actions))"
        unfolding \<open>map _ _ = map Inr parts\<close> using part by simp
      then obtain i where "i < length actions" "serialize_shielded_action (actions ! i) (version i) = Inr part"
        by (auto simp: in_set_enumerate_eq)
      then show ?thesis using fits_action assms(2) by simp
    qed
    then show ?thesis by (auto simp: fits_def)
  qed
  moreover have "fits [compact_size n]" for n
    using length_compact_size [of n] by (simp add: fits_def)
  ultimately show ?thesis
    using assms(1) unfolding serialize_shielded_bundle_def
    by (auto simp: and_then_eq_Inr collect_results_Inr fits_def split: if_split_asm)
qed

definition short_paths :: "parsed_pczt \<Rightarrow> bool" where
  "short_paths p \<longleftrightarrow>
     (case orchard_part p of None \<Rightarrow> True
      | Some b \<Rightarrow> \<forall>a \<in> set (bundle_actions b). length (action_signing_path a) \<le> 55) \<and>
     (case ironwood_part p of None \<Rightarrow> True
      | Some b \<Rightarrow> \<forall>a \<in> set (ironwood_actions b). length (action_signing_path (inner_action a)) \<le> 55)"

lemma fits_parts:
  assumes "collect_results (map f xs) = Inr parts" and "\<And>x ps. x \<in> set xs \<Longrightarrow> f x = Inr ps \<Longrightarrow> fits ps"
  shows "fits (compact_size n # concat parts)"
proof -
  have parts: "map f xs = map Inr parts" using assms(1) by (simp add: collect_results_Inr)
  have "fits part" if "part \<in> set parts" for part
  proof -
    have "Inr part \<in> set (map f xs)" unfolding parts using that by simp
    then show ?thesis using assms(2) by auto
  qed
  then show ?thesis using length_compact_size [of n] by (auto simp: fits_def intro: le_trans)
qed

lemma serialize_pczt_fits:
  assumes "serialize_pczt p memo = Inr commands" "wf_pczt p" "short_paths p"
  shows "\<forall>c \<in> set commands. fits (packets c)"
proof (rule serialize_pczt_Inr [OF assms(1)])
  fix inputs outputs orchard
  assume ins: "serialize_transparent_inputs (transparent_inputs p) = Inr inputs"
    and outs: "serialize_transparent_outputs (transparent_outputs p) = Inr outputs"
    and orch: "serialize_orchard_bundle (orchard_part p) = Inr orchard"
    and v6: "6 \<le> tx_version (global p) \<Longrightarrow> \<exists>ironwood. serialize_ironwood_bundle (ironwood_part p) = Inr ironwood \<and>
       map packets commands = [[serialize_header (global p)], inputs, outputs, orchard, ironwood]"
    and v5: "\<not> 6 \<le> tx_version (global p) \<Longrightarrow> map packets commands = [[serialize_header (global p)], inputs, outputs, orchard]"
  have "fits [serialize_header (global p)]"
    by (auto simp: fits_def serialize_header_def push_u32_le_def push_optional_u32_le_def Let_def split: option.splits)
  moreover have "fits inputs"
    using ins fits_parts [of serialize_transparent_input "transparent_inputs p"] fits_input assms(2)
    by (auto simp: serialize_transparent_inputs_def and_then_eq_Inr wf_pczt_def)
  moreover have "fits outputs"
    using outs fits_parts [of serialize_transparent_output "transparent_outputs p"] fits_output
    by (auto simp: serialize_transparent_outputs_def and_then_eq_Inr)
  moreover have "fits orchard"
    using orch fits_bundle assms(2,3)
    by (cases "orchard_part p") (fastforce simp: serialize_orchard_bundle_def fits_def wf_pczt_def short_paths_def)+
  moreover have "fits ironwood" if "serialize_ironwood_bundle (ironwood_part p) = Inr ironwood" for ironwood
    using that fits_bundle assms(2,3)
    by (cases "ironwood_part p") (fastforce simp: serialize_ironwood_bundle_def fits_def wf_pczt_def short_paths_def)+
  ultimately have "\<forall>ps \<in> set (map packets commands). fits ps"
    using v5 v6 by (cases "6 \<le> tx_version (global p)") auto
  then show ?thesis by simp
qed

end
