(* ===== verification/Utf8.thy ===== *)
theory Utf8
  imports Prelude
begin

text \<open>
  UTF-8 validation as \<open>String::from_utf8\<close> of the standard library does it: the well-formed byte
  sequences of the Unicode standard. A Rust string is the list of its bytes, as 8-bit words or, where
  the code handles text, as HOL characters.
\<close>

definition utf8_tail :: "8 word \<Rightarrow> bool" where
  "utf8_tail b \<longleftrightarrow> 0x80 \<le> b \<and> b \<le> 0xBF"

definition utf8_second :: "8 word \<Rightarrow> 8 word \<Rightarrow> bool" where
  "utf8_second lead b \<longleftrightarrow>
     (if lead = 0xE0 then 0xA0 \<le> b \<and> b \<le> 0xBF
      else if lead = 0xED then 0x80 \<le> b \<and> b \<le> 0x9F
      else if lead = 0xF0 then 0x90 \<le> b \<and> b \<le> 0xBF
      else if lead = 0xF4 then 0x80 \<le> b \<and> b \<le> 0x8F
      else utf8_tail b)"

fun utf8_valid :: "8 word list \<Rightarrow> bool" where
  "utf8_valid [] \<longleftrightarrow> True"
| "utf8_valid (b # bs) \<longleftrightarrow>
     (if b < 0x80 then utf8_valid bs
      else if b < 0xC2 then False
      else if b < 0xE0 then (case bs of c # cs \<Rightarrow> utf8_tail c \<and> utf8_valid cs | _ \<Rightarrow> False)
      else if b < 0xF0 then
        (case bs of c # d # ds \<Rightarrow> utf8_second b c \<and> utf8_tail d \<and> utf8_valid ds | _ \<Rightarrow> False)
      else if b \<le> 0xF4 then
        (case bs of c # d # e # es \<Rightarrow> utf8_second b c \<and> utf8_tail d \<and> utf8_tail e \<and> utf8_valid es | _ \<Rightarrow> False)
      else False)"

lemma ascii_utf8: "\<forall>b \<in> set bs. b < 0x80 \<Longrightarrow> utf8_valid bs"
  by (induction bs) simp_all

definition byte_of :: "char \<Rightarrow> 8 word" where "byte_of c = of_nat (of_char c)"

definition is_ascii :: "string \<Rightarrow> bool" where
  "is_ascii s \<longleftrightarrow> (\<forall>c \<in> set s. (of_char c :: nat) < 128)"

definition from_utf8 :: "string \<Rightarrow> string option" where
  "from_utf8 bs = (if utf8_valid (map byte_of bs) then Some bs else None)"

lemma from_utf8_ascii: "is_ascii s \<Longrightarrow> from_utf8 s = Some s"
proof -
  have "byte_of c < 0x80" if "(of_char c :: nat) < 128" for c
    using that by (simp add: byte_of_def word_less_nat_alt unat_of_nat)
  then have "is_ascii s \<Longrightarrow> \<forall>b \<in> set (map byte_of s). b < 0x80"
    by (simp add: is_ascii_def)
  then show "is_ascii s \<Longrightarrow> from_utf8 s = Some s"
    using ascii_utf8 [of "map byte_of s"] by (simp add: from_utf8_def)
qed

end
