(* ===== verification/LedgerApdu.thy ===== *)
theory LedgerApdu
  imports LedgerWireCorrect Utf8
begin

text \<open>
  Command and response framing of the Ledger Zcash app (\<open>rust/src/wallet/ledger/apdu.rs\<close>), the memo
  check of \<open>parse.rs\<close> and the classification of app-transition errors. A Rust \<open>String\<close> built from
  literals is a HOL string, one built from device bytes is its UTF-8 bytes.
\<close>

section \<open>Commands\<close>

definition ZCASH_CLA :: byte where "ZCASH_CLA = 0xe0"
definition GET_VK :: byte where "GET_VK = 0x50"
definition GET_VK_FIRST :: byte where "GET_VK_FIRST = 0x00"
definition GET_VK_CONTINUE :: byte where "GET_VK_CONTINUE = 0x80"
definition GET_VK_UFVK :: byte where "GET_VK_UFVK = 0x00"
definition RESPONSE_OK :: "16 word" where "RESPONSE_OK = 0x9000"
definition UFVK_RESPONSE_LIMIT :: nat where "UFVK_RESPONSE_LIMIT = 8 * 1024"

record apdu_command =
  cla :: byte
  ins :: byte
  p1 :: byte
  p2 :: byte
  command_data :: bytes

definition ufvk_commands :: "32 word \<Rightarrow> (apdu_command \<times> apdu_command) ledger_result" where
  "ufvk_commands account_index =
     (if 0x80000000 \<le> account_index then Inl AccountIndexRange
      else
        let account = 0x80000000 OR account_index in
        and_then (pack_derivation_path [0x80000020, 0x80000085, account]) (\<lambda>orchard_path.
        and_then (pack_derivation_path [0x8000002c, 0x80000085, account]) (\<lambda>transparent_path.
        Inr (\<lparr> cla = ZCASH_CLA, ins = GET_VK, p1 = GET_VK_FIRST, p2 = GET_VK_UFVK,
               command_data = orchard_path @ transparent_path \<rparr>,
             \<lparr> cla = ZCASH_CLA, ins = GET_VK, p1 = GET_VK_CONTINUE, p2 = GET_VK_UFVK, command_data = [] \<rparr>))))"

section \<open>Status words\<close>

definition STATUS_PREFIX :: string where "STATUS_PREFIX = ''ledger_status_''"

definition hex_digit :: "nat \<Rightarrow> char" where
  "hex_digit n = (if n < 10 then char_of (48 + n) else char_of (87 + n))"

definition hex4 :: "16 word \<Rightarrow> string" where
  "hex4 x = (let n = unat x in
     [hex_digit (n div 4096 mod 16), hex_digit (n div 256 mod 16), hex_digit (n div 16 mod 16), hex_digit (n mod 16)])"

definition status_word_text :: "16 word \<Rightarrow> string" where
  "status_word_text status =
    (if status = 0x5515 \<or> status = 0x6982 \<or> status = 0x5303 then ''Ledger device is locked; unlock it and reopen the Zcash app''
     else if status = 0x63c0 then ''A wrong Ledger PIN was entered; unlock your Ledger''
     else if status = 0x5501 then ''Ledger request was rejected on the device''
     else if status = 0x6985 then ''Ledger request was rejected or the PCZT was not finalized''
     else if status = 0x5502 then ''Ledger device PIN is not set''
     else if status = 0x5223 then ''Ledger device returned an internal error''
     else if status = 0x6601 then ''Ledger device is busy switching apps; retry shortly''
     else if status = 0x6700 then ''Ledger Zcash app rejected the command length''
     else if status = 0x670a then ''Ledger app-open request did not include an app name''
     else if status = 0x6807 then ''The Zcash app is not installed on this Ledger''
     else if status = 0x6901 then ''Ledger display is busy starting a review; retry shortly''
     else if status = 0x6a80 then ''Ledger rejected the PCZT data or key path''
     else if status = 0x6a84 then ''Ledger ran out of memory for this transaction; try a smaller amount''
     else if status = 0x6b00 then ''Ledger Zcash app rejected the command parameters''
     else if status = 0x6e00 then ''Ledger device does not support this command class''
     else if status = 0x6d00 then ''The running Ledger app does not support this command''
     else if status = 0x6f00 then ''Ledger Zcash app reported a technical problem''
     else if status = 0x6f01 then ''Ledger Zcash app could not parse the transaction version''
     else if status = 0x6f02 then ''Ledger Zcash app could not parse the transaction''
     else if status = 0x6f03 then ''Ledger random number generator failed''
     else if status = 0x6faa then ''Ledger Zcash app halted; close and reopen the app''
     else if status = 0xb007 then ''Ledger Zcash app is in the wrong state; close and reopen the app''
     else ''Ledger Zcash app returned status 0x'' @ hex4 status)"

definition map_status_word :: "16 word \<Rightarrow> string" where
  "map_status_word status = STATUS_PREFIX @ hex4 status @ '': '' @ status_word_text status"

text \<open>\<open>str::split_once\<close> splits at the first occurrence.\<close>

fun split_once :: "string \<Rightarrow> string \<Rightarrow> (string \<times> string) option" where
  "split_once pat [] = (if pat = [] then Some ([], []) else None)"
| "split_once pat (c # cs) =
     (if take (length pat) (c # cs) = pat then Some ([], drop (length pat) (c # cs))
      else map_option (\<lambda>(before, after). (c # before, after)) (split_once pat cs))"

definition is_hex_digit :: "char \<Rightarrow> bool" where
  "is_hex_digit c \<longleftrightarrow> (48 \<le> (of_char c :: nat) \<and> (of_char c :: nat) \<le> 57) \<or>
                      (97 \<le> (of_char c :: nat) \<and> (of_char c :: nat) \<le> 102)"

definition hex_value :: "char \<Rightarrow> nat" where
  "hex_value c = (if (of_char c :: nat) \<le> 57 then of_char c - 48 else of_char c - 87)"

definition ledger_status_word :: "string \<Rightarrow> 16 word option" where
  "ledger_status_word error = (case split_once STATUS_PREFIX error of
      None \<Rightarrow> None
    | Some (_, rest) \<Rightarrow> (case split_once '':'' rest of
        None \<Rightarrow> None
      | Some (code, _) \<Rightarrow>
          if length code \<noteq> 4 \<or> \<not> list_all is_hex_digit code then None
          else Some (of_nat (foldl (\<lambda>n c. 16 * n + hex_value c) 0 code))))"

definition str_contains :: "string \<Rightarrow> string \<Rightarrow> bool" where
  "str_contains s pat \<longleftrightarrow> split_once pat s \<noteq> None"

definition is_terminal_app_transition_error :: "string \<Rightarrow> bool" where
  "is_terminal_app_transition_error error \<longleftrightarrow>
     (case ledger_status_word error of
        Some status \<Rightarrow> status \<in> {0x5515, 0x6982, 0x5303, 0x5502, 0x6807, 0x5501, 0x6985, 0x6a80, 0x6e00, 0x6d00}
      | None \<Rightarrow> False) \<or>
     str_contains error ''locked'' \<or> str_contains error ''PIN is not set'' \<or>
     str_contains error ''not installed'' \<or> str_contains error ''rejected'' \<or>
     str_contains error ''does not support this command''"

section \<open>Responses\<close>

definition u16_be :: "byte \<Rightarrow> byte \<Rightarrow> 16 word" where
  "u16_be high low = of_nat (256 * unat high + unat low)"

definition decode_raw_response :: "bytes \<Rightarrow> bytes ledger_result" where
  "decode_raw_response response =
     (let n = length response in
      if n < 2 then Inl ResponseTooShort
      else
        let status = u16_be (response ! (n - 2)) (response ! (n - 1)) in
        if status \<noteq> RESPONSE_OK then Inl (DeviceStatus (map_status_word status))
        else Inr (take (n - 2) response))"

fun append_ufvk_chunks :: "nat \<Rightarrow> bytes \<Rightarrow> bytes list \<Rightarrow> bytes ledger_result" where
  "append_ufvk_chunks expected_len response [] = Inr response"
| "append_ufvk_chunks expected_len response (chunk # parts) =
     (if expected_len \<le> length response then Inl UfvkTrailingChunks
      else if chunk = [] then Inl UfvkEndedEarly
      else append_ufvk_chunks expected_len (response @ chunk) parts)"

definition decode_ufvk_chunks :: "bytes list \<Rightarrow> bytes ledger_result" where
  "decode_ufvk_chunks parts =
     (let response = (case parts of [] \<Rightarrow> [] | chunk # _ \<Rightarrow> chunk) in
      if length response < 2 then Inl UfvkNoLength
      else
        let key_len = unat (u16_be (response ! 0) (response ! 1));
            expected_len = 2 + key_len in
        if expected_len > UFVK_RESPONSE_LIMIT then Inl (UfvkUnreasonable key_len)
        else
          and_then (append_ufvk_chunks expected_len response (tl parts)) (\<lambda>response.
          if length response < expected_len then Inl UfvkEndedEarly
          else if length response \<noteq> expected_len then Inl UfvkTrailingBytes
          else if utf8_valid (drop 2 response) then Inr (drop 2 response)
          else Inl UfvkNotUtf8))"

definition decode_raw_ufvk_responses :: "bytes list \<Rightarrow> bytes ledger_result" where
  "decode_raw_ufvk_responses responses =
     (if responses = [] then Inl UfvkMissing
      else and_then (collect_results (map decode_raw_response responses)) decode_ufvk_chunks)"

section \<open>Memos\<close>

definition memo_reaches_ledger_hash_path :: "bytes \<Rightarrow> bool" where
  "memo_reaches_ledger_hash_path memo =
     (if memo ! 0 = 0xf6 \<and> (\<forall>b \<in> set (drop 1 memo). b = 0) then False
      else
        let len = length (dropWhile (\<lambda>b. b = 0) (rev memo)) in
        if len = 0 then False
        else if memo ! 0 > 0xf4 then True
        else if utf8_valid (take len memo) then \<not> (\<forall>b \<in> set (take len memo). 0x20 \<le> b \<and> b \<le> 0x7e)
        else True)"

section \<open>Facts\<close>

lemma split_once_here: "take (length pat) s = pat \<Longrightarrow> split_once pat s = Some ([], drop (length pat) s)"
  by (cases s) auto

lemma split_once_char: "c \<notin> set before \<Longrightarrow> split_once [c] (before @ c # after) = Some (before, after)"
  by (induction before) auto

lemma hex_digit_facts:
  assumes "n < 16"
  shows "is_hex_digit (hex_digit n)" "hex_value (hex_digit n) = n" "hex_digit n \<noteq> CHR '':''"
proof -
  have code: "(of_char (hex_digit n) :: nat) = (if n < 10 then 48 + n else 87 + n)"
    using assms by (simp add: hex_digit_def take_bit_nat_eq_self)
  then show "is_hex_digit (hex_digit n)" "hex_value (hex_digit n) = n"
    using assms by (auto simp: is_hex_digit_def hex_value_def)
  have "(of_char (hex_digit n) :: nat) \<noteq> of_char CHR '':''" unfolding code using assms by simp
  then show "hex_digit n \<noteq> CHR '':''" by auto
qed

lemma hex4_facts:
  "length (hex4 x) = 4" "list_all is_hex_digit (hex4 x)" "CHR '':'' \<notin> set (hex4 x)"
  "foldl (\<lambda>n c. 16 * n + hex_value c) 0 (hex4 x) = unat x"
proof -
  show "length (hex4 x) = 4" "list_all is_hex_digit (hex4 x)" "CHR '':'' \<notin> set (hex4 x)"
    using hex_digit_facts hex_digit_facts(3) [THEN not_sym] by (simp_all add: hex4_def Let_def)
  have "unat x < 65536" using unsigned_less [of x] by simp
  then have "unat x div 4096 mod 16 = unat x div 4096" by simp
  moreover have "16 * (16 * (16 * (n div 4096) + n div 256 mod 16) + n div 16 mod 16) + n mod 16 = n" for n :: nat
  proof -
    have "n div 256 = 16 * (n div 4096) + n div 256 mod 16" by (simp add: div_mult2_eq [of n 256 16, simplified])
    moreover have "n div 16 = 16 * (n div 256) + n div 16 mod 16" by (simp add: div_mult2_eq [of n 16 16, simplified])
    ultimately show ?thesis by presburger
  qed
  ultimately show "foldl (\<lambda>n c. 16 * n + hex_value c) 0 (hex4 x) = unat x"
    by (simp add: hex4_def Let_def hex_digit_facts(2))
qed

text \<open>A status word is found again, also behind a message without underscores.\<close>

lemma split_prefix:
  "CHR ''_'' \<notin> set message \<Longrightarrow> split_once STATUS_PREFIX (message @ STATUS_PREFIX @ rest) = Some (message, rest)"
proof (induction message)
  case Nil
  have "take (length STATUS_PREFIX) (STATUS_PREFIX @ rest) = STATUS_PREFIX" by simp
  then show ?case using split_once_here [of STATUS_PREFIX "STATUS_PREFIX @ rest"] by simp
next
  case (Cons c message)
  let ?s = "(c # message) @ STATUS_PREFIX @ rest"
  have "take (length STATUS_PREFIX) ?s \<noteq> STATUS_PREFIX"
  proof
    assume eq: "take (length STATUS_PREFIX) ?s = STATUS_PREFIX"
    have six: "STATUS_PREFIX ! 6 = CHR ''_''" "6 < length STATUS_PREFIX" by (simp_all add: STATUS_PREFIX_def)
    then have at: "?s ! 6 = CHR ''_''" using eq by (metis nth_take)
    show False
    proof (cases "6 < length (c # message)")
      case True
      then have "?s ! 6 \<in> set (c # message)" by (metis nth_append nth_mem)
      then show False using at Cons.prems by simp
    next
      case False
      define k where "k = 6 - length (c # message)"
      have k: "k \<in> {0..<6}" using False by (auto simp: k_def)
      have "?s ! 6 = (STATUS_PREFIX @ rest) ! k"
        unfolding k_def nth_append [of "c # message"] if_not_P [OF False] by (rule refl)
      also have "\<dots> = STATUS_PREFIX ! k"
        using k six(2) by (simp add: nth_append)
      also have "\<dots> \<noteq> CHR ''_''"
        using k by (auto simp: STATUS_PREFIX_def nth_Cons' numeral_eq_Suc less_Suc_eq)
      finally show False using at by simp
    qed
  qed
  then show ?case using Cons by simp
qed

lemma status_word_roundtrip:
  assumes "CHR ''_'' \<notin> set message"
  shows "ledger_status_word (message @ map_status_word status) = Some status"
proof -
  have "split_once STATUS_PREFIX (message @ map_status_word status)
      = Some (message, hex4 status @ '':'' @ '' '' @ status_word_text status)"
    using split_prefix [OF assms] by (simp add: map_status_word_def)
  moreover have "split_once '':'' (hex4 status @ '':'' @ '' '' @ status_word_text status)
      = Some (hex4 status, '' '' @ status_word_text status)"
    using split_once_char [of "CHR '':''" "hex4 status"] hex4_facts(3) by simp
  ultimately show ?thesis
    by (simp add: ledger_status_word_def hex4_facts)
qed

lemma u16_be_eq: "unat (u16_be a b) = 256 * unat a + unat b"
proof -
  have "unat a < 256" "unat b < 256" using unsigned_less [of a] unsigned_less [of b] by simp_all
  then have "256 * unat a + unat b < 2 ^ LENGTH(16)" by simp
  then show ?thesis unfolding u16_be_def by (rule unat_of_nat_small)
qed

end
