(* ===== verification/LedgerPlan.thy ===== *)
theory LedgerPlan
  imports LedgerApdu
begin

text \<open>
  Signing with the device (\<open>rust/src/wallet/ledger/mod.rs\<close>): the checks on a PCZT before it is sent,
  the ordered list of commands, and the decoding of the responses. Parsing the PCZT is third-party
  code; the functions take the parsed value.
\<close>

section \<open>Checks\<close>

record expected_account =
  expected_account_index :: "32 word"
  expected_coin_type :: "32 word"
  expected_fingerprint :: bytes

definition HARDENED :: "32 word" where "HARDENED = 0x80000000"

definition validate_fingerprint :: "bytes \<Rightarrow> expected_account \<Rightarrow> string \<Rightarrow> nat \<Rightarrow> unit ledger_result" where
  "validate_fingerprint fingerprint expected label index =
     (if fingerprint \<noteq> expected_fingerprint expected then Inl (ForeignFingerprint label index) else Inr ())"

definition validate_transparent_derivation ::
  "bip32_derivation \<Rightarrow> expected_account \<Rightarrow> string \<Rightarrow> nat \<Rightarrow> bool \<Rightarrow> unit ledger_result" where
  "validate_transparent_derivation derivation expected label index allow_ephemeral_scope =
     (let expected_path = [HARDENED OR 44, HARDENED OR expected_coin_type expected,
                           HARDENED OR expected_account_index expected];
          path = signing_path derivation;
          valid_scope = (3 < length path \<and>
            (path ! 3 = 0 \<or> path ! 3 = 1 \<or> (allow_ephemeral_scope \<and> path ! 3 = 2)));
          valid_suffix = (length path = 5 \<and> valid_scope \<and> path ! 4 AND HARDENED = 0)
      in if \<not> (3 \<le> length path \<and> take 3 path = expected_path) \<or> \<not> valid_suffix
         then Inl (ForeignPath label index)
         else validate_fingerprint (seed_fingerprint derivation) expected label index)"

definition validate_shielded_derivation ::
  "32 word list \<Rightarrow> bytes \<Rightarrow> expected_account \<Rightarrow> string \<Rightarrow> nat \<Rightarrow> unit ledger_result" where
  "validate_shielded_derivation path fingerprint expected label index =
     (if path \<noteq> [HARDENED OR 32, HARDENED OR expected_coin_type expected,
                 HARDENED OR expected_account_index expected]
      then Inl (ForeignPath label index)
      else validate_fingerprint fingerprint expected label index)"

definition validate_each :: "(nat \<times> 'a \<Rightarrow> unit ledger_result) \<Rightarrow> 'a list \<Rightarrow> unit ledger_result" where
  "validate_each check xs = try_fold (\<lambda>_ entry. check entry) () (enumerate 0 xs)"

definition validate_pczt_account :: "parsed_pczt \<Rightarrow> expected_account \<Rightarrow> unit ledger_result" where
  "validate_pczt_account pczt expected =
     (if coin_type (global pczt) \<noteq> expected_coin_type expected then Inl CoinTypeMismatch
      else
        and_then (validate_each (\<lambda>(index, input).
            validate_transparent_derivation (input_derivation input) expected ''transparent input'' index True)
            (transparent_inputs pczt)) (\<lambda>_.
        and_then (validate_each (\<lambda>(index, out). case output_derivation out of
              None \<Rightarrow> Inr ()
            | Some derivation \<Rightarrow>
                validate_transparent_derivation derivation expected ''transparent output'' index False)
            (transparent_outputs pczt)) (\<lambda>_.
        and_then (case orchard_part pczt of
              None \<Rightarrow> Inr ()
            | Some bundle \<Rightarrow> validate_each (\<lambda>(index, action).
                validate_shielded_derivation (action_signing_path action) (action_seed_fingerprint action)
                  expected ''Orchard action'' index) (bundle_actions bundle)) (\<lambda>_.
        (case ironwood_part pczt of
              None \<Rightarrow> Inr ()
            | Some bundle \<Rightarrow> validate_each (\<lambda>(index, action).
                validate_shielded_derivation (action_signing_path (inner_action action))
                  (action_seed_fingerprint (inner_action action)) expected ''Ironwood action'' index)
                (ironwood_actions bundle))))))"

definition require_legacy_orchard_recovery_support :: "bool \<Rightarrow> bool \<Rightarrow> unit ledger_result" where
  "require_legacy_orchard_recovery_support has_orchard_spend has_ironwood_output =
     (if has_orchard_spend \<and> has_ironwood_output then Inl LegacyOrchardRecovery else Inr ())"

definition validate_pczt_release_support :: "parsed_pczt \<Rightarrow> unit ledger_result" where
  "validate_pczt_release_support pczt =
     require_legacy_orchard_recovery_support
       (case orchard_part pczt of None \<Rightarrow> False
        | Some bundle \<Rightarrow> \<exists>action \<in> set (bundle_actions bundle). spend_value action \<noteq> 0)
       (case ironwood_part pczt of None \<Rightarrow> False
        | Some bundle \<Rightarrow> \<exists>action \<in> set (ironwood_actions bundle). action_value (inner_action action) \<noteq> 0)"

section \<open>The signing plan\<close>

datatype value_pool = Orchard | Ironwood

datatype signature_request =
  TransparentRequest nat
| ShieldedRequest value_pool nat byte

definition packet_commands :: "command_packets \<Rightarrow> apdu_command list ledger_result" where
  "packet_commands command =
     (let total_packets = length (packets command) in
      if total_packets = 0 then Inl CommandWithoutPackets
      else Inr (map (\<lambda>(index, payload).
        \<lparr> cla = ZCASH_CLA, ins = instruction command, p1 = packet_p1 index total_packets,
          p2 = packet_p2 index total_packets (finishes_pczt command), command_data = payload \<rparr>)
        (enumerate 0 (packets command))))"

definition shielded_requests :: "value_pool \<Rightarrow> byte \<Rightarrow> shielded_action list \<Rightarrow> signature_request list" where
  "shielded_requests pool code actions =
     map (\<lambda>(index, action). ShieldedRequest pool index code)
       (filter (\<lambda>(index, action). spend_value action \<noteq> 0) (enumerate 0 actions))"

definition signature_requests :: "parsed_pczt \<Rightarrow> bool \<Rightarrow> signature_request list" where
  "signature_requests pczt include_transparent =
     (if include_transparent then map TransparentRequest [0..<length (transparent_inputs pczt)] else [])
     @ (case orchard_part pczt of None \<Rightarrow> []
        | Some bundle \<Rightarrow> shielded_requests Orchard 0x57 (bundle_actions bundle))
     @ (case ironwood_part pczt of None \<Rightarrow> []
        | Some bundle \<Rightarrow> shielded_requests Ironwood 0x59 (map inner_action (ironwood_actions bundle)))"

definition request_command :: "signature_request \<Rightarrow> apdu_command ledger_result" where
  "request_command request =
     (let (code, index) = (case request of
            TransparentRequest input_index \<Rightarrow> (0x55, input_index)
          | ShieldedRequest pool action_index code \<Rightarrow> (code, action_index))
      in if index < 256
         then Inr \<lparr> cla = ZCASH_CLA, ins = code, p1 = 0, p2 = of_nat index, command_data = [] \<rparr>
         else Inl SigningIndexRange)"

definition build_signing_plan ::
  "parsed_pczt \<Rightarrow> bool \<Rightarrow> bool \<Rightarrow> (apdu_command list \<times> signature_request list) ledger_result" where
  "build_signing_plan pczt include_transparent memo_hash_supported =
     (if \<not> include_transparent \<and> transparent_inputs pczt \<noteq> [] then Inl UseFullSigning
      else
        and_then (serialize_pczt pczt memo_hash_supported) (\<lambda>serialized.
        and_then (collect_results (map packet_commands serialized)) (\<lambda>commands.
        let requests = signature_requests pczt include_transparent in
        if requests = [] then Inl NothingToSign
        else and_then (collect_results (map request_command requests)) (\<lambda>request_commands.
          Inr (concat commands @ request_commands, requests)))))"

definition build_pczt_signing_plan :: "parsed_pczt \<Rightarrow> bool \<Rightarrow> apdu_command list ledger_result" where
  "build_pczt_signing_plan pczt memo_hash_supported =
     map_sum id fst (build_signing_plan pczt False memo_hash_supported)"

definition build_pczt_full_signing_plan :: "parsed_pczt \<Rightarrow> bool \<Rightarrow> apdu_command list ledger_result" where
  "build_pczt_full_signing_plan pczt memo_hash_supported =
     map_sum id fst (build_signing_plan pczt True memo_hash_supported)"

section \<open>Responses\<close>

record transparent_signature =
  der_signature :: bytes
  signature_sighash_type :: byte

record shielded_signature =
  signature_pool :: value_pool
  signature_action_index :: nat
  signature_bytes :: bytes

definition decode_transparent_signature :: "nat \<Rightarrow> bytes \<Rightarrow> transparent_signature ledger_result" where
  "decode_transparent_signature input_index response =
     (if \<not> (9 \<le> length response \<and> length response \<le> 73)
      then Inl (TransparentSignatureLength input_index (length response))
      else
        let der = butlast response in
        if der ! 0 AND 0xfe \<noteq> 0x30 then Inl (TransparentSignatureTag input_index)
        else if unat (der ! 1) + 2 \<noteq> length der then Inl (TransparentSignatureDer input_index)
        else Inr \<lparr> der_signature = der, signature_sighash_type = last response \<rparr>)"

type_synonym signatures = "transparent_signature list \<times> shielded_signature list"

definition decode_signature ::
  "signatures \<Rightarrow> signature_request \<times> bytes \<Rightarrow> signatures ledger_result" where
  "decode_signature acc entry =
     (case (acc, entry) of ((transparent, shielded), (request, payload)) \<Rightarrow>
      (case request of
         TransparentRequest input_index \<Rightarrow>
           and_then (decode_transparent_signature input_index payload) (\<lambda>signature.
           Inr (transparent @ [signature], shielded))
       | ShieldedRequest pool action_index code \<Rightarrow>
           if length payload \<noteq> 64 then Inl (SignatureLength (length payload))
           else if \<forall>b \<in> set payload. b = 0 then Inl ZeroSignature
           else Inr (transparent, shielded @ [\<lparr> signature_pool = pool, signature_action_index = action_index,
                       signature_bytes = payload \<rparr>])))"

definition decode_response :: "nat \<Rightarrow> nat \<Rightarrow> nat \<times> bytes \<Rightarrow> bytes ledger_result" where
  "decode_response expected_count returned entry =
     (case entry of (index, response) \<Rightarrow>
        if expected_count \<le> index then Inl (ResponseCount returned expected_count)
        else decode_raw_response response)"

definition decode_signing_responses ::
  "apdu_command list \<Rightarrow> signature_request list \<Rightarrow> bytes list \<Rightarrow> signatures ledger_result" where
  "decode_signing_responses commands requests responses =
     and_then (collect_results (map (decode_response (length commands) (length responses))
       (enumerate 0 responses))) (\<lambda>payloads.
     if length responses \<noteq> length commands then Inl (ResponseCount (length responses) (length commands))
     else
       let packet_count = length commands - length requests in
       case find (\<lambda>(index, payload). payload \<noteq> []) (enumerate 0 (take packet_count payloads)) of
         Some (index, payload) \<Rightarrow> Inl (UnexpectedPacketData (index + 1))
       | None \<Rightarrow> try_fold decode_signature ([], []) (zip requests (drop packet_count payloads)))"

end
