(* ===== verification/LedgerPlanCorrect.thy ===== *)
theory LedgerPlanCorrect
  imports LedgerPlan
begin

text \<open>
  What the Ledger exchange promises: key chunks are reassembled exactly, an account check bounds every
  packet, the plan streams the PCZT and asks for exactly its real spends, and accepted responses give
  one signature per request.
\<close>

section \<open>Viewing key chunks\<close>

lemma append_ufvk_chunks_Inr:
  "append_ufvk_chunks n r parts = Inr s \<Longrightarrow> s = r @ concat parts"
  by (induction n r parts rule: append_ufvk_chunks.induct) (auto split: if_splits)

lemma append_ufvk_chunks_complete:
  assumes "\<forall>c \<in> set parts. c \<noteq> []" "length (r @ concat parts) \<le> n"
  shows "append_ufvk_chunks n r parts = Inr (r @ concat parts)"
  using assms
proof (induction n r parts rule: append_ufvk_chunks.induct)
  case (2 n r c parts)
  then have "length r < n" using 2 by (cases c) auto
  then show ?case using 2 by simp
qed simp

text \<open>The key of a chunk list: two length bytes, the key, nothing else.\<close>

definition ufvk_stream :: "bytes list \<Rightarrow> bytes \<Rightarrow> bool" where
  "ufvk_stream parts key \<longleftrightarrow>
     (\<exists>a b. concat parts = a # b # key \<and> unat (u16_be a b) = length key)"

lemma decode_ufvk_chunks_sound:
  assumes "decode_ufvk_chunks parts = Inr key"
  shows "ufvk_stream parts key \<and> utf8_valid key \<and> length key \<le> 8190"
proof (cases parts)
  case Nil
  then show ?thesis using assms by (simp add: decode_ufvk_chunks_def Let_def)
next
  case (Cons first others)
  let ?n = "2 + unat (u16_be (first ! 0) (first ! 1))"
  obtain r where r: "2 \<le> length first" "?n \<le> 8192" "append_ufvk_chunks ?n first others = Inr r"
      "length r = ?n" "utf8_valid (drop 2 r)" "key = drop 2 r"
    using assms Cons by (auto simp: decode_ufvk_chunks_def Let_def UFVK_RESPONSE_LIMIT_def and_then_eq_Inr
        split: if_splits)
  have "r = concat parts" using append_ufvk_chunks_Inr [OF r(3)] Cons by simp
  moreover obtain a b first' where "first = a # b # first'"
    using r(1) by (metis One_nat_def Suc_1 Suc_le_length_iff)
  ultimately show ?thesis using r Cons by (auto simp: ufvk_stream_def)
qed

lemma append_ufvk_chunks_nonempty:
  "append_ufvk_chunks n r parts = Inr s \<Longrightarrow> c \<in> set parts \<Longrightarrow> c \<noteq> []"
  by (induction n r parts rule: append_ufvk_chunks.induct) (auto split: if_splits)

lemma decode_ufvk_chunks_shape:
  assumes "decode_ufvk_chunks parts = Inr key"
  shows "parts \<noteq> [] \<and> 2 \<le> length (hd parts) \<and> (\<forall>c \<in> set (tl parts). c \<noteq> [])"
  using assms
  by (cases parts) (auto simp: decode_ufvk_chunks_def Let_def and_then_eq_Inr split: if_splits
      dest: append_ufvk_chunks_nonempty)

lemma decode_ufvk_chunks_complete:
  assumes "parts \<noteq> []" "2 \<le> length (hd parts)" "\<forall>c \<in> set (tl parts). c \<noteq> []"
    and "ufvk_stream parts key" "utf8_valid key" "length key \<le> 8190"
  shows "decode_ufvk_chunks parts = Inr key"
proof -
  obtain first others where parts: "parts = first # others" using assms(1) by (cases parts) auto
  obtain a b where ab: "concat parts = a # b # key" "unat (u16_be a b) = length key"
    using assms(4) by (auto simp: ufvk_stream_def)
  obtain first' where first: "first = a # b # first'"
    using assms(2) ab(1) parts
    by (cases first; cases "tl first") (auto simp: numeral_2_eq_2)
  have whole: "first @ concat others = a # b # key" using ab(1) parts by simp
  have "length (first @ concat others) \<le> 2 + length key" unfolding whole by simp
  moreover have "\<forall>c \<in> set others. c \<noteq> []" using assms(3) parts by simp
  ultimately have "append_ufvk_chunks (2 + length key) first others = Inr (first @ concat others)"
    by (intro append_ufvk_chunks_complete)
  with whole show ?thesis
    using assms(5,6) ab(2) first parts by (simp add: decode_ufvk_chunks_def Let_def UFVK_RESPONSE_LIMIT_def)
qed

section \<open>Memos\<close>

definition memo_text :: "bytes \<Rightarrow> bytes" where
  "memo_text memo = rev (dropWhile (\<lambda>b. b = 0) (rev memo))"

lemma memo_text_take: "memo_text memo = take (length (dropWhile (\<lambda>b. b = 0) (rev memo))) memo"
proof -
  have "rev memo = takeWhile (\<lambda>b. b = 0) (rev memo) @ dropWhile (\<lambda>b. b = 0) (rev memo)" by simp
  then have "memo = rev (dropWhile (\<lambda>b. b = 0) (rev memo)) @ rev (takeWhile (\<lambda>b. b = 0) (rev memo))"
    by (metis rev_append rev_rev_ident)
  then show ?thesis unfolding memo_text_def by (metis append_eq_conv_conj length_rev)
qed

lemma memo_hash_iff:
  assumes "memo \<noteq> []"
  shows "\<not> memo_reaches_ledger_hash_path memo \<longleftrightarrow>
    (hd memo = 0xf6 \<and> (\<forall>b \<in> set (tl memo). b = 0)) \<or> (\<forall>b \<in> set (memo_text memo). 0x20 \<le> b \<and> b \<le> 0x7e)"
proof -
  let ?len = "length (dropWhile (\<lambda>b. b = 0) (rev memo))"
  have body: "take ?len memo = memo_text memo" by (rule memo_text_take [symmetric])
  have first: "memo ! 0 = hd memo" using assms by (simp add: hd_conv_nth)
  have "hd memo \<in> set (memo_text memo)" if "?len \<noteq> 0"
    using that assms unfolding body [symmetric] by (cases memo; cases ?len) auto
  then have lead: "\<not> 0xf4 < hd memo" if "?len \<noteq> 0" "\<forall>b \<in> set (memo_text memo). 0x20 \<le> b \<and> b \<le> 0x7e"
    using that by (auto simp: word_le_nat_alt word_less_nat_alt)
  have empty: "?len = 0 \<longleftrightarrow> memo_text memo = []" by (simp add: memo_text_def)
  have "utf8_valid (memo_text memo)" if "\<forall>b \<in> set (memo_text memo). 0x20 \<le> b \<and> b \<le> 0x7e"
    using that by (intro ascii_utf8) (force simp: word_le_nat_alt word_less_nat_alt)
  then show ?thesis
    using lead empty unfolding memo_reaches_ledger_hash_path_def Let_def body first
    by (auto simp: drop_Suc)
qed

section \<open>Account checks\<close>

lemma validate_each_Inr:
  "validate_each check xs = Inr u \<longleftrightarrow> (\<forall>i < length xs. check (i, xs ! i) = Inr ())"
proof -
  have "try_fold (\<lambda>_ entry. check entry) () es = Inr u \<longleftrightarrow> (\<forall>e \<in> set es. check e = Inr ())" for es
    by (induction es) (auto simp: and_then_eq_Inr)
  then show ?thesis by (auto simp: validate_each_def in_set_enumerate_eq)
qed

lemma validate_fingerprint_Inr:
  "validate_fingerprint fp expected label i = Inr u \<longleftrightarrow> fp = expected_fingerprint expected"
  by (simp add: validate_fingerprint_def)

definition account_path :: "32 word \<Rightarrow> expected_account \<Rightarrow> 32 word list" where
  "account_path purpose expected =
     [HARDENED OR purpose, HARDENED OR expected_coin_type expected, HARDENED OR expected_account_index expected]"

lemma validate_shielded_Inr:
  "validate_shielded_derivation path fp expected label i = Inr u \<longleftrightarrow>
   path = account_path 32 expected \<and> fp = expected_fingerprint expected"
  by (auto simp: validate_shielded_derivation_def account_path_def validate_fingerprint_Inr split: if_splits)

lemma validate_transparent_Inr:
  "validate_transparent_derivation d expected label i ephemeral = Inr u \<longleftrightarrow>
   (\<exists>scope index. signing_path d = account_path 44 expected @ [scope, index] \<and>
      (scope = 0 \<or> scope = 1 \<or> ephemeral \<and> scope = 2) \<and> index AND HARDENED = 0) \<and>
   seed_fingerprint d = expected_fingerprint expected"
proof -
  have "(3 \<le> length path \<and> take 3 path = account_path 44 expected \<and> length path = 5 \<and> P (path ! 3) \<and> Q (path ! 4))
      \<longleftrightarrow> (\<exists>scope index. path = account_path 44 expected @ [scope, index] \<and> P scope \<and> Q index)"
    for path and P Q :: "32 word \<Rightarrow> bool"
  proof (cases "length path = 5")
    case True
    then obtain a b c scope index where "path = [a, b, c, scope, index]"
      by (auto simp: numeral_eq_Suc length_Suc_conv)
    then show ?thesis by (auto simp: account_path_def)
  next
    case False
    then show ?thesis by (auto simp: account_path_def)
  qed
  from this [of "signing_path d" "\<lambda>s. s = 0 \<or> s = 1 \<or> ephemeral \<and> s = 2" "\<lambda>i. i AND HARDENED = 0"]
  show ?thesis
    by (auto simp: validate_transparent_derivation_def Let_def account_path_def [symmetric] validate_fingerprint_Inr
        split: if_split_asm)
qed

lemma validated_paths:
  assumes "validate_pczt_account pczt expected = Inr ()"
  shows "orchard_part pczt = Some b \<Longrightarrow> a \<in> set (bundle_actions b) \<Longrightarrow>
      action_signing_path a = account_path 32 expected \<and> action_seed_fingerprint a = expected_fingerprint expected"
    and "ironwood_part pczt = Some c \<Longrightarrow> w \<in> set (ironwood_actions c) \<Longrightarrow>
      action_signing_path (inner_action w) = account_path 32 expected \<and>
      action_seed_fingerprint (inner_action w) = expected_fingerprint expected"
    and "i \<in> set (transparent_inputs pczt) \<Longrightarrow>
      take 3 (signing_path (input_derivation i)) = account_path 44 expected \<and>
      seed_fingerprint (input_derivation i) = expected_fingerprint expected"
  using assms
  by (auto simp: validate_pczt_account_def and_then_eq_Inr validate_each_Inr validate_shielded_Inr
      validate_transparent_Inr account_path_def in_set_conv_nth split: if_splits)

lemma validated_short: "validate_pczt_account pczt expected = Inr () \<Longrightarrow> short_paths pczt"
  using validated_paths [of pczt expected]
  by (auto simp: short_paths_def account_path_def split: option.splits)

section \<open>The plan\<close>

lemma packet_commands_Inr:
  "packet_commands c = Inr cs \<Longrightarrow> map command_data cs = packets c \<and>
     (\<forall>i < length cs. cla (cs ! i) = ZCASH_CLA \<and> ins (cs ! i) = instruction c \<and>
        p1 (cs ! i) = packet_p1 i (length cs) \<and> p2 (cs ! i) = packet_p2 i (length cs) (finishes_pczt c))"
  by (auto simp: packet_commands_def Let_def comp_def case_prod_beta nth_enumerate_eq split: if_splits)

lemma request_command_Inr:
  "request_command r = Inr c \<Longrightarrow> command_data c = []"
  by (auto simp: request_command_def Let_def split: signature_request.splits if_splits)

lemma build_signing_plan_Inr:
  assumes "build_signing_plan pczt transparent memo = Inr (cmds, requests)"
  obtains serialized parts tail_commands where
    "serialize_pczt pczt memo = Inr serialized"
    "map packet_commands serialized = map Inr parts"
    "requests = signature_requests pczt transparent"
    "map request_command requests = map Inr tail_commands"
    "cmds = concat parts @ tail_commands"
    "requests \<noteq> []"
  using assms
  by (auto simp: build_signing_plan_def Let_def and_then_eq_Inr collect_results_Inr split: if_splits)

lemma plan_stream:
  assumes "build_signing_plan pczt transparent memo = Inr (cmds, requests)"
  shows "\<exists>serialized. serialize_pczt pczt memo = Inr serialized \<and>
    concat (map command_data cmds) = pczt_stream serialized \<and>
    (\<forall>c \<in> set cmds. command_data c = [] \<or> (\<exists>s \<in> set serialized. command_data c \<in> set (packets s))) \<and>
    length requests \<le> length cmds"
proof (rule build_signing_plan_Inr [OF assms])
  fix serialized parts tail_commands
  assume ser: "serialize_pczt pczt memo = Inr serialized"
    and parts: "map packet_commands serialized = map Inr parts"
    and tails: "map request_command requests = map Inr tail_commands"
    and cmds: "cmds = concat parts @ tail_commands"
  have len: "length parts = length serialized" "length tail_commands = length requests"
    using parts tails by (metis length_map)+
  have part: "map command_data (parts ! i) = packets (serialized ! i)" if "i < length parts" for i
    using arg_cong [OF parts, of "\<lambda>xs. xs ! i"] that len packet_commands_Inr [of "serialized ! i" "parts ! i"] by simp
  have empty: "command_data c = []" if "c \<in> set tail_commands" for c
  proof -
    have "Inr c \<in> set (map request_command requests)" unfolding tails using that by simp
    then show ?thesis using request_command_Inr by auto
  qed
  have "map (map command_data) parts = map packets serialized"
    using part len by (intro nth_equalityI) simp_all
  then have datas: "map command_data (concat parts) = concat (map packets serialized)"
    by (simp add: map_concat)
  have "concat (map command_data tail_commands) = []" using empty by simp
  then have "concat (map command_data cmds) = concat (concat (map packets serialized))"
    by (simp add: cmds flip: datas)
  also have "\<dots> = pczt_stream serialized"
    by (induction serialized) (simp_all add: pczt_stream_def)
  finally have stream: "concat (map command_data cmds) = pczt_stream serialized" .
  have "command_data c = [] \<or> (\<exists>s \<in> set serialized. command_data c \<in> set (packets s))" if "c \<in> set cmds" for c
  proof (cases "c \<in> set tail_commands")
    case False
    then have "command_data c \<in> set (map command_data (concat parts))" using that cmds by auto
    then show ?thesis unfolding datas by auto
  qed (simp add: empty)
  then show ?thesis using ser stream cmds len by auto
qed

lemma plan_fits:
  assumes "build_signing_plan pczt transparent memo = Inr (cmds, requests)" "wf_pczt pczt"
    and "validate_pczt_account pczt expected = Inr ()"
  shows "\<forall>c \<in> set cmds. length (command_data c) \<le> 255"
proof -
  obtain serialized where s: "serialize_pczt pczt memo = Inr serialized"
    "\<forall>c \<in> set cmds. command_data c = [] \<or> (\<exists>s \<in> set serialized. command_data c \<in> set (packets s))"
    using plan_stream [OF assms(1)] by blast
  then show ?thesis
    using serialize_pczt_fits [OF s(1) assms(2) validated_short [OF assms(3)]] by (fastforce simp: fits_def)
qed

section \<open>Requests\<close>

lemma set_shielded_requests:
  "ShieldedRequest pool i code \<in> set (shielded_requests pool' code' actions) \<longleftrightarrow>
   pool = pool' \<and> code = code' \<and> i < length actions \<and> spend_value (actions ! i) \<noteq> 0"
  by (force simp: shielded_requests_def in_set_enumerate_eq)

lemma set_signature_requests:
  "TransparentRequest i \<in> set (signature_requests pczt transparent) \<longleftrightarrow>
     transparent \<and> i < length (transparent_inputs pczt)"
  "ShieldedRequest Orchard i code \<in> set (signature_requests pczt transparent) \<longleftrightarrow>
     code = 0x57 \<and> (\<exists>b. orchard_part pczt = Some b \<and> i < length (bundle_actions b) \<and>
       spend_value (bundle_actions b ! i) \<noteq> 0)"
  "ShieldedRequest Ironwood i code \<in> set (signature_requests pczt transparent) \<longleftrightarrow>
     code = 0x59 \<and> (\<exists>b. ironwood_part pczt = Some b \<and> i < length (ironwood_actions b) \<and>
       spend_value (inner_action (ironwood_actions b ! i)) \<noteq> 0)"
proof -
  have no: "TransparentRequest i \<notin> set (shielded_requests pool code actions)" for pool code actions
    by (auto simp: shielded_requests_def)
  show "TransparentRequest i \<in> set (signature_requests pczt transparent) \<longleftrightarrow>
     transparent \<and> i < length (transparent_inputs pczt)"
    using no by (auto simp: signature_requests_def split: option.splits)
  show "ShieldedRequest Orchard i code \<in> set (signature_requests pczt transparent) \<longleftrightarrow>
     code = 0x57 \<and> (\<exists>b. orchard_part pczt = Some b \<and> i < length (bundle_actions b) \<and>
       spend_value (bundle_actions b ! i) \<noteq> 0)"
    by (cases "orchard_part pczt"; cases "ironwood_part pczt")
      (auto simp: signature_requests_def set_shielded_requests)
  show "ShieldedRequest Ironwood i code \<in> set (signature_requests pczt transparent) \<longleftrightarrow>
     code = 0x59 \<and> (\<exists>b. ironwood_part pczt = Some b \<and> i < length (ironwood_actions b) \<and>
       spend_value (inner_action (ironwood_actions b ! i)) \<noteq> 0)"
    by (cases "orchard_part pczt"; cases "ironwood_part pczt")
      (auto simp: signature_requests_def set_shielded_requests)
qed

section \<open>Responses\<close>

text \<open>A payload that is a signature of the kind the request asks for.\<close>

definition payload_answers :: "signature_request \<Rightarrow> bytes \<Rightarrow> bool" where
  "payload_answers request payload \<longleftrightarrow> (case request of
      TransparentRequest i \<Rightarrow> 9 \<le> length payload \<and> length payload \<le> 73 \<and> payload ! 0 AND 0xfe = 0x30 \<and>
        unat (payload ! 1) + 3 = length payload
    | ShieldedRequest pool i code \<Rightarrow> length payload = 64 \<and> (\<exists>b \<in> set payload. b \<noteq> 0))"

text \<open>The signatures that stand in the payloads, each under the request it was given for.\<close>

definition answered :: "(signature_request \<times> bytes) list \<Rightarrow> signatures" where
  "answered session =
     (List.map_filter (\<lambda>(request, payload). case request of
          TransparentRequest i \<Rightarrow> Some \<lparr> der_signature = butlast payload, signature_sighash_type = last payload \<rparr>
        | ShieldedRequest pool i code \<Rightarrow> None) session,
      List.map_filter (\<lambda>(request, payload). case request of
          TransparentRequest i \<Rightarrow> None
        | ShieldedRequest pool i code \<Rightarrow>
            Some \<lparr> signature_pool = pool, signature_action_index = i, signature_bytes = payload \<rparr>) session)"

lemma decode_transparent_signature_Inr:
  "decode_transparent_signature i payload = Inr signature \<longleftrightarrow>
     payload_answers (TransparentRequest i) payload \<and>
     signature = \<lparr> der_signature = butlast payload, signature_sighash_type = last payload \<rparr>"
proof (cases "9 \<le> length payload")
  case True
  then have "butlast payload ! 0 = payload ! 0" "butlast payload ! 1 = payload ! 1"
    "unat (payload ! 1) + 2 = length (butlast payload) \<longleftrightarrow> unat (payload ! 1) + 3 = length payload"
    by (auto simp: nth_butlast)
  then show ?thesis
    unfolding decode_transparent_signature_def payload_answers_def Let_def by auto
qed (simp add: decode_transparent_signature_def payload_answers_def)

lemma decode_signatures_Inr:
  "try_fold decode_signature (ts, ss) session = Inr sigs \<longleftrightarrow>
     (\<forall>(request, payload) \<in> set session. payload_answers request payload) \<and>
     sigs = (ts @ fst (answered session), ss @ snd (answered session))"
proof (induction session arbitrary: ts ss)
  case Nil
  then show ?case by (auto simp: answered_def List.map_filter_simps)
next
  case (Cons entry session)
  obtain request payload where entry: "entry = (request, payload)" by (cases entry)
  show ?case
  proof (cases request)
    case (TransparentRequest i)
    then have "decode_signature (ts, ss) entry = map_sum id (\<lambda>s. (ts @ [s], ss)) (decode_transparent_signature i payload)"
      by (cases "decode_transparent_signature i payload") (simp_all add: decode_signature_def entry)
    then have "try_fold decode_signature (ts, ss) (entry # session) = Inr sigs \<longleftrightarrow>
        (\<exists>s. decode_transparent_signature i payload = Inr s \<and> try_fold decode_signature (ts @ [s], ss) session = Inr sigs)"
      by (cases "decode_transparent_signature i payload") simp_all
    then show ?thesis
      using TransparentRequest by (auto simp: Cons.IH decode_transparent_signature_Inr entry answered_def List.map_filter_simps)
  next
    case (ShieldedRequest pool i code)
    let ?s = "\<lparr> signature_pool = pool, signature_action_index = i, signature_bytes = payload \<rparr>"
    have "decode_signature (ts, ss) entry = Inr acc \<longleftrightarrow> payload_answers request payload \<and> acc = (ts, ss @ [?s])" for acc
      using ShieldedRequest by (auto simp: decode_signature_def entry payload_answers_def)
    then have "try_fold decode_signature (ts, ss) (entry # session) = Inr sigs \<longleftrightarrow>
        payload_answers request payload \<and> try_fold decode_signature (ts, ss @ [?s]) session = Inr sigs"
      by (auto simp: and_then_eq_Inr)
    then show ?thesis
      using ShieldedRequest by (auto simp: Cons.IH entry answered_def List.map_filter_simps)
  qed
qed

text \<open>What a response of the device carries.\<close>

lemma u16_be_ok: "u16_be a b = RESPONSE_OK \<longleftrightarrow> a = 0x90 \<and> b = 0"
proof
  assume "u16_be a b = RESPONSE_OK"
  then have "unat (u16_be a b) = 0x9000" by (simp add: RESPONSE_OK_def)
  then have sum: "256 * unat a + unat b = 0x9000" by (simp add: u16_be_eq)
  moreover have "unat b < 256" using unsigned_less [of b] by simp
  ultimately have "unat a = 0x90" "unat b = 0" by presburger+
  then show "a = 0x90 \<and> b = 0"
    by (auto intro: unsigned_word_eqI)
qed (simp add: u16_be_def RESPONSE_OK_def)

lemma decode_raw_response_Inr: "decode_raw_response response = Inr payload \<longleftrightarrow> response = payload @ [0x90, 0]"
proof (cases "length response < 2")
  case False
  then have "response \<noteq> []" "butlast response \<noteq> []" by (auto simp flip: length_0_conv)
  then obtain start a b where response: "response = start @ [a, b]"
    by (metis append_butlast_last_id append_assoc append_Cons append_Nil)
  have "decode_raw_response response = (if u16_be a b \<noteq> RESPONSE_OK then Inl (DeviceStatus (map_status_word (u16_be a b)))
      else Inr start)"
    by (simp add: response decode_raw_response_def Let_def nth_append)
  then show ?thesis by (auto simp: response u16_be_ok)
qed (auto simp: decode_raw_response_def)

lemma decode_responses_Inr:
  "length responses = n \<Longrightarrow> collect_results (map (decode_response n m) (enumerate 0 responses)) = Inr payloads \<longleftrightarrow>
     responses = map (\<lambda>payload. payload @ [0x90, 0]) payloads"
proof -
  assume n: "length responses = n"
  have "map (decode_response n m) (enumerate 0 responses) = map decode_raw_response responses"
    using n by (intro nth_equalityI) (simp_all add: decode_response_def nth_enumerate_eq)
  then have "collect_results (map (decode_response n m) (enumerate 0 responses)) = Inr payloads \<longleftrightarrow>
      map decode_raw_response responses = map Inr payloads"
    by (simp only: collect_results_Inr)
  also have "\<dots> \<longleftrightarrow> list_all2 (\<lambda>response payload. decode_raw_response response = Inr payload) responses payloads"
    by (auto simp: list_eq_iff_nth_eq list_all2_conv_all_nth)
  also have "\<dots> \<longleftrightarrow> list_all2 (=) responses (map (\<lambda>payload. payload @ [0x90, 0]) payloads)"
    by (simp only: decode_raw_response_Inr list.rel_map)
  also have "\<dots> \<longleftrightarrow> responses = map (\<lambda>payload. payload @ [0x90, 0]) payloads"
    by (simp only: list.rel_eq)
  finally show ?thesis .
qed

lemma no_packet_data:
  "find (\<lambda>(index, payload). payload \<noteq> []) (enumerate n xs) = None \<longleftrightarrow> xs = replicate (length xs) []"
  by (induction xs arbitrary: n) auto

lemma without_packet_data:
  "(case m of Some (index, payload) \<Rightarrow> Inl (f index) | None \<Rightarrow> r) = Inr x \<longleftrightarrow> m = None \<and> r = Inr x"
  by (auto split: option.split)

lemma decode_signing_responses_Inr:
  assumes "length stream + length requests = length cmds"
  shows "decode_signing_responses cmds requests responses = Inr sigs \<longleftrightarrow>
    (\<exists>payloads. length payloads = length requests \<and>
       responses = map (\<lambda>payload. payload @ [0x90, 0]) (replicate (length stream) [] @ payloads) \<and>
       (\<forall>(request, payload) \<in> set (zip requests payloads). payload_answers request payload) \<and>
       sigs = answered (zip requests payloads))" (is "?l \<longleftrightarrow> ?r")
proof (cases "length responses = length cmds")
  case True
  have packets: "length cmds - length requests = length stream" using assms by simp
  have "?l \<longleftrightarrow> (\<exists>all. responses = map (\<lambda>payload. payload @ [0x90, 0]) all \<and>
      take (length stream) all = replicate (length (take (length stream) all)) [] \<and>
      try_fold decode_signature ([], []) (zip requests (drop (length stream) all)) = Inr sigs)"
    using True
    by (simp add: decode_signing_responses_def Let_def and_then_eq_Inr packets without_packet_data
        no_packet_data decode_responses_Inr [OF True])
  also have "\<dots> \<longleftrightarrow> ?r"
  proof
    assume "\<exists>all. responses = map (\<lambda>payload. payload @ [0x90, 0]) all \<and>
      take (length stream) all = replicate (length (take (length stream) all)) [] \<and>
      try_fold decode_signature ([], []) (zip requests (drop (length stream) all)) = Inr sigs"
    then obtain all where all: "responses = map (\<lambda>payload. payload @ [0x90, 0]) all"
      "take (length stream) all = replicate (length (take (length stream) all)) []"
      "try_fold decode_signature ([], []) (zip requests (drop (length stream) all)) = Inr sigs" by blast
    have len: "length all = length cmds" using all(1) True by simp
    then have "all = replicate (length stream) [] @ drop (length stream) all"
      using all(2) assms by (metis append_take_drop_id le_add1 length_take min.absorb2)
    then show ?r
      using all(1,3) len assms by (intro exI [of _ "drop (length stream) all"]) (auto simp: decode_signatures_Inr)
  next
    assume ?r
    then obtain payloads where p: "length payloads = length requests"
      "responses = map (\<lambda>payload. payload @ [0x90, 0]) (replicate (length stream) [] @ payloads)"
      "\<forall>(request, payload) \<in> set (zip requests payloads). payload_answers request payload"
      "sigs = answered (zip requests payloads)" by blast
    then show "\<exists>all. responses = map (\<lambda>payload. payload @ [0x90, 0]) all \<and>
      take (length stream) all = replicate (length (take (length stream) all)) [] \<and>
      try_fold decode_signature ([], []) (zip requests (drop (length stream) all)) = Inr sigs"
      by (intro exI [of _ "replicate (length stream) [] @ payloads"]) (simp add: decode_signatures_Inr)
  qed
  finally show ?thesis .
next
  case False
  then have "\<not> ?l" by (auto simp: decode_signing_responses_def and_then_eq_Inr Let_def)
  moreover have "\<not> ?r" using False assms by auto
  ultimately show ?thesis by blast
qed

end
