(* ===== verification/LedgerOperation.thy ===== *)
theory LedgerOperation
  imports Prelude
begin

text \<open>
  The generation counters that serialise and cancel Ledger operations (\<open>OperationState\<close>,
  \<open>OperationContext::check\<close> and the cooldown in \<open>rust/src/wallet/ledger/mod.rs\<close>). First the
  operations as the code calls them, then their atomic steps: the mutex orders the operations among
  themselves, but \<open>cancel_active\<close> runs on another thread, a load and a later store. Last the machine
  of which the counters are a refinement while no two cancels overlap.
\<close>

section \<open>Operations\<close>

record operation_state =
  next_generation :: nat
  active_generation :: nat
  cancelled_generation :: nat

definition operation_state_new :: operation_state where
  "operation_state_new = \<lparr> next_generation = 0, active_generation = 0, cancelled_generation = 0 \<rparr>"

definition operation_begin :: "operation_state \<Rightarrow> unit failure + nat \<times> operation_state" where
  "operation_begin st =
     (let generation = (next_generation st + 1) mod 2 ^ 64;
          st' = st\<lparr>next_generation := generation\<rparr>
      in if generation = 0 then Inl Panic
         else Inr (generation, st'\<lparr>active_generation := generation\<rparr>))"

definition operation_finish :: "nat \<Rightarrow> operation_state \<Rightarrow> operation_state" where
  "operation_finish generation st =
     (if active_generation st = generation then st\<lparr>active_generation := 0\<rparr> else st)"

definition cancel_active :: "operation_state \<Rightarrow> operation_state" where
  "cancel_active st =
     (if active_generation st \<noteq> 0 then st\<lparr>cancelled_generation := active_generation st\<rparr> else st)"

definition is_cancelled :: "nat \<Rightarrow> operation_state \<Rightarrow> bool" where
  "is_cancelled generation st \<longleftrightarrow> cancelled_generation st = generation"

datatype operation_error = Cancelled | TimedOut

definition classify_operation_state :: "bool \<Rightarrow> bool \<Rightarrow> operation_error + unit" where
  "classify_operation_state cancelled timed_out =
     (if cancelled then Inl Cancelled else if timed_out then Inl TimedOut else Inr ())"

text \<open>A context is its generation and its deadline; times are natural numbers of a monotonic clock.\<close>

definition operation_check :: "nat \<Rightarrow> nat \<Rightarrow> nat \<Rightarrow> operation_state \<Rightarrow> operation_error + unit" where
  "operation_check generation deadline now st =
     classify_operation_state (is_cancelled generation st) (deadline \<le> now)"

definition signing_status_cooldown_remaining :: "nat option \<Rightarrow> nat \<Rightarrow> nat" where
  "signing_status_cooldown_remaining ready_at now = (case ready_at of None \<Rightarrow> 0 | Some ready \<Rightarrow> ready - now)"

section \<open>Atomic steps\<close>

datatype lock_phase = Unlocked | Incremented nat | Running nat

text \<open>
  \<open>pending_cancels\<close> are the generations a canceller has loaded and not yet stored; \<open>requested\<close>
  records for which generations a cancel was asked while they were active.
\<close>

record operation_world =
  counters :: operation_state
  lock :: lock_phase
  pending_cancels :: "nat list"
  requested :: "nat set"

definition world_new :: operation_world where
  "world_new = \<lparr> counters = operation_state_new, lock = Unlocked, pending_cancels = [], requested = {} \<rparr>"

inductive operation_step :: "operation_world \<Rightarrow> operation_world \<Rightarrow> bool" where
  step_increment:
    "lock w = Unlocked \<Longrightarrow> g = next_generation (counters w) + 1 \<Longrightarrow> g < 2 ^ 64 \<Longrightarrow>
     operation_step w (w\<lparr>counters := (counters w)\<lparr>next_generation := g\<rparr>, lock := Incremented g\<rparr>)"
| step_activate:
    "lock w = Incremented g \<Longrightarrow>
     operation_step w (w\<lparr>counters := (counters w)\<lparr>active_generation := g\<rparr>, lock := Running g\<rparr>)"
| step_finish:
    "lock w = Running g \<Longrightarrow>
     operation_step w (w\<lparr>counters := operation_finish g (counters w), lock := Unlocked\<rparr>)"
| step_cancel_load:
    "g = active_generation (counters w) \<Longrightarrow> g \<noteq> 0 \<Longrightarrow>
     operation_step w (w\<lparr>pending_cancels := g # pending_cancels w, requested := insert g (requested w)\<rparr>)"
| step_cancel_store:
    "g \<in> set (pending_cancels w) \<Longrightarrow>
     operation_step w (w\<lparr>counters := (counters w)\<lparr>cancelled_generation := g\<rparr>,
                         pending_cancels := remove1 g (pending_cancels w)\<rparr>)"

inductive operation_reachable :: "operation_world \<Rightarrow> bool" where
  reachable_new: "operation_reachable world_new"
| reachable_step: "operation_reachable w \<Longrightarrow> operation_step w w' \<Longrightarrow> operation_reachable w'"

inductive_cases operation_stepE: "operation_step w w'"

section \<open>The invariant\<close>

definition operation_inv :: "operation_world \<Rightarrow> bool" where
  "operation_inv w \<longleftrightarrow>
     (case lock w of
        Unlocked \<Rightarrow> active_generation (counters w) = 0
      | Incremented g \<Rightarrow> active_generation (counters w) = 0 \<and> g = next_generation (counters w) \<and> 0 < g
          \<and> g \<notin> requested w
      | Running g \<Rightarrow> active_generation (counters w) = g \<and> g = next_generation (counters w) \<and> 0 < g) \<and>
     (\<forall>g \<in> requested w. 0 < g \<and> g \<le> next_generation (counters w)) \<and>
     set (pending_cancels w) \<subseteq> requested w \<and>
     (cancelled_generation (counters w) = 0 \<or> cancelled_generation (counters w) \<in> requested w)"

lemma operation_inv_new: "operation_inv world_new"
  by (simp add: operation_inv_def world_new_def operation_state_new_def)

lemma operation_inv_step: "operation_step w w' \<Longrightarrow> operation_inv w \<Longrightarrow> operation_inv w'"
proof (induction rule: operation_step.induct)
  case (step_increment w g)
  then have "g \<notin> requested w" by (force simp: operation_inv_def)
  then show ?case using step_increment by (fastforce simp: operation_inv_def)
next
  case (step_activate w g)
  then show ?case by (simp add: operation_inv_def)
next
  case (step_finish w g)
  then show ?case by (auto simp: operation_inv_def operation_finish_def)
next
  case (step_cancel_load g w)
  then show ?case by (auto simp: operation_inv_def split: lock_phase.splits)
next
  case (step_cancel_store g w)
  then show ?case
    using set_remove1_subset [of g "pending_cancels w"]
    by (auto simp: operation_inv_def split: lock_phase.splits)
qed

lemma operation_reachable_inv: "operation_reachable w \<Longrightarrow> operation_inv w"
  by (induction rule: operation_reachable.induct) (auto intro: operation_inv_new operation_inv_step)

lemma cancelled_was_requested:
  assumes "operation_reachable w" "0 < g" "is_cancelled g (counters w)"
  shows "g \<in> requested w"
  using operation_reachable_inv [OF assms(1)] assms(2,3) by (auto simp: operation_inv_def is_cancelled_def)

lemma fresh_operation_not_cancelled:
  assumes "operation_reachable w" "lock w = Incremented g"
  shows "\<not> is_cancelled g (counters w)" "g \<notin> set (pending_cancels w)"
  using operation_reachable_inv [OF assms(1)] assms(2) by (auto simp: operation_inv_def is_cancelled_def)

section \<open>A cancel overtaken by an older one\<close>

definition lost_cancel_world :: operation_world where
  "lost_cancel_world =
     \<lparr> counters = \<lparr> next_generation = 2, active_generation = 2, cancelled_generation = 1 \<rparr>,
       lock = Running 2, pending_cancels = [], requested = {1, 2} \<rparr>"

text \<open>Load of the first canceller, end of operation 1, start of operation 2, a full cancel, then the store.\<close>

lemma lost_cancel_reachable: "operation_reachable lost_cancel_world"
proof -
  let ?w = "\<lambda>n a c l ps rs. \<lparr> counters = \<lparr> next_generation = n, active_generation = a, cancelled_generation = c \<rparr>,
       lock = l, pending_cancels = ps, requested = rs \<rparr>"
  have "operation_reachable (?w 0 0 0 Unlocked [] {})"
    using reachable_new by (simp add: world_new_def operation_state_new_def)
  from reachable_step [OF this step_increment [of _ 1]]
  have "operation_reachable (?w 1 0 0 (Incremented 1) [] {})" by simp
  from reachable_step [OF this step_activate [of _ 1]]
  have "operation_reachable (?w 1 1 0 (Running 1) [] {})" by simp
  from reachable_step [OF this step_cancel_load [of 1]]
  have "operation_reachable (?w 1 1 0 (Running 1) [1] {1})" by simp
  from reachable_step [OF this step_finish [of _ 1]]
  have "operation_reachable (?w 1 0 0 Unlocked [1] {1})" by (simp add: operation_finish_def)
  from reachable_step [OF this step_increment [of _ 2]]
  have "operation_reachable (?w 2 0 0 (Incremented 2) [1] {1})" by simp
  from reachable_step [OF this step_activate [of _ 2]]
  have "operation_reachable (?w 2 2 0 (Running 2) [1] {1})" by simp
  from reachable_step [OF this step_cancel_load [of 2]]
  have "operation_reachable (?w 2 2 0 (Running 2) [2, 1] {2, 1})" by simp
  from reachable_step [OF this step_cancel_store [of 2]]
  have "operation_reachable (?w 2 2 2 (Running 2) [1] {2, 1})" by simp
  from reachable_step [OF this step_cancel_store [of 1]]
  have "operation_reachable (?w 2 2 1 (Running 2) [] {2, 1})" by simp
  then show ?thesis by (simp add: lost_cancel_world_def insert_commute)
qed

section \<open>The specification: one operation at a time\<close>

text \<open>
  What the counters are for, without the counters: operations are numbered in the order they begin, at
  most one is current, and stopping it lasts until it ends.
\<close>

record session =
  issued :: nat
  current :: "nat option"
  stopped :: bool

definition session_new :: session where
  "session_new = \<lparr> issued = 0, current = None, stopped = False \<rparr>"

inductive session_step :: "session \<Rightarrow> session \<Rightarrow> bool" where
  session_begin:
    "current s = None \<Longrightarrow> g = issued s + 1 \<Longrightarrow> g < 2 ^ 64 \<Longrightarrow>
     session_step s \<lparr> issued = g, current = Some g, stopped = False \<rparr>"
| session_stop: "current s = Some g \<Longrightarrow> session_step s (s\<lparr>stopped := True\<rparr>)"
| session_end: "current s = Some g \<Longrightarrow> session_step s (s\<lparr>current := None, stopped := False\<rparr>)"

text \<open>The session that the counters stand for; a generation counts once it is active.\<close>

definition session_of :: "operation_world \<Rightarrow> session" where
  "session_of w =
     (let active = active_generation (counters w) in
      \<lparr> issued = (case lock w of Incremented g \<Rightarrow> next_generation (counters w) - 1 | _ \<Rightarrow> next_generation (counters w)),
        current = (if active = 0 then None else Some active),
        stopped = (active \<noteq> 0 \<and> is_cancelled active (counters w)) \<rparr>)"

text \<open>The worlds in which a canceller loads only when no other has a store under way.\<close>

inductive serial_reachable :: "operation_world \<Rightarrow> bool" where
  serial_new: "serial_reachable world_new"
| serial_step: "serial_reachable w \<Longrightarrow> operation_step w w' \<Longrightarrow> length (pending_cancels w') \<le> 1 \<Longrightarrow> serial_reachable w'"

definition serial_inv :: "operation_world \<Rightarrow> bool" where
  "serial_inv w \<longleftrightarrow>
     operation_inv w \<and> next_generation (counters w) < 2 ^ 64 \<and> length (pending_cancels w) \<le> 1 \<and>
     (\<forall>g. lock w = Running g \<longrightarrow>
        (g \<in> requested w \<longrightarrow> g \<in> set (pending_cancels w) \<or> is_cancelled g (counters w)) \<and>
        (\<forall>h \<in> set (pending_cancels w). h \<noteq> g \<longrightarrow> g \<notin> requested w))"

lemma serial_inv_step:
  assumes "operation_step w w'" "serial_inv w" "length (pending_cancels w') \<le> 1"
  shows "serial_inv w'"
proof -
  have inv: "operation_inv w" "operation_inv w'"
    using assms(1,2) operation_inv_step by (simp_all add: serial_inv_def)
  from assms(1) show ?thesis
  proof (cases rule: operation_step.cases)
    case (step_increment g)
    then show ?thesis using assms(2,3) inv(2) by (simp add: serial_inv_def)
  next
    case (step_activate g)
    then have "g \<notin> requested w" using inv(1) by (auto simp: operation_inv_def)
    then show ?thesis using step_activate assms(2,3) inv(2) by (simp add: serial_inv_def)
  next
    case (step_finish g)
    then show ?thesis using assms(2,3) inv(2) by (simp add: serial_inv_def operation_finish_def)
  next
    case (step_cancel_load g)
    then have "pending_cancels w = []" using assms(3) by simp
    moreover have "h = g" if "lock w = Running h" for h
      using inv(1) that step_cancel_load(2) by (simp add: operation_inv_def)
    ultimately show ?thesis using step_cancel_load assms(2,3) inv(2) by (auto simp: serial_inv_def)
  next
    case (step_cancel_store g)
    then have one: "pending_cancels w = [g]"
      using assms(2) by (cases "pending_cancels w") (auto simp: serial_inv_def)
    then show ?thesis using step_cancel_store assms(2,3) inv(2) by (auto simp: serial_inv_def is_cancelled_def)
  qed
qed

lemma serial_reachable_inv: "serial_reachable w \<Longrightarrow> serial_inv w"
proof (induction rule: serial_reachable.induct)
  case serial_new
  then show ?case by (simp add: serial_inv_def operation_inv_new) (simp add: world_new_def operation_state_new_def)
qed (rule serial_inv_step)

text \<open>Every step is a step of the session or leaves it as it is.\<close>

lemma session_simulation:
  assumes w: "serial_inv w" and step: "operation_step w w'"
  shows "session_of w' = session_of w \<or> session_step (session_of w) (session_of w')"
proof -
  note inv = w [unfolded serial_inv_def, THEN conjunct1]
  from step show ?thesis
  proof (cases rule: operation_step.cases)
    case (step_increment g)
    then show ?thesis using inv by (simp add: Let_def session_of_def operation_inv_def is_cancelled_def)
  next
    case (step_activate g)
    then have g: "g = next_generation (counters w)" "0 < g" "active_generation (counters w) = 0" "\<not> is_cancelled g (counters w)"
      using inv by (auto simp: operation_inv_def is_cancelled_def)
    then have "session_of w = \<lparr> issued = g - 1, current = None, stopped = False \<rparr>"
      "session_of w' = \<lparr> issued = g, current = Some g, stopped = False \<rparr>"
      using step_activate by (simp_all add: Let_def session_of_def is_cancelled_def)
    then show ?thesis using session_begin [of "session_of w" g] g w by (simp add: serial_inv_def)
  next
    case (step_finish g)
    then have g: "active_generation (counters w) = g" "0 < g" using inv by (simp_all add: operation_inv_def)
    then have "session_of w' = (session_of w)\<lparr>current := None, stopped := False\<rparr>"
      using step_finish by (simp add: Let_def session_of_def operation_finish_def)
    moreover have "current (session_of w) = Some g" using g by (simp add: Let_def session_of_def)
    ultimately show ?thesis using session_end [of "session_of w" g] by simp
  next
    case (step_cancel_load g)
    then show ?thesis by (cases "lock w") (simp_all add: Let_def session_of_def)
  next
    case (step_cancel_store g)
    show ?thesis
    proof (cases "active_generation (counters w) = g")
      case True
      have "0 < g" using inv step_cancel_store(2) by (auto simp: operation_inv_def)
      then have "session_of w' = (session_of w)\<lparr>stopped := True\<rparr>" "current (session_of w) = Some g"
        using step_cancel_store True by (cases "lock w"; simp add: Let_def session_of_def is_cancelled_def)+
      then show ?thesis using session_stop [of "session_of w" g] by simp
    next
      case other: False
      have "\<not> is_cancelled a (counters w)" if a: "a = active_generation (counters w)" "a \<noteq> 0" for a
      proof -
        have "lock w = Running a" using inv a by (auto simp: operation_inv_def split: lock_phase.splits)
        then have "a \<notin> requested w" using w step_cancel_store(2) other a(1) by (auto simp: serial_inv_def)
        then show ?thesis using inv a(2) by (auto simp: operation_inv_def is_cancelled_def)
      qed
      then show ?thesis using step_cancel_store other by (cases "lock w") (auto simp: Let_def session_of_def is_cancelled_def)
    qed
  qed
qed

lemma serial_session: "serial_reachable w \<Longrightarrow> session_step\<^sup>*\<^sup>* session_new (session_of w)"
proof (induction rule: serial_reachable.induct)
  case serial_new
  have "session_of world_new = session_new"
    by (simp add: Let_def session_of_def session_new_def world_new_def operation_state_new_def)
  then show ?case by simp
next
  case (serial_step w w')
  then show ?case
    using session_simulation [OF serial_reachable_inv [OF serial_step(1)] serial_step(2)]
    by (auto intro: rtranclp.rtrancl_into_rtrancl)
qed

lemma serial_phases:
  assumes "serial_reachable w"
  shows "current (session_of w) = (case lock w of Running g \<Rightarrow> Some g | _ \<Rightarrow> None)"
  using serial_reachable_inv [OF assms]
  by (auto simp: serial_inv_def operation_inv_def session_of_def split: lock_phase.splits)

lemma serial_cancel_kept:
  assumes "serial_reachable w" "lock w = Running g" "g \<in> requested w" "g \<notin> set (pending_cancels w)"
  shows "is_cancelled g (counters w)"
  using serial_reachable_inv [OF assms(1)] assms(2-4) by (auto simp: serial_inv_def)

definition stopped_world :: operation_world where
  "stopped_world =
     \<lparr> counters = \<lparr> next_generation = 1, active_generation = 1, cancelled_generation = 1 \<rparr>,
       lock = Running 1, pending_cancels = [], requested = {1} \<rparr>"

lemma stopped_world_reachable: "serial_reachable stopped_world"
proof -
  let ?w = "\<lambda>n a c l ps rs. \<lparr> counters = \<lparr> next_generation = n, active_generation = a, cancelled_generation = c \<rparr>,
       lock = l, pending_cancels = ps, requested = rs \<rparr>"
  have "serial_reachable (?w 0 0 0 Unlocked [] {})"
    using serial_new by (simp add: world_new_def operation_state_new_def)
  from serial_step [OF this step_increment [of _ 1]]
  have "serial_reachable (?w 1 0 0 (Incremented 1) [] {})" by simp
  from serial_step [OF this step_activate [of _ 1]]
  have "serial_reachable (?w 1 1 0 (Running 1) [] {})" by simp
  from serial_step [OF this step_cancel_load [of 1]]
  have "serial_reachable (?w 1 1 0 (Running 1) [1] {1})" by simp
  from serial_step [OF this step_cancel_store [of 1]]
  show ?thesis by (simp add: stopped_world_def)
qed

text \<open>Run without interruption, the operations themselves are steps of the session.\<close>

lemma begin_session:
  assumes w: "serial_reachable w" "lock w = Unlocked" and run: "operation_begin (counters w) = Inr (g, st)"
  shows "session_step (session_of w) (session_of (w\<lparr>counters := st, lock := Running g\<rparr>))"
proof -
  note inv = serial_reachable_inv [OF w(1), unfolded serial_inv_def operation_inv_def w(2) lock_phase.case]
  have g: "g = next_generation (counters w) + 1" "g < 2 ^ 64"
    and st: "st = (counters w)\<lparr>next_generation := g, active_generation := g\<rparr>"
    using run inv by (auto simp: operation_begin_def Let_def mod_if split: if_splits)
  have "cancelled_generation (counters w) \<le> next_generation (counters w)" using inv by auto
  then have after: "session_of (w\<lparr>counters := st, lock := Running g\<rparr>) = \<lparr> issued = g, current = Some g, stopped = False \<rparr>"
    using g(1) by (simp add: Let_def session_of_def is_cancelled_def st)
  have "current (session_of w) = None" "g = issued (session_of w) + 1"
    using inv g(1) w(2) by (simp_all add: Let_def session_of_def)
  then show ?thesis unfolding after using g(2) by (rule session_begin)
qed

lemma finish_session:
  assumes "serial_reachable w" "lock w = Running g"
  shows "session_step (session_of w) (session_of (w\<lparr>counters := operation_finish g (counters w), lock := Unlocked\<rparr>))"
proof -
  have g: "active_generation (counters w) = g" "0 < g"
    using serial_reachable_inv [OF assms(1)] assms(2) by (simp_all add: serial_inv_def operation_inv_def)
  have "session_of (w\<lparr>counters := operation_finish g (counters w), lock := Unlocked\<rparr>) =
      (session_of w)\<lparr>current := None, stopped := False\<rparr>"
    using g assms(2) by (simp add: Let_def session_of_def operation_finish_def)
  moreover have "current (session_of w) = Some g" using g by (simp add: Let_def session_of_def)
  ultimately show ?thesis using session_end [of "session_of w" g] by simp
qed

lemma cancel_session:
  "session_of (w\<lparr>counters := cancel_active (counters w)\<rparr>) = (session_of w)\<lparr>stopped := current (session_of w) \<noteq> None\<rparr>"
  by (cases "lock w") (simp_all add: Let_def session_of_def cancel_active_def is_cancelled_def)

end
