(* ===== verification/LedgerProperties.thy ===== *)
theory LedgerProperties
  imports LedgerPlanCorrect LedgerOperation "HOL-Library.Code_Target_Nat"
begin

text \<open>
  The properties of the exchange with the Ledger device, each with a concrete instance: a version 6
  PCZT that spends a transparent coin and an Orchard note and pays an Ironwood note.
\<close>

definition example_account :: expected_account where
  "example_account = \<lparr> expected_account_index = 0, expected_coin_type = 133, expected_fingerprint = replicate 32 7 \<rparr>"

definition example_action :: "64 word \<Rightarrow> shielded_action" where
  "example_action v = \<lparr> cv_net = replicate 32 1, nullifier = replicate 32 2, rk = replicate 32 3,
     spend_recipient = replicate 43 4, spend_value = v, spend_rho = replicate 32 5, spend_rseed = replicate 32 6,
     alpha = replicate 32 8, action_signing_path = [0x80000020, 0x80000085, 0x80000000],
     action_seed_fingerprint = replicate 32 7, cmx = replicate 32 9, ephemeral_key = replicate 32 10,
     enc_ciphertext = [11, 12, 13], out_ciphertext = [14], recipient = replicate 43 15, action_value = 500,
     rseed = replicate 32 16, rcv = replicate 32 17 \<rparr>"

definition example_pczt :: parsed_pczt where
  "example_pczt = \<lparr>
     global = \<lparr> tx_version = 6, version_group_id = 1, consensus_branch_id = 2, fallback_lock_time = None,
                expiry_height = 300, coin_type = 133, tx_modifiable = 0 \<rparr>,
     transparent_inputs = [\<lparr> prevout_txid = replicate 32 20, prevout_index = 1, sequence = Some 5, input_value = 700,
        input_script_pubkey = [21, 22], sighash_type = 1,
        input_derivation = \<lparr> signing_path = [0x8000002c, 0x80000085, 0x80000000, 0, 3],
          pubkey = replicate 33 2, seed_fingerprint = replicate 32 7 \<rparr> \<rparr>],
     transparent_outputs = [],
     orchard_part = Some \<lparr> bundle_actions = [example_action 900, example_action 0], bundle_flags = 3,
        bundle_value_balance = -5, bundle_anchor = replicate 32 23 \<rparr>,
     ironwood_part = Some \<lparr> ironwood_actions = [\<lparr> inner_action = example_action 0, note_plaintext_version = 2 \<rparr>],
        ironwood_flags = 1, ironwood_value_balance = 5, ironwood_anchor = replicate 32 24 \<rparr>,
     memo_reaches_hash_path = False \<rparr>"

definition example_commands :: "command_packets list" where
  "example_commands = projr (serialize_pczt example_pczt True)"

definition example_session :: "apdu_command list \<times> signature_request list" where
  "example_session = projr (build_signing_plan example_pczt True True)"

lemma not_isl_Inr: "\<not> isl r \<Longrightarrow> r = Inr (projr r)"
  by (cases r) simp_all

lemma example_serialized: "serialize_pczt example_pczt True = Inr example_commands"
proof -
  have "\<not> isl (serialize_pczt example_pczt True)" by code_simp
  then show ?thesis unfolding example_commands_def by (rule not_isl_Inr)
qed

lemma example_session_planned: "build_signing_plan example_pczt True True = Inr (fst example_session, snd example_session)"
proof -
  have "\<not> isl (build_signing_plan example_pczt True True)" by code_simp
  then show ?thesis unfolding example_session_def by (simp add: not_isl_Inr [symmetric])
qed

lemma example_wf: "wf_pczt example_pczt" "sized_pczt example_pczt"
  by (simp_all add: wf_pczt_def sized_pczt_def example_pczt_def wf_derivation_def wf_action_def sized_action_def
      example_action_def)

lemma example_validated: "validate_pczt_account example_pczt example_account = Inr ()"
  by code_simp

section \<open>The wire format\<close>

text \<open>
  C28: Serializing a PCZT for the device loses nothing: a reader of the format gets every field back
  from the bytes sent, whatever is sent after them.
\<close>

theorem pczt_stream_roundtrip:
  assumes "serialize_pczt p memo = Inr commands" "wf_pczt p" "sized_pczt p"
  shows "read_pczt (pczt_stream commands @ rest) = Some (pczt_view p, rest)"
  using reads_pczt [OF assms] by (simp add: reads_def)

theorem pczt_stream_roundtrip_witness:
  "read_pczt (pczt_stream example_commands) = Some (pczt_view example_pczt, [])"
  using pczt_stream_roundtrip [OF example_serialized example_wf, of "[]"] by simp

text \<open>
  C29: Every packet fits one APDU: after the account check, no command of a signing plan carries more
  than 255 bytes, for any number of inputs and actions and any length of scripts and ciphertexts.
\<close>

theorem planned_packets_fit:
  assumes "build_signing_plan pczt transparent memo = Inr (cmds, requests)" "wf_pczt pczt"
    and "validate_pczt_account pczt expected = Inr ()"
  shows "\<forall>c \<in> set cmds. length (command_data c) \<le> MAX_PACKET_SIZE"
  using plan_fits [OF assms] by (simp add: MAX_PACKET_SIZE_def)

theorem planned_packets_fit_witness:
  "list_all (\<lambda>c. length (command_data c) \<le> MAX_PACKET_SIZE) (fst example_session)"
  unfolding list_all_iff by (rule planned_packets_fit [OF example_session_planned example_wf(1) example_validated])

section \<open>Statuses, keys and memos\<close>

text \<open>
  The status word survives the error text: whatever status the device returns, the message made
  of it gives the word back, also behind a prefix another layer has put before it.
\<close>

theorem status_word_survives:
  assumes "CHR ''_'' \<notin> set message"
  shows "ledger_status_word (message @ map_status_word status) = Some status"
  by (rule status_word_roundtrip [OF assms])

theorem status_word_survives_witness:
  "ledger_status_word (''Signing failed: '' @ map_status_word 0x6985) = Some 0x6985"
  by (rule status_word_survives) simp

text \<open>
  C30: The viewing key is reassembled exactly: the chunks are accepted if and only if the first one
  holds the length, none of the later ones is empty, and together they are the two length bytes
  followed by a valid UTF-8 key of that length and at most 8190 bytes, which is then the result.
\<close>

theorem ufvk_chunks_accepted_iff:
  "decode_ufvk_chunks parts = Inr key \<longleftrightarrow>
     parts \<noteq> [] \<and> 2 \<le> length (hd parts) \<and> (\<forall>c \<in> set (tl parts). c \<noteq> []) \<and>
     (\<exists>a b. concat parts = a # b # key \<and> 256 * unat a + unat b = length key) \<and>
     utf8_valid key \<and> length key \<le> 8190"
  using decode_ufvk_chunks_sound [of parts key] decode_ufvk_chunks_shape [of parts key]
    decode_ufvk_chunks_complete [of parts key]
  by (auto simp: ufvk_stream_def u16_be_eq)

theorem ufvk_chunks_accepted_iff_witness:
  "decode_ufvk_chunks [[0, 3, 0x75], [0x76, 0x69]] = Inr [0x75, 0x76, 0x69]"
  by (subst ufvk_chunks_accepted_iff) simp

text \<open>
  A memo takes the path on which the device only shows a hash exactly when it is neither the
  empty memo \<open>0xf6\<close> of the standard nor, without its trailing zeros, printable ASCII.
\<close>

theorem memo_hash_path_iff:
  assumes "memo \<noteq> []"
  shows "memo_reaches_ledger_hash_path memo \<longleftrightarrow>
    \<not> (hd memo = 0xf6 \<and> (\<forall>b \<in> set (tl memo). b = 0)) \<and>
    \<not> (\<forall>b \<in> set (memo_text memo). 0x20 \<le> b \<and> b \<le> 0x7e)"
  using memo_hash_iff [OF assms] by blast

theorem memo_hash_path_iff_witness:
  "memo_reaches_ledger_hash_path [0x48, 0x0a, 0x69, 0, 0] \<and> \<not> memo_reaches_ledger_hash_path [0xf6, 0, 0]"
proof -
  have "memo_text [0x48, 0x0a, 0x69, 0, 0] = [0x48, 0x0a, 0x69]" by code_simp
  then show ?thesis
    using memo_hash_path_iff [of "[0x48, 0x0a, 0x69, 0, 0]"] memo_hash_path_iff [of "[0xf6, 0, 0]"] by simp
qed

section \<open>Signing\<close>

lemma distinct_signature_requests: "distinct (signature_requests pczt transparent)"
proof -
  have shielded: "distinct (shielded_requests pool code actions)" for pool code actions
  proof -
    have "distinct (map fst (filter (\<lambda>(index, action). spend_value action \<noteq> 0) (enumerate 0 actions)))"
      by (rule distinct_map_filter) simp
    then have "distinct (map (\<lambda>i. ShieldedRequest pool i code)
        (map fst (filter (\<lambda>(index, action). spend_value action \<noteq> 0) (enumerate 0 actions))))"
      by (simp only: distinct_map inj_on_def signature_request.inject) simp
    moreover have "map (\<lambda>i. ShieldedRequest pool i code)
        (map fst (filter (\<lambda>(index, action). spend_value action \<noteq> 0) (enumerate 0 actions)))
      = shielded_requests pool code actions"
      by (simp add: shielded_requests_def case_prod_beta)
    ultimately show ?thesis by simp
  qed
  then show ?thesis
    by (auto simp: signature_requests_def distinct_map inj_on_def shielded_requests_def split: option.splits)
qed

text \<open>
  C31: The device signs what the transaction spends, and nothing twice: a signing plan streams exactly
  the serialized PCZT, and asks once for a signature of every transparent input, when these are
  included, and of every Orchard and Ironwood action that spends a note of value.
\<close>

theorem plan_requests_real_spends:
  assumes "build_signing_plan pczt transparent memo = Inr (cmds, requests)"
  shows "(\<exists>serialized. serialize_pczt pczt memo = Inr serialized \<and> concat (map command_data cmds) = pczt_stream serialized) \<and>
    requests \<noteq> [] \<and> distinct requests \<and>
    set requests =
      {TransparentRequest i |i. transparent \<and> i < length (transparent_inputs pczt)} \<union>
      {ShieldedRequest Orchard i 0x57 |i. \<exists>b. orchard_part pczt = Some b \<and> i < length (bundle_actions b) \<and>
         spend_value (bundle_actions b ! i) \<noteq> 0} \<union>
      {ShieldedRequest Ironwood i 0x59 |i. \<exists>b. ironwood_part pczt = Some b \<and> i < length (ironwood_actions b) \<and>
         spend_value (inner_action (ironwood_actions b ! i)) \<noteq> 0}"
proof (rule build_signing_plan_Inr [OF assms])
  fix serialized parts tail_commands
  assume "requests = signature_requests pczt transparent" "requests \<noteq> []"
  moreover have "r \<in> set (signature_requests pczt transparent) \<longleftrightarrow> r \<in>
      {TransparentRequest i |i. transparent \<and> i < length (transparent_inputs pczt)} \<union>
      {ShieldedRequest Orchard i 0x57 |i. \<exists>b. orchard_part pczt = Some b \<and> i < length (bundle_actions b) \<and>
         spend_value (bundle_actions b ! i) \<noteq> 0} \<union>
      {ShieldedRequest Ironwood i 0x59 |i. \<exists>b. ironwood_part pczt = Some b \<and> i < length (ironwood_actions b) \<and>
         spend_value (inner_action (ironwood_actions b ! i)) \<noteq> 0}" for r
  proof (cases r)
    case (ShieldedRequest pool i code)
    then show ?thesis by (cases pool) (simp_all add: set_signature_requests conj_commute)
  qed (simp add: set_signature_requests)
  ultimately show ?thesis
    using plan_stream [OF assms] distinct_signature_requests [of pczt transparent] by blast
qed

theorem plan_requests_real_spends_witness:
  "distinct (snd example_session) \<and>
   set (snd example_session) = {TransparentRequest 0, ShieldedRequest Orchard 0 0x57}"
proof -
  have "{ShieldedRequest Orchard i 0x57 |i. \<exists>b. orchard_part example_pczt = Some b \<and> i < length (bundle_actions b) \<and>
         spend_value (bundle_actions b ! i) \<noteq> 0} = {ShieldedRequest Orchard 0 0x57}"
    by (auto simp: example_pczt_def example_action_def less_Suc_eq)
  moreover have "{ShieldedRequest Ironwood i 0x59 |i. \<exists>b. ironwood_part example_pczt = Some b \<and>
      i < length (ironwood_actions b) \<and> spend_value (inner_action (ironwood_actions b ! i)) \<noteq> 0} = {}"
    by (auto simp: example_pczt_def example_action_def)
  moreover have "{TransparentRequest i |i. True \<and> i < length (transparent_inputs example_pczt)} = {TransparentRequest 0}"
    by (auto simp: example_pczt_def)
  ultimately show ?thesis
    using plan_requests_real_spends [OF example_session_planned] by (simp only: Un_empty_right) blast
qed

text \<open>
  C32: A session is accepted exactly when the device answered every packet with an empty payload and every
  signature request with a signature of the kind asked for, and its result is these signatures: the
  last commands ask for the requests in order, and the payload of the answer to each of them, whole and
  unchanged, is the signature recorded under that request. Every other session is an error.
\<close>

theorem responses_answer_requests:
  assumes "build_signing_plan pczt transparent memo = Inr (cmds, requests)"
  shows "\<exists>stream request_commands. cmds = stream @ request_commands \<and>
    map request_command requests = map Inr request_commands \<and>
    (\<forall>responses sigs. decode_signing_responses cmds requests responses = Inr sigs \<longleftrightarrow>
      (\<exists>payloads. length payloads = length requests \<and>
        responses = map (\<lambda>payload. payload @ [0x90, 0]) (replicate (length stream) [] @ payloads) \<and>
        (\<forall>(request, payload) \<in> set (zip requests payloads). payload_answers request payload) \<and>
        sigs = answered (zip requests payloads)))"
proof (rule build_signing_plan_Inr [OF assms])
  fix serialized parts tail_commands
  assume tails: "map request_command requests = map Inr tail_commands" and cmds: "cmds = concat parts @ tail_commands"
  then have "length (concat parts) + length requests = length cmds" by (metis length_append length_map)
  then show ?thesis
    using tails cmds decode_signing_responses_Inr [of "concat parts" requests cmds] by blast
qed

definition example_responses :: "bytes list" where
  "example_responses =
     replicate (length (fst example_session) - 2) [0x90, 0] @
     [[0x30, 7, 2, 1, 5, 2, 2, 6, 7, 1, 0x90, 0], replicate 64 9 @ [0x90, 0]]"

definition example_signatures :: signatures where
  "example_signatures =
     ([\<lparr> der_signature = [0x30, 7, 2, 1, 5, 2, 2, 6, 7], signature_sighash_type = 1 \<rparr>],
      [\<lparr> signature_pool = Orchard, signature_action_index = 0, signature_bytes = replicate 64 9 \<rparr>])"

theorem responses_answer_requests_witness:
  "decode_signing_responses (fst example_session) (snd example_session) example_responses = Inr example_signatures \<and>
   (\<exists>payloads. length payloads = length (snd example_session) \<and>
      example_signatures = answered (zip (snd example_session) payloads))"
proof -
  have accepted: "decode_signing_responses (fst example_session) (snd example_session) example_responses = Inr example_signatures"
    by code_simp
  then show ?thesis using responses_answer_requests [OF example_session_planned] by blast
qed

section \<open>Operations\<close>

text \<open>
  C33: An operation is cancelled only on request: in every reachable state of the counters, whatever
  the interleaving of operations and cancelling threads, a cancelled generation is one for which a
  cancel was asked while it was active; so an operation that just begins is never cancelled.
\<close>

theorem cancelled_only_on_request:
  assumes "operation_reachable w"
  shows "(\<forall>g > 0. is_cancelled g (counters w) \<longrightarrow> g \<in> requested w \<and> g \<le> next_generation (counters w)) \<and>
    (\<forall>g. lock w = Incremented g \<longrightarrow> \<not> is_cancelled g (counters w) \<and> g \<notin> set (pending_cancels w))"
  using cancelled_was_requested [OF assms] fresh_operation_not_cancelled [OF assms] operation_reachable_inv [OF assms]
  by (auto simp: operation_inv_def)

theorem cancelled_only_on_request_witness:
  "is_cancelled 1 (counters lost_cancel_world) \<and> 1 \<in> requested lost_cancel_world"
  using cancelled_only_on_request [OF lost_cancel_reachable]
  by (simp add: is_cancelled_def lost_cancel_world_def)

text \<open>
  C34: A requested cancel can be lost: there is an interleaving after which operation 2 runs, a cancel
  was asked for it and no cancel is under way, and yet its check passes, because the store of an older
  cancel came after the one of the newer.
\<close>

theorem cancel_can_be_lost:
  "\<exists>w. operation_reachable w \<and> lock w = Running 2 \<and> 2 \<in> requested w \<and> pending_cancels w = [] \<and>
     operation_check 2 1 0 (counters w) = Inr ()"
proof -
  have "operation_check 2 1 0 (counters lost_cancel_world) = Inr ()"
    by (simp add: operation_check_def classify_operation_state_def is_cancelled_def lost_cancel_world_def)
  then show ?thesis
    using lost_cancel_reachable by (intro exI [of _ lost_cancel_world]) (simp add: lost_cancel_world_def)
qed

text \<open>
  C35: As long as no two cancels overlap, the counters implement their specification: every state stands for
  a state of the session machine (operations numbered in order, at most one current, a stop lasting until
  its end), every atomic step is one of the machine's steps or changes nothing there; beginning and
  finishing an operation are the machine's steps and a cancel stops what is current; the current
  operation is the one that holds the lock, and a cancel once carried out is seen by every check.
\<close>

theorem serial_operations_refine:
  assumes "serial_reachable w"
  shows "session_step\<^sup>*\<^sup>* session_new (session_of w) \<and>
    (\<forall>w'. operation_step w w' \<longrightarrow> session_of w' = session_of w \<or> session_step (session_of w) (session_of w')) \<and>
    (\<forall>g st. lock w = Unlocked \<and> operation_begin (counters w) = Inr (g, st) \<longrightarrow>
       session_step (session_of w) (session_of (w\<lparr>counters := st, lock := Running g\<rparr>))) \<and>
    (\<forall>g. lock w = Running g \<longrightarrow>
       session_step (session_of w) (session_of (w\<lparr>counters := operation_finish g (counters w), lock := Unlocked\<rparr>))) \<and>
    session_of (w\<lparr>counters := cancel_active (counters w)\<rparr>) = (session_of w)\<lparr>stopped := current (session_of w) \<noteq> None\<rparr> \<and>
    current (session_of w) = (case lock w of Running g \<Rightarrow> Some g | _ \<Rightarrow> None) \<and>
    (\<forall>g deadline now. lock w = Running g \<and> g \<in> requested w \<and> g \<notin> set (pending_cancels w) \<longrightarrow>
       stopped (session_of w) \<and> operation_check g deadline now (counters w) = Inl Cancelled)"
proof -
  have "stopped (session_of w) \<and> operation_check g deadline now (counters w) = Inl Cancelled"
    if g: "lock w = Running g" "g \<in> requested w" "g \<notin> set (pending_cancels w)" for g deadline now
  proof -
    have "current (session_of w) = Some g" using serial_phases [OF assms] g(1) by simp
    then have "active_generation (counters w) = g" "g \<noteq> 0" by (auto simp: Let_def session_of_def split: if_splits)
    then show ?thesis using serial_cancel_kept [OF assms g]
      by (simp add: Let_def session_of_def operation_check_def classify_operation_state_def)
  qed
  then show ?thesis
    using serial_session [OF assms] session_simulation [OF serial_reachable_inv [OF assms]] begin_session [OF assms]
      finish_session [OF assms] cancel_session serial_phases [OF assms] by blast
qed

theorem serial_operations_refine_witness:
  "session_step\<^sup>*\<^sup>* session_new \<lparr> issued = 1, current = Some 1, stopped = True \<rparr> \<and>
   operation_check 1 9 0 (counters stopped_world) = Inl Cancelled"
proof -
  have "session_of stopped_world = \<lparr> issued = 1, current = Some 1, stopped = True \<rparr>"
    "lock stopped_world = Running 1" "1 \<in> requested stopped_world" "1 \<notin> set (pending_cancels stopped_world)"
    by (simp_all add: stopped_world_def Let_def session_of_def is_cancelled_def)
  then show ?thesis using serial_operations_refine [OF stopped_world_reachable] by metis
qed

end
