(* ===== verification/Contacts.thy ===== *)
theory Contacts
  imports Utf8 "HOL-Library.Monad_Syntax"
begin

text \<open>
  The direct contact exchange (\<open>rust/contact-core/src/lib.rs\<close>): a signed request for an address and its
  signed response. Rust strings and byte vectors are HOL strings of 8-bit characters, a \<open>&str\<close> being its
  UTF-8 bytes. The JSON, base64, Ed25519 and SHA-256 crates are the parameter \<open>contact_library\<close>, random
  bytes are arguments, and an error is its text.
\<close>

section \<open>Libraries\<close>

datatype json_number = PosInt nat | NegInt int | Float string

datatype json =
  JNull | JBool bool | JNumber json_number | JString string | JArray "json list" | JObject "(string \<times> json) list"

text \<open>\<open>serde_json\<close>, \<open>base64\<close>, \<open>curve25519_dalek\<close>, \<open>ed25519_dalek\<close> and \<open>sha2\<close>, as far as the code calls them.\<close>

record 'p contact_library =
  parse_json :: "string \<Rightarrow> json option"
  print_json :: "json \<Rightarrow> string"
  encode64 :: "string \<Rightarrow> string"
  decode64 :: "string \<Rightarrow> string option"
  decompress :: "string \<Rightarrow> 'p option"
  compress :: "'p \<Rightarrow> string"
  is_identity :: "'p \<Rightarrow> bool"
  is_torsion_free :: "'p \<Rightarrow> bool"
  canonical_scalar :: "string \<Rightarrow> bool"
  public_key :: "string \<Rightarrow> string"
  sign_bytes :: "string \<Rightarrow> string \<Rightarrow> string"
  valid_verifying_key :: "string \<Rightarrow> bool"
  verify_strict :: "string \<Rightarrow> string \<Rightarrow> string \<Rightarrow> bool"
  sha256 :: "string \<Rightarrow> string"

definition then_some :: "bool \<Rightarrow> unit option" where
  "then_some b = (if b then Some () else None)"

lemma then_some_eq [simp]: "then_some b = Some u \<longleftrightarrow> b" "then_some b = None \<longleftrightarrow> \<not> b"
  by (simp_all add: then_some_def)

section \<open>Data\<close>

definition MAX_INPUT_BYTES :: nat where "MAX_INPUT_BYTES = 32768"
definition MAX_SAFE_INTEGER :: nat where "MAX_SAFE_INTEGER = 9007199254740991"
definition MAX_ENCODED_BYTES :: nat where "MAX_ENCODED_BYTES = 12000"
definition REQUEST_DOMAIN :: string where "REQUEST_DOMAIN = ''zcash-contact/request''"
definition ENDPOINT_DOMAIN :: string where "ENDPOINT_DOMAIN = ''zcash-contact/endpoint''"
definition EXCHANGE_DOMAIN :: string where "EXCHANGE_DOMAIN = ''zcash-contact/exchange''"

datatype contact_network = MainNet | TestNet | RegtestNet

definition from_api_name :: "string \<Rightarrow> string + contact_network" where
  "from_api_name s =
     (if s = ''main'' then Inr MainNet
      else if s = ''test'' then Inr TestNet
      else if s = ''regtest'' then Inr RegtestNet
      else Inl ''Unsupported Zcash contact network.'')"

fun wire_name :: "contact_network \<Rightarrow> string" where
  "wire_name MainNet = ''zcash-mainnet''"
| "wire_name TestNet = ''zcash-testnet''"
| "wire_name RegtestNet = ''zcash-regtest''"

record contact_request =
  request_text :: string
  request_audience :: string
  request_challenge :: string
  request_expires_at :: nat
  request_subject :: "string option"

record contact_endpoint =
  endpoint_identity :: string
  endpoint_address :: string
  endpoint_sequence :: nat
  endpoint_expires_at :: nat
  endpoint_network :: string

section \<open>Decoding\<close>

definition canonical_json :: "'p contact_library \<Rightarrow> string \<Rightarrow> json option" where
  "canonical_json lib bs =
     (if length bs > MAX_INPUT_BYTES then None
      else do {
        v \<leftarrow> parse_json lib bs;
        then_some (print_json lib v = bs);
        Some v
      })"

definition array :: "json \<Rightarrow> nat \<Rightarrow> json list option" where
  "array v n = (case v of JArray vs \<Rightarrow> if length vs = n then Some vs else None | _ \<Rightarrow> None)"

definition as_str :: "json \<Rightarrow> string option" where
  "as_str v = (case v of JString s \<Rightarrow> Some s | _ \<Rightarrow> None)"

definition integer :: "json \<Rightarrow> nat option" where
  "integer v = (case v of
      JNumber (PosInt n) \<Rightarrow> if n < 2 ^ 64 \<and> n \<le> MAX_SAFE_INTEGER then Some n else None
    | _ \<Rightarrow> None)"

definition url_safe :: "char \<Rightarrow> bool" where
  "url_safe c \<longleftrightarrow> (let n = of_char c :: nat in
     48 \<le> n \<and> n \<le> 57 \<or> 65 \<le> n \<and> n \<le> 90 \<or> 97 \<le> n \<and> n \<le> 122 \<or> n = 95 \<or> n = 45)"

definition decode :: "'p contact_library \<Rightarrow> string \<Rightarrow> string option" where
  "decode lib encoded =
     (if encoded = [] \<or> length encoded > MAX_ENCODED_BYTES \<or> \<not> list_all url_safe encoded then None
      else do {
        bs \<leftarrow> decode64 lib encoded;
        then_some (encode64 lib bs = encoded);
        Some bs
      })"

definition fixed :: "'p contact_library \<Rightarrow> nat \<Rightarrow> string \<Rightarrow> string option" where
  "fixed lib n encoded = do { bs \<leftarrow> decode lib encoded; then_some (length bs = n); Some bs }"

definition strip_prefix :: "string \<Rightarrow> string \<Rightarrow> string option" where
  "strip_prefix pre s = (if take (length pre) s = pre then Some (drop (length pre) s) else None)"

definition profile_point :: "'p contact_library \<Rightarrow> string \<Rightarrow> unit option" where
  "profile_point lib bs = do {
     point \<leftarrow> decompress lib bs;
     if compress lib point \<noteq> bs \<or> is_identity lib point \<or> \<not> is_torsion_free lib point then None else Some ()
   }"

definition identity :: "'p contact_library \<Rightarrow> string \<Rightarrow> string option" where
  "identity lib s = do {
     encoded \<leftarrow> strip_prefix ''ed25519:'' s;
     key \<leftarrow> fixed lib 32 encoded;
     profile_point lib key;
     Some key
   }"

definition verify_signature :: "'p contact_library \<Rightarrow> string \<Rightarrow> string \<Rightarrow> string \<Rightarrow> unit option" where
  "verify_signature lib key message signature = do {
     profile_point lib key;
     profile_point lib (take 32 signature);
     then_some (canonical_scalar lib (drop 32 signature));
     then_some (valid_verifying_key lib key);
     then_some (verify_strict lib key message signature)
   }"

text \<open>The UTF-8 encodings of the Unicode white space; \<open>s.trim() == s\<close> when none leads or trails.\<close>

definition char_bytes :: "nat list \<Rightarrow> string" where "char_bytes = map char_of"

definition white_spaces :: "string list" where
  "white_spaces = map char_bytes
     ([[n]. n \<leftarrow> [9..<14]] @ [[32], [0xC2, 0x85], [0xC2, 0xA0], [0xE1, 0x9A, 0x80]]
      @ [[0xE2, 0x80, n]. n \<leftarrow> [0x80..<0x8B]]
      @ [[0xE2, 0x80, 0xA8], [0xE2, 0x80, 0xA9], [0xE2, 0x80, 0xAF], [0xE2, 0x81, 0x9F], [0xE3, 0x80, 0x80]])"

definition is_trimmed :: "string \<Rightarrow> bool" where
  "is_trimmed s \<longleftrightarrow> (\<forall>w \<in> set white_spaces.
     take (length w) s \<noteq> w \<and> \<not> (length w \<le> length s \<and> drop (length s - length w) s = w))"

definition valid_address :: "(contact_network \<Rightarrow> string \<Rightarrow> bool) \<Rightarrow> contact_network \<Rightarrow> string \<Rightarrow> unit option" where
  "valid_address validate network address =
     then_some (address \<noteq> [] \<and> length address \<le> 512 \<and> is_trimmed address \<and> validate network address)"

definition future_limit :: "nat \<Rightarrow> nat option" where
  "future_limit now = do {
     limit \<leftarrow> checked_add 64 now 300;
     if limit \<le> MAX_SAFE_INTEGER then Some limit else None
   }"

section \<open>Requests\<close>

definition parse_subject :: "'p contact_library \<Rightarrow> json \<Rightarrow> string option option" where
  "parse_subject lib v =
     (if v = JNull then Some None
      else do { subject \<leftarrow> as_str v; identity lib subject; Some (Some subject) })"

definition parse_request :: "'p contact_library \<Rightarrow> contact_network \<Rightarrow> string \<Rightarrow> nat \<Rightarrow> contact_request option" where
  "parse_request lib network input now = do {
     fields \<leftarrow> canonical_json lib input;
     request \<leftarrow> array fields 6;
     domain \<leftarrow> as_str (request ! 0);
     then_some (domain = REQUEST_DOMAIN);
     net \<leftarrow> as_str (request ! 1);
     then_some (net = wire_name network);
     audience \<leftarrow> as_str (request ! 2);
     identity lib audience;
     challenge \<leftarrow> as_str (request ! 3);
     fixed lib 32 challenge;
     expires_at \<leftarrow> integer (request ! 4);
     limit \<leftarrow> (if expires_at \<le> now then None else future_limit now);
     then_some (expires_at \<le> limit);
     subject \<leftarrow> parse_subject lib (request ! 5);
     Some \<lparr> request_text = input, request_audience = audience, request_challenge = challenge,
            request_expires_at = expires_at, request_subject = subject \<rparr>
   }"

definition inspect_request :: "'p contact_library \<Rightarrow> contact_network \<Rightarrow> string \<Rightarrow> nat \<Rightarrow> string + contact_request" where
  "inspect_request lib network request_json now =
     ok_or (parse_request lib network request_json now) ''Invalid or expired contact request.''"

definition key_identity :: "'p contact_library \<Rightarrow> string \<Rightarrow> string" where
  "key_identity lib seed = ''ed25519:'' @ encode64 lib (public_key lib seed)"

definition new_seed :: "string option \<Rightarrow> string + string" where
  "new_seed draw = ok_or draw ''Contact randomness is unavailable.''"

definition create_identity :: "'p contact_library \<Rightarrow> string option \<Rightarrow> string + (string \<times> string)" where
  "create_identity lib draw = and_then (new_seed draw) (\<lambda>seed. Inr (key_identity lib seed, seed))"

definition json_subject :: "string option \<Rightarrow> json" where
  "json_subject subject = (case subject of None \<Rightarrow> JNull | Some s \<Rightarrow> JString s)"

text \<open>The two draws are the seed of the audience key and the nonce.\<close>

definition create_request ::
  "'p contact_library \<Rightarrow> contact_network \<Rightarrow> string option \<Rightarrow> nat \<Rightarrow> string option \<Rightarrow> string option \<Rightarrow>
     string + contact_request" where
  "create_request lib network subject_identity now seed_draw nonce_draw =
     and_then (ok_or (future_limit now) ''Invalid contact request time.'') (\<lambda>expires_at.
     and_then (case subject_identity of
           None \<Rightarrow> Inr ()
         | Some subject \<Rightarrow> and_then (ok_or (identity lib subject) ''Invalid contact identity.'') (\<lambda>_. Inr ())) (\<lambda>_.
     and_then (new_seed seed_draw) (\<lambda>seed.
     and_then (ok_or nonce_draw ''Contact randomness is unavailable.'') (\<lambda>nonce.
     inspect_request lib network
       (print_json lib (JArray [JString REQUEST_DOMAIN, JString (wire_name network), JString (key_identity lib seed),
          JString (encode64 lib nonce), JNumber (PosInt expires_at), json_subject subject_identity])) now))))"

section \<open>Responses\<close>

definition endpoint_payload ::
  "'p contact_library \<Rightarrow> contact_network \<Rightarrow> string \<Rightarrow> contact_request \<Rightarrow> nat \<Rightarrow> nat \<Rightarrow> nat \<Rightarrow> string \<Rightarrow> string" where
  "endpoint_payload lib network subject request sequence issued_at expires_at address =
     print_json lib (JArray [JString ENDPOINT_DOMAIN, JString (wire_name network), JString subject,
       JString (request_audience request), JString (request_challenge request), JNumber (PosInt sequence),
       JNumber (PosInt issued_at), JNumber (PosInt expires_at), JString address])"

definition sign_response ::
  "'p contact_library \<Rightarrow> contact_network \<Rightarrow> string \<Rightarrow> string \<Rightarrow> string \<Rightarrow> nat \<Rightarrow> nat \<Rightarrow>
     (contact_network \<Rightarrow> string \<Rightarrow> bool) \<Rightarrow> string + string" where
  "sign_response lib network request_json secret_key address sequence now validate =
     (if length secret_key \<noteq> 32 then Inl ''Invalid contact signing key.''
      else
        and_then (inspect_request lib network request_json now) (\<lambda>request.
        let subject = key_identity lib secret_key in
        if \<exists>expected. request_subject request = Some expected \<and> expected \<noteq> subject
        then Inl ''Contact request expects a different identity.''
        else if \<not> (1 \<le> sequence \<and> sequence \<le> MAX_SAFE_INTEGER) then Inl ''Invalid contact revision.''
        else
          and_then (ok_or (valid_address validate network address) ''Invalid contact receiving address.'') (\<lambda>_.
          and_then (ok_or (future_limit now) ''Invalid contact time.'') (\<lambda>limit.
          let expiry = min (request_expires_at request) limit;
              payload = endpoint_payload lib network subject request sequence now expiry address;
              signature = sign_bytes lib secret_key payload in
          and_then (ok_or (verify_signature lib (public_key lib secret_key) payload signature)
              ''Unable to sign the contact response.'') (\<lambda>_.
          Inr (print_json lib (JArray [JString EXCHANGE_DOMAIN,
             JArray [JString (encode64 lib payload), JString (encode64 lib signature)], JNull])))))))"

definition verify_endpoint ::
  "'p contact_library \<Rightarrow> contact_network \<Rightarrow> string \<Rightarrow> string \<Rightarrow> nat \<Rightarrow> (contact_network \<Rightarrow> string \<Rightarrow> bool) \<Rightarrow>
     contact_endpoint option" where
  "verify_endpoint lib network request_json exchange_json now validate = do {
     request \<leftarrow> parse_request lib network request_json now;
     fields \<leftarrow> canonical_json lib exchange_json;
     exchange \<leftarrow> array fields 3;
     domain \<leftarrow> as_str (exchange ! 0);
     then_some (domain = EXCHANGE_DOMAIN \<and> exchange ! 2 = JNull);
     envelope \<leftarrow> array (exchange ! 1) 2;
     encoded_payload \<leftarrow> as_str (envelope ! 0);
     payload \<leftarrow> decode lib encoded_payload;
     encoded_signature \<leftarrow> as_str (envelope ! 1);
     signature \<leftarrow> fixed lib 64 encoded_signature;
     fields \<leftarrow> canonical_json lib payload;
     endpoint \<leftarrow> array fields 9;
     domain \<leftarrow> as_str (endpoint ! 0);
     then_some (domain = ENDPOINT_DOMAIN);
     net \<leftarrow> as_str (endpoint ! 1);
     then_some (net = wire_name network);
     audience \<leftarrow> as_str (endpoint ! 3);
     then_some (audience = request_audience request);
     challenge \<leftarrow> as_str (endpoint ! 4);
     then_some (challenge = request_challenge request);
     subject \<leftarrow> as_str (endpoint ! 2);
     subject_key \<leftarrow> identity lib subject;
     then_some (\<not> (\<exists>expected. request_subject request = Some expected \<and> expected \<noteq> subject));
     sequence \<leftarrow> integer (endpoint ! 5);
     then_some (sequence \<noteq> 0);
     issued_at \<leftarrow> integer (endpoint ! 6);
     expires_at \<leftarrow> integer (endpoint ! 7);
     lifetime \<leftarrow> checked_sub expires_at issued_at;
     then_some (1 \<le> lifetime \<and> lifetime \<le> 300);
     latest_issue \<leftarrow> checked_add 64 now 30;
     then_some (issued_at \<le> latest_issue \<and> now < expires_at \<and> expires_at \<le> request_expires_at request);
     address \<leftarrow> as_str (endpoint ! 8);
     valid_address validate network address;
     verify_signature lib subject_key payload signature;
     Some \<lparr> endpoint_identity = subject, endpoint_address = address, endpoint_sequence = sequence,
            endpoint_expires_at = expires_at, endpoint_network = wire_name network \<rparr>
   }"

definition verify_response ::
  "'p contact_library \<Rightarrow> contact_network \<Rightarrow> string \<Rightarrow> string \<Rightarrow> nat \<Rightarrow> (contact_network \<Rightarrow> string \<Rightarrow> bool) \<Rightarrow>
     string + contact_endpoint" where
  "verify_response lib network request_json exchange_json now validate =
     ok_or (verify_endpoint lib network request_json exchange_json now validate)
       ''Invalid or expired contact response.''"

end
