(* ===== verification/Introductions.thy ===== *)
theory Introductions
  imports Contacts
begin

text \<open>
  Introductions between contacts (\<open>rust/contact-core/src/introduction.rs\<close>): Carol asks Alice, Alice
  offers to Bob, Bob consents with a fresh key and address, and Alice delivers them to Carol. Every
  packet is verified against the identities the caller has pinned and the texts it has saved.
\<close>

section \<open>Data\<close>

definition INTRODUCTION_ERROR :: string where
  "INTRODUCTION_ERROR = ''Invalid or expired contact introduction.''"

definition INVITATION_TTL :: nat where "INVITATION_TTL = 30 * 24 * 60 * 60"

record verified =
  packet_json :: string
  request_json :: string
  request_hash :: string
  endpoint_hash :: "string option"
  endorsement_hash :: "string option"
  verified_expires_at :: nat
  offer_json :: "string option"
  endpoint_json :: "string option"
  verified_identity :: "string option"
  verified_address :: "string option"
  verified_sequence :: "nat option"
  verified_suggestion :: "string option"

datatype role = Ask | Offer | Consent | Delivery

record envelope =
  envelope_payload :: string
  envelope_fields :: json
  envelope_signature :: string

section \<open>Pieces of a packet\<close>

definition canonical :: "'p contact_library \<Rightarrow> string \<Rightarrow> json option" where
  "canonical lib input = do { then_some (is_ascii input); canonical_json lib input }"

definition digest :: "'p contact_library \<Rightarrow> json \<Rightarrow> string" where
  "digest lib v = encode64 lib (sha256 lib (print_json lib (JArray [JString ''zcash-contact/intro-digest'', v])))"

definition intro_request :: "'p contact_library \<Rightarrow> json \<Rightarrow> contact_network \<Rightarrow> nat \<Rightarrow> string option" where
  "intro_request lib v network now = do {
     r \<leftarrow> array v 5;
     sid \<leftarrow> as_str (r ! 2);
     fixed lib 32 sid;
     issued \<leftarrow> integer (r ! 3);
     expires \<leftarrow> integer (r ! 4);
     domain \<leftarrow> as_str (r ! 0);
     ttl \<leftarrow> (if domain = ''zcash-contact/intro-request'' then Some 900
            else if domain = ''zcash-contact/intro-invitation'' then Some INVITATION_TTL
            else None);
     then_some (now \<le> MAX_SAFE_INTEGER \<and> r ! 1 = JString (wire_name network));
     end_of_life \<leftarrow> checked_add 64 issued ttl;
     then_some (expires = end_of_life \<and> issued \<le> now \<and> now < expires);
     Some (digest lib v)
   }"

definition paired :: "'p contact_library \<Rightarrow> string \<Rightarrow> string \<Rightarrow> unit option" where
  "paired lib peer own = do { identity lib peer; identity lib own; then_some (peer \<noteq> own) }"

definition suggestion :: "json \<Rightarrow> string option" where
  "suggestion v = do {
     s \<leftarrow> as_str v;
     then_some (s \<noteq> [] \<and> length s \<le> 20 \<and> hd s \<noteq> CHR '' '' \<and> last s \<noteq> CHR '' '' \<and>
       list_all (\<lambda>c. 0x20 \<le> (of_char c :: nat) \<and> (of_char c :: nat) \<le> 0x7e) s);
     Some s
   }"

definition envelope_parse :: "'p contact_library \<Rightarrow> json \<Rightarrow> envelope option" where
  "envelope_parse lib v = do {
     a \<leftarrow> array v 2;
     encoded_payload \<leftarrow> as_str (a ! 0);
     payload \<leftarrow> decode lib encoded_payload;
     payload_text \<leftarrow> from_utf8 payload;
     fields \<leftarrow> canonical lib payload_text;
     encoded_signature \<leftarrow> as_str (a ! 1);
     signature \<leftarrow> fixed lib 64 encoded_signature;
     Some \<lparr> envelope_payload = payload, envelope_fields = fields, envelope_signature = signature \<rparr>
   }"

definition envelope_verify :: "'p contact_library \<Rightarrow> envelope \<Rightarrow> string \<Rightarrow> unit option" where
  "envelope_verify lib env signer = do {
     key \<leftarrow> identity lib signer;
     verify_signature lib key (envelope_payload env) (envelope_signature env)
   }"

definition offer :: "'p contact_library \<Rightarrow> json \<Rightarrow> string \<Rightarrow> string \<Rightarrow> string \<Rightarrow> string option" where
  "offer lib v hash signer recipient = do {
     env \<leftarrow> envelope_parse lib v;
     o_fields \<leftarrow> array (envelope_fields env) 4;
     then_some (o_fields ! 0 = JString ''zcash-contact/intro-offer'' \<and> o_fields ! 1 = JString hash \<and>
       o_fields ! 2 = JString recipient);
     suggested \<leftarrow> suggestion (o_fields ! 3);
     envelope_verify lib env signer;
     Some suggested
   }"

definition endpoint ::
  "'p contact_library \<Rightarrow> json \<Rightarrow> string \<Rightarrow> contact_network \<Rightarrow> string \<Rightarrow> string \<Rightarrow>
     (contact_network \<Rightarrow> string \<Rightarrow> bool) \<Rightarrow> (string \<times> string) option" where
  "endpoint lib v hash network peer own validate = do {
     env \<leftarrow> envelope_parse lib v;
     e \<leftarrow> array (envelope_fields env) 6;
     then_some (e ! 0 = JString ''zcash-contact/intro-endpoint'' \<and> e ! 1 = JString (wire_name network) \<and>
       e ! 2 = JString hash);
     revision \<leftarrow> integer (e ! 4);
     then_some (revision = 1 \<and> e ! 3 \<noteq> JString peer \<and> e ! 3 \<noteq> JString own);
     subject \<leftarrow> as_str (e ! 3);
     envelope_verify lib env subject;
     address \<leftarrow> as_str (e ! 5);
     valid_address validate network address;
     Some (subject, address)
   }"

section \<open>Verification\<close>

definition package :: "role \<Rightarrow> string \<times> nat" where
  "package r = (case r of
      Ask \<Rightarrow> (''zcash-contact/intro-ask-package'', 3)
    | Offer \<Rightarrow> (''zcash-contact/intro-offer-package'', 3)
    | Consent \<Rightarrow> (''zcash-contact/intro-consent-package'', 4)
    | Delivery \<Rightarrow> (''zcash-contact/intro-delivery'', 4))"

definition json_at :: "json \<Rightarrow> nat \<Rightarrow> json" where
  "json_at v i = (case v of JArray vs \<Rightarrow> if i < length vs then vs ! i else JNull | _ \<Rightarrow> JNull)"

definition verify_ask ::
  "'p contact_library \<Rightarrow> json list \<Rightarrow> string \<Rightarrow> string \<Rightarrow> string \<Rightarrow> string option \<Rightarrow> string option \<Rightarrow> verified \<Rightarrow>
     verified option" where
  "verify_ask lib p hash peer own saved_request_json saved_offer_json result = do {
     then_some (saved_request_json = None \<and> saved_offer_json = None);
     env \<leftarrow> envelope_parse lib (p ! 2);
     c \<leftarrow> array (envelope_fields env) 3;
     then_some (c ! 0 = JString ''zcash-contact/intro-ask'' \<and> c ! 1 = JString hash \<and> c ! 2 = JString own);
     envelope_verify lib env peer;
     Some result
   }"

definition verify_offer ::
  "'p contact_library \<Rightarrow> json list \<Rightarrow> string \<Rightarrow> string \<Rightarrow> string \<Rightarrow> string option \<Rightarrow> string option \<Rightarrow> verified \<Rightarrow>
     verified option" where
  "verify_offer lib p hash peer own saved_request_json saved_offer_json result = do {
     then_some (saved_request_json = None \<and> saved_offer_json = None);
     suggested \<leftarrow> offer lib (p ! 2) hash peer own;
     Some (result\<lparr>verified_suggestion := Some suggested, offer_json := Some (print_json lib (p ! 2))\<rparr>)
   }"

definition verify_consent ::
  "'p contact_library \<Rightarrow> json list \<Rightarrow> string \<Rightarrow> string \<Rightarrow> string \<Rightarrow> string option \<Rightarrow> verified \<Rightarrow> verified option" where
  "verify_consent lib p hash peer own saved_offer_json result = do {
     saved_text \<leftarrow> saved_offer_json;
     saved_offer \<leftarrow> canonical lib saved_text;
     offer lib saved_offer hash own peer;
     env \<leftarrow> envelope_parse lib (p ! 3);
     b \<leftarrow> array (envelope_fields env) 4;
     then_some (b ! 0 = JString ''zcash-contact/intro-consent'' \<and> b ! 1 = JString hash \<and>
       b ! 2 = JString (digest lib saved_offer) \<and> b ! 3 = JString (digest lib (p ! 2)));
     envelope_verify lib env peer;
     Some (result\<lparr>offer_json := Some (print_json lib saved_offer)\<rparr>)
   }"

definition verify_delivery ::
  "'p contact_library \<Rightarrow> json list \<Rightarrow> string \<Rightarrow> contact_network \<Rightarrow> string \<Rightarrow> string option \<Rightarrow> verified \<Rightarrow>
     verified option" where
  "verify_delivery lib p hash network peer saved_offer_json result = do {
     then_some (saved_offer_json = None);
     env \<leftarrow> envelope_parse lib (p ! 3);
     a \<leftarrow> array (envelope_fields env) 5;
     then_some (a ! 0 = JString ''zcash-contact/intro-endorsement'' \<and> a ! 1 = JString (wire_name network) \<and>
       a ! 2 = JString hash \<and> a ! 3 = JString (digest lib (p ! 2)));
     suggested \<leftarrow> suggestion (a ! 4);
     envelope_verify lib env peer;
     Some (result\<lparr>verified_suggestion := Some suggested, endorsement_hash := Some (digest lib (p ! 3))\<rparr>)
   }"

definition verify_inner ::
  "'p contact_library \<Rightarrow> role \<Rightarrow> contact_network \<Rightarrow> string \<Rightarrow> string \<Rightarrow> string option \<Rightarrow> string option \<Rightarrow> string \<Rightarrow>
     nat \<Rightarrow> (contact_network \<Rightarrow> string \<Rightarrow> bool) \<Rightarrow> verified option" where
  "verify_inner lib r network peer own saved_request_json saved_offer_json packet now validate = do {
     paired lib peer own;
     v \<leftarrow> canonical lib packet;
     p \<leftarrow> array v (snd (package r));
     then_some (p ! 0 = JString (fst (package r)));
     hash \<leftarrow> intro_request lib (p ! 1) network now;
     expires \<leftarrow> integer (json_at (p ! 1) 4);
     let result = \<lparr> packet_json = packet, request_json = print_json lib (p ! 1), request_hash = hash,
       endpoint_hash = None, endorsement_hash = None, verified_expires_at = expires, offer_json = None,
       endpoint_json = None, verified_identity = None, verified_address = None, verified_sequence = None,
       verified_suggestion = None \<rparr>;
     (case r of
        Ask \<Rightarrow> verify_ask lib p hash peer own saved_request_json saved_offer_json result
      | Offer \<Rightarrow> verify_offer lib p hash peer own saved_request_json saved_offer_json result
      | _ \<Rightarrow> do {
          saved_text \<leftarrow> saved_request_json;
          saved_request \<leftarrow> canonical lib saved_text;
          then_some (saved_request = p ! 1);
          result \<leftarrow> (if r = Consent then verify_consent lib p hash peer own saved_offer_json result
                    else verify_delivery lib p hash network peer saved_offer_json result);
          (subject, address) \<leftarrow> endpoint lib (p ! 2) hash network peer own validate;
          Some (result\<lparr>verified_identity := Some subject, verified_address := Some address,
            verified_sequence := Some 1, endpoint_json := Some (print_json lib (p ! 2)),
            endpoint_hash := Some (digest lib (p ! 2))\<rparr>)
        })
   }"

definition verify ::
  "'p contact_library \<Rightarrow> role \<Rightarrow> contact_network \<Rightarrow> string \<Rightarrow> string \<Rightarrow> string option \<Rightarrow> string option \<Rightarrow> string \<Rightarrow>
     nat \<Rightarrow> (contact_network \<Rightarrow> string \<Rightarrow> bool) \<Rightarrow> string + verified" where
  "verify lib r network peer own saved_request_json saved_offer_json packet now validate =
     ok_or (verify_inner lib r network peer own saved_request_json saved_offer_json packet now validate)
       INTRODUCTION_ERROR"

section \<open>Creation\<close>

definition signing_key :: "string \<Rightarrow> string + string" where
  "signing_key secret = (if length secret \<noteq> 32 then Inl ''Invalid contact signing key.'' else Inr secret)"

definition validate_association :: "'p contact_library \<Rightarrow> string \<Rightarrow> string \<Rightarrow> string \<Rightarrow> string + bool" where
  "validate_association lib incoming_identity own_identity own_secret_key =
     and_then (signing_key own_secret_key) (\<lambda>key.
     Inr (paired lib incoming_identity own_identity \<noteq> None \<and> key_identity lib key = own_identity))"

definition signed_value :: "'p contact_library \<Rightarrow> json \<Rightarrow> string \<Rightarrow> json" where
  "signed_value lib payload key =
     (let bs = print_json lib payload in
      JArray [JString (encode64 lib bs), JString (encode64 lib (sign_bytes lib key bs))])"

definition intro_ok :: "'a option \<Rightarrow> string + 'a" where
  "intro_ok m = ok_or m INTRODUCTION_ERROR"

definition create_ask ::
  "'p contact_library \<Rightarrow> contact_network \<Rightarrow> string \<Rightarrow> string \<Rightarrow> nat \<Rightarrow> string option \<Rightarrow> string + verified" where
  "create_ask lib network peer_ac_identity secret_ca_key now sid_draw =
     and_then (signing_key secret_ca_key) (\<lambda>key.
     let own_ca_identity = key_identity lib key in
     and_then (intro_ok (paired lib peer_ac_identity own_ca_identity)) (\<lambda>_.
     and_then (intro_ok (do { v \<leftarrow> checked_add 64 now INVITATION_TTL; then_some (v \<le> MAX_SAFE_INTEGER); Some v }))
       (\<lambda>expires.
     and_then (ok_or sid_draw ''Contact randomness is unavailable.'') (\<lambda>sid.
     let r = JArray [JString ''zcash-contact/intro-invitation'', JString (wire_name network),
           JString (encode64 lib sid), JNumber (PosInt now), JNumber (PosInt expires)];
         c = signed_value lib (JArray [JString ''zcash-contact/intro-ask'', JString (digest lib r),
           JString peer_ac_identity]) key;
         packet = print_json lib (JArray [JString ''zcash-contact/intro-ask-package'', r, c])
     in verify lib Ask network own_ca_identity peer_ac_identity None None packet now (\<lambda>_ _. False)))))"

definition create_offer ::
  "'p contact_library \<Rightarrow> contact_network \<Rightarrow> string \<Rightarrow> string \<Rightarrow> string \<Rightarrow> string \<Rightarrow> nat \<Rightarrow> string + verified" where
  "create_offer lib network request_packet peer_ba_identity secret_ab_key suggested_recipient now =
     and_then (signing_key secret_ab_key) (\<lambda>key.
     let own_ab_identity = key_identity lib key in
     and_then (intro_ok (paired lib peer_ba_identity own_ab_identity)) (\<lambda>_.
     and_then (intro_ok (canonical lib request_packet)) (\<lambda>r.
     and_then (intro_ok (intro_request lib r network now)) (\<lambda>hash.
     and_then (intro_ok (suggestion (JString suggested_recipient))) (\<lambda>_.
     let o_value = signed_value lib (JArray [JString ''zcash-contact/intro-offer'', JString hash,
           JString peer_ba_identity, JString suggested_recipient]) key;
         packet = print_json lib (JArray [JString ''zcash-contact/intro-offer-package'', r, o_value])
     in verify lib Offer network own_ab_identity peer_ba_identity None None packet now (\<lambda>_ _. False))))))"

definition create_consent ::
  "'p contact_library \<Rightarrow> contact_network \<Rightarrow> string \<Rightarrow> string \<Rightarrow> string \<Rightarrow> string \<Rightarrow> string \<Rightarrow> nat \<Rightarrow>
     (contact_network \<Rightarrow> string \<Rightarrow> bool) \<Rightarrow> string + verified" where
  "create_consent lib network peer_ab_identity secret_ba_key fresh_secret_bc_key fresh_address offer_packet now
     validate =
     and_then (signing_key secret_ba_key) (\<lambda>ba.
     and_then (signing_key fresh_secret_bc_key) (\<lambda>bc.
     let own_ba_identity = key_identity lib ba in
     and_then (verify lib Offer network peer_ab_identity own_ba_identity None None offer_packet now validate) (\<lambda>seen.
     and_then (intro_ok (canonical lib (request_json seen))) (\<lambda>r.
     and_then (intro_ok (offer_json seen)) (\<lambda>offer_text.
     and_then (intro_ok (canonical lib offer_text)) (\<lambda>o_value.
     let e = signed_value lib (JArray [JString ''zcash-contact/intro-endpoint'', JString (wire_name network),
           JString (request_hash seen), JString (key_identity lib bc), JNumber (PosInt 1),
           JString fresh_address]) bc in
     and_then (intro_ok (endpoint lib e (digest lib r) network peer_ab_identity own_ba_identity validate)) (\<lambda>_.
     let b = signed_value lib (JArray [JString ''zcash-contact/intro-consent'', JString (digest lib r),
           JString (digest lib o_value), JString (digest lib e)]) ba;
         packet = print_json lib (JArray [JString ''zcash-contact/intro-consent-package'', r, e, b])
     in verify lib Consent network own_ba_identity peer_ab_identity (Some (request_json seen)) (Some offer_text)
          packet now validate)))))))"

definition create_delivery ::
  "'p contact_library \<Rightarrow> contact_network \<Rightarrow> string \<Rightarrow> string \<Rightarrow> string \<Rightarrow> string \<Rightarrow> string \<Rightarrow> string \<Rightarrow> string \<Rightarrow>
     string \<Rightarrow> nat \<Rightarrow> (contact_network \<Rightarrow> string \<Rightarrow> bool) \<Rightarrow> string + verified" where
  "create_delivery lib network peer_ba_identity own_ab_identity peer_ca_identity secret_ac_key saved_request_json
     saved_offer_json consent_packet suggested_contact now validate =
     and_then (signing_key secret_ac_key) (\<lambda>ac.
     let own_ac_identity = key_identity lib ac in
     and_then (intro_ok (paired lib peer_ca_identity own_ac_identity)) (\<lambda>_.
     and_then (verify lib Consent network peer_ba_identity own_ab_identity (Some saved_request_json)
       (Some saved_offer_json) consent_packet now validate) (\<lambda>seen.
     and_then (intro_ok (suggestion (JString suggested_contact))) (\<lambda>_.
     and_then (intro_ok (canonical lib (request_json seen))) (\<lambda>r.
     and_then (intro_ok (do { endpoint_text \<leftarrow> endpoint_json seen; canonical lib endpoint_text })) (\<lambda>e.
     and_then (intro_ok (endpoint lib e (digest lib r) network peer_ca_identity own_ac_identity validate)) (\<lambda>_.
     let a = signed_value lib (JArray [JString ''zcash-contact/intro-endorsement'', JString (wire_name network),
           JString (digest lib r), JString (digest lib e), JString suggested_contact]) ac;
         packet = print_json lib (JArray [JString ''zcash-contact/intro-delivery'', r, e, a])
     in verify lib Delivery network own_ac_identity peer_ca_identity (Some saved_request_json) None
          packet now validate)))))))"

end
