(* ===== verification/ContactsCorrect.thy ===== *)
theory ContactsCorrect
  imports Introductions
begin

text \<open>
  What the contact exchange promises. \<open>library_laws\<close> states the documented behaviour of the crates the
  code relies on: compact JSON of bounded size is parsed back, unpadded base64 round-trips over the
  URL-safe alphabet, keys have 32 bytes and signatures 64.
\<close>

section \<open>The laws of the libraries\<close>

text \<open>Values built from ASCII strings and 64-bit numbers, nested at most \<open>d\<close> deep.\<close>

fun plain_json :: "nat \<Rightarrow> json \<Rightarrow> bool" where
  "plain_json d JNull \<longleftrightarrow> True"
| "plain_json d (JBool b) \<longleftrightarrow> True"
| "plain_json d (JNumber n) \<longleftrightarrow> (case n of PosInt k \<Rightarrow> k < 2 ^ 64 | _ \<Rightarrow> False)"
| "plain_json d (JString s) \<longleftrightarrow> is_ascii s"
| "plain_json 0 (JArray vs) \<longleftrightarrow> False"
| "plain_json (Suc d) (JArray vs) \<longleftrightarrow> (\<forall>v \<in> set vs. plain_json d v)"
| "plain_json d (JObject kvs) \<longleftrightarrow> False"

fun valid_json :: "json \<Rightarrow> bool" where
  "valid_json JNull \<longleftrightarrow> True"
| "valid_json (JBool b) \<longleftrightarrow> True"
| "valid_json (JNumber n) \<longleftrightarrow> (case n of PosInt k \<Rightarrow> k < 2 ^ 64 | _ \<Rightarrow> True)"
| "valid_json (JString s) \<longleftrightarrow> is_ascii s"
| "valid_json (JArray vs) \<longleftrightarrow> (\<forall>v \<in> set vs. valid_json v)"
| "valid_json (JObject kvs) \<longleftrightarrow> (\<forall>kv \<in> set kvs. is_ascii (fst kv) \<and> valid_json (snd kv))"

definition char_size :: "char \<Rightarrow> nat" where
  "char_size c = (let n = of_char c :: nat in if 32 \<le> n \<and> n \<le> 126 \<and> n \<noteq> 34 \<and> n \<noteq> 92 then 1 else 6)"

fun json_size :: "json \<Rightarrow> nat" where
  "json_size JNull = 4"
| "json_size (JBool b) = 5"
| "json_size (JNumber n) = 20"
| "json_size (JString s) = 2 + sum_list (map char_size s)"
| "json_size (JArray vs) = 2 + sum_list (map (\<lambda>v. json_size v + 1) vs)"
| "json_size (JObject kvs) = 0"

definition library_laws :: "'p contact_library \<Rightarrow> bool" where
  "library_laws lib \<longleftrightarrow>
     (\<forall>v. plain_json 8 v \<longrightarrow> parse_json lib (print_json lib v) = Some v \<and>
        is_ascii (print_json lib v) \<and> print_json lib v \<noteq> [] \<and> length (print_json lib v) \<le> json_size v) \<and>
     (\<forall>bs v. parse_json lib bs = Some v \<and> print_json lib v = bs \<and> is_ascii bs \<longrightarrow> valid_json v) \<and>
     (\<forall>bs. decode64 lib (encode64 lib bs) = Some bs \<and> list_all url_safe (encode64 lib bs) \<and>
        length bs \<le> length (encode64 lib bs) \<and> length (encode64 lib bs) \<le> 2 * length bs) \<and>
     (\<forall>seed. length (public_key lib seed) = 32) \<and>
     (\<forall>seed message. length (sign_bytes lib seed message) = 64) \<and>
     (\<forall>message. length (sha256 lib message) = 32)"

lemma plain_json_mono: "plain_json d v \<Longrightarrow> d \<le> d' \<Longrightarrow> plain_json d' v"
proof (induction d v arbitrary: d' rule: plain_json.induct)
  case (6 d vs)
  then obtain e where "d' = Suc e" by (cases d') auto
  then show ?case using 6 by auto
qed (auto split: json_number.splits)

lemma plain_json_array: "0 < d \<Longrightarrow> plain_json d (JArray vs) \<longleftrightarrow> (\<forall>v \<in> set vs. plain_json (d - 1) v)"
  by (cases d) auto

lemma laws_parse: "library_laws lib \<Longrightarrow> plain_json 8 v \<Longrightarrow> parse_json lib (print_json lib v) = Some v"
  by (simp add: library_laws_def)

lemma laws_size: "library_laws lib \<Longrightarrow> plain_json 8 v \<Longrightarrow> length (print_json lib v) \<le> json_size v"
  by (simp add: library_laws_def)

lemma laws_nonempty: "library_laws lib \<Longrightarrow> plain_json 8 v \<Longrightarrow> print_json lib v \<noteq> []"
  by (simp add: library_laws_def)

lemma laws_ascii: "library_laws lib \<Longrightarrow> plain_json 8 v \<Longrightarrow> is_ascii (print_json lib v)"
  by (simp add: library_laws_def)

lemma laws_valid:
  "library_laws lib \<Longrightarrow> parse_json lib bs = Some v \<Longrightarrow> print_json lib v = bs \<Longrightarrow> is_ascii bs \<Longrightarrow> valid_json v"
  by (simp add: library_laws_def)

lemma laws_base64:
  "library_laws lib \<Longrightarrow> decode64 lib (encode64 lib bs) = Some bs"
  "library_laws lib \<Longrightarrow> list_all url_safe (encode64 lib bs)"
  "library_laws lib \<Longrightarrow> length bs \<le> length (encode64 lib bs)"
  "library_laws lib \<Longrightarrow> length (encode64 lib bs) \<le> 2 * length bs"
  by (simp_all add: library_laws_def)

lemma laws_lengths:
  "library_laws lib \<Longrightarrow> length (public_key lib seed) = 32"
  "library_laws lib \<Longrightarrow> length (sign_bytes lib seed message) = 64"
  "library_laws lib \<Longrightarrow> length (sha256 lib message) = 32"
  by (simp_all add: library_laws_def)

section \<open>Text\<close>

lemma url_safe_ascii: "list_all url_safe s \<Longrightarrow> is_ascii s"
  by (auto simp: list_all_iff url_safe_def is_ascii_def Let_def)

lemma url_safe_size: "list_all url_safe s \<Longrightarrow> sum_list (map char_size s) = length s"
proof (induction s)
  case (Cons c s)
  then have "char_size c = 1" by (auto simp: url_safe_def char_size_def Let_def)
  then show ?case using Cons by simp
qed simp

lemma char_sizes: "sum_list (map char_size s) \<le> 6 * length s"
  by (induction s) (auto simp: char_size_def Let_def)

lemma wire_name_text: "is_ascii (wire_name network)"
  "sum_list (map char_size (wire_name network)) \<le> 14"
  by (cases network; simp add: is_ascii_def char_size_def)+

lemma key_identity_text:
  assumes "library_laws lib"
  shows "is_ascii (key_identity lib seed)"
    and "sum_list (map char_size (key_identity lib seed)) \<le> 72"
proof -
  note safe = laws_base64(2) [OF assms, of "public_key lib seed"]
  show "is_ascii (key_identity lib seed)"
    using url_safe_ascii [OF safe] by (simp add: key_identity_def is_ascii_def)
  show "sum_list (map char_size (key_identity lib seed)) \<le> 72"
    using url_safe_size [OF safe] laws_base64(4) [OF assms, of "public_key lib seed"] laws_lengths(1) [OF assms]
    by (simp add: key_identity_def char_size_def)
qed

section \<open>Decoding\<close>

lemma canonical_json_Some:
  "canonical_json lib bs = Some v \<longleftrightarrow>
     length bs \<le> MAX_INPUT_BYTES \<and> parse_json lib bs = Some v \<and> print_json lib v = bs"
  by (auto simp: canonical_json_def bind_eq_Some_conv)

lemma canonical_Some:
  "canonical lib bs = Some v \<longleftrightarrow> is_ascii bs \<and> canonical_json lib bs = Some v"
  by (auto simp: canonical_def bind_eq_Some_conv)

lemma array_Some: "array v n = Some vs \<longleftrightarrow> v = JArray vs \<and> length vs = n"
  by (auto simp: array_def split: json.splits)

lemma as_str_Some: "as_str v = Some s \<longleftrightarrow> v = JString s"
  by (auto simp: as_str_def split: json.splits)

lemma integer_Some: "integer v = Some n \<longleftrightarrow> v = JNumber (PosInt n) \<and> n < 2 ^ 64 \<and> n \<le> MAX_SAFE_INTEGER"
  by (auto simp: integer_def split: json.splits json_number.splits)

lemma decode_Some:
  "decode lib s = Some bs \<longleftrightarrow> s \<noteq> [] \<and> length s \<le> MAX_ENCODED_BYTES \<and> list_all url_safe s \<and>
     decode64 lib s = Some bs \<and> encode64 lib bs = s"
  by (auto simp: decode_def bind_eq_Some_conv)

lemma fixed_Some: "fixed lib n s = Some bs \<longleftrightarrow> decode lib s = Some bs \<and> length bs = n"
  by (auto simp: fixed_def bind_eq_Some_conv)

lemma decode_encoded:
  assumes "library_laws lib" "bs \<noteq> []" "length bs \<le> 6000"
  shows "decode lib (encode64 lib bs) = Some bs"
  using assms laws_base64 [OF assms(1), of bs] by (auto simp: decode_Some MAX_ENCODED_BYTES_def)

lemma canonical_json_printed:
  assumes "library_laws lib" "plain_json 8 v" "json_size v \<le> MAX_INPUT_BYTES"
  shows "canonical_json lib (print_json lib v) = Some v"
  using assms laws_parse [OF assms(1,2)] laws_size [OF assms(1,2)] by (simp add: canonical_json_Some)

lemma strip_prefix_Some: "strip_prefix pre s = Some rest \<longleftrightarrow> s = pre @ rest"
proof
  assume "strip_prefix pre s = Some rest"
  then show "s = pre @ rest"
    by (auto simp: strip_prefix_def split: if_splits) (metis append_take_drop_id)
qed (simp add: strip_prefix_def)

lemma identity_Some:
  "identity lib s = Some key \<longleftrightarrow>
     (\<exists>encoded. s = ''ed25519:'' @ encoded \<and> fixed lib 32 encoded = Some key \<and> profile_point lib key = Some ())"
  by (auto simp: identity_def strip_prefix_Some bind_eq_Some_conv)

lemma identity_key_identity:
  assumes "library_laws lib"
  shows "identity lib (key_identity lib seed) = Some key \<longleftrightarrow>
    key = public_key lib seed \<and> profile_point lib key = Some ()"
proof -
  have len: "length (public_key lib seed) = 32" by (rule laws_lengths(1) [OF assms])
  then have "public_key lib seed \<noteq> []" by auto
  then have "fixed lib 32 (encode64 lib (public_key lib seed)) = Some (public_key lib seed)"
    using decode_encoded [OF assms, of "public_key lib seed"] len by (simp add: fixed_Some)
  then show ?thesis by (auto simp: identity_Some key_identity_def)
qed

lemma identity_text:
  assumes "library_laws lib" "identity lib s = Some key"
  shows "is_ascii s" and "sum_list (map char_size s) \<le> 72"
proof -
  obtain encoded where s: "s = ''ed25519:'' @ encoded" and f: "fixed lib 32 encoded = Some key"
    using assms(2) by (auto simp: identity_Some)
  have safe: "list_all url_safe encoded" and len: "length encoded \<le> 64"
    using f laws_base64(4) [OF assms(1), of key] by (auto simp: fixed_Some decode_Some)
  show "is_ascii s"
    using url_safe_ascii [OF safe] by (simp add: s is_ascii_def)
  show "sum_list (map char_size s) \<le> 72"
    using url_safe_size [OF safe] len by (simp add: s char_size_def)
qed

lemma future_limit_Some:
  "future_limit now = Some limit \<longleftrightarrow> limit = now + 300 \<and> limit \<le> MAX_SAFE_INTEGER"
  by (auto simp: future_limit_def bind_eq_Some_conv checked_add_def MAX_SAFE_INTEGER_def)

lemma parse_request_Some:
  assumes "parse_request lib network input now = Some r"
  shows "request_text r = input" "\<exists>key. identity lib (request_audience r) = Some key"
    "\<exists>nonce. fixed lib 32 (request_challenge r) = Some nonce"
    "now < request_expires_at r" "request_expires_at r \<le> now + 300" "request_expires_at r \<le> MAX_SAFE_INTEGER"
    "\<And>subject. request_subject r = Some subject \<Longrightarrow> \<exists>key. identity lib subject = Some key"
  using assms unfolding parse_request_def parse_subject_def
  by (auto simp: bind_eq_Some_conv as_str_Some integer_Some future_limit_Some split: if_splits)

text \<open>Requests depend on the time only through their window.\<close>

lemma parse_request_later:
  assumes "parse_request lib network input now = Some r" "now \<le> t" "t < request_expires_at r"
    "t + 300 \<le> MAX_SAFE_INTEGER"
  shows "parse_request lib network input t = Some r"
proof -
  have "\<not> e \<le> t \<and> future_limit t = Some (t + 300) \<and> e \<le> t + 300"
    if "(if e \<le> now then None else future_limit now) = Some limit" "e \<le> limit" "e = request_expires_at r" for e limit
    using that assms(2-4) by (auto simp: future_limit_Some split: if_splits)
  then show ?thesis
    using assms(1) unfolding parse_request_def
    by (auto simp: bind_eq_Some_conv)
qed

section \<open>Responses\<close>

text \<open>What the verifier checks, once everything is decoded.\<close>

definition endpoint_checked ::
  "'p contact_library \<Rightarrow> contact_network \<Rightarrow> contact_request \<Rightarrow> nat \<Rightarrow> (contact_network \<Rightarrow> string \<Rightarrow> bool) \<Rightarrow>
     nat \<Rightarrow> string \<Rightarrow> contact_endpoint \<Rightarrow> bool" where
  "endpoint_checked lib network request now validate issued signature e \<longleftrightarrow>
     endpoint_network e = wire_name network \<and>
     (request_subject request = None \<or> request_subject request = Some (endpoint_identity e)) \<and>
     0 < endpoint_sequence e \<and> endpoint_sequence e \<le> MAX_SAFE_INTEGER \<and>
     issued < endpoint_expires_at e \<and> endpoint_expires_at e \<le> issued + 300 \<and>
     issued \<le> now + 30 \<and> now < endpoint_expires_at e \<and> endpoint_expires_at e \<le> request_expires_at request \<and>
     valid_address validate network (endpoint_address e) = Some () \<and>
     (\<exists>key. identity lib (endpoint_identity e) = Some key \<and>
        verify_signature lib key (endpoint_payload lib network (endpoint_identity e) request (endpoint_sequence e)
          issued (endpoint_expires_at e) (endpoint_address e)) signature = Some ())"

lemma expected_subject:
  "(\<forall>expected. s = Some expected \<longrightarrow> expected = x) \<longleftrightarrow> s = None \<or> s = Some x"
  by (cases s) auto

lemma nth_list9: "length vs = 9 \<Longrightarrow>
    vs = [vs ! 0, vs ! 1, vs ! 2, vs ! 3, vs ! 4, vs ! 5, vs ! 6, vs ! 7, vs ! 8]"
  using map_nth [of vs] by (simp add: upt_rec [of _ 9] numeral_eq_Suc)

lemma verify_endpoint_sound:
  assumes "verify_endpoint lib network req exch now validate = Some e"
  shows "\<exists>request issued signature. parse_request lib network req now = Some request \<and>
    endpoint_checked lib network request now validate issued signature e"
proof -
  obtain request fields envelope payload signature vs key seq issued expires address subject where
    request: "parse_request lib network req now = Some request"
    and payload: "canonical_json lib payload = Some fields" "array fields 9 = Some vs"
    and vs: "vs ! 0 = JString ENDPOINT_DOMAIN" "vs ! 1 = JString (wire_name network)" "vs ! 2 = JString subject"
      "vs ! 3 = JString (request_audience request)" "vs ! 4 = JString (request_challenge request)"
      "vs ! 5 = JNumber (PosInt seq)" "vs ! 6 = JNumber (PosInt issued)" "vs ! 7 = JNumber (PosInt expires)"
      "vs ! 8 = JString address"
    and checks: "identity lib subject = Some key" "0 < seq" "seq \<le> MAX_SAFE_INTEGER"
      "request_subject request = None \<or> request_subject request = Some subject"
      "issued < expires" "expires \<le> issued + 300" "issued \<le> now + 30" "now < expires"
      "expires \<le> request_expires_at request" "valid_address validate network address = Some ()"
      "verify_signature lib key payload signature = Some ()"
    and e: "e = \<lparr> endpoint_identity = subject, endpoint_address = address, endpoint_sequence = seq,
            endpoint_expires_at = expires, endpoint_network = wire_name network \<rparr>"
    using assms unfolding verify_endpoint_def
    by (auto simp: bind_eq_Some_conv as_str_Some integer_Some expected_subject dest!: checked_sub_SomeD checked_add_SomeD)
  have "fields = JArray [JString ENDPOINT_DOMAIN, JString (wire_name network), JString subject,
      JString (request_audience request), JString (request_challenge request), JNumber (PosInt seq),
      JNumber (PosInt issued), JNumber (PosInt expires), JString address]"
    using payload(2) nth_list9 [of vs] unfolding vs by (simp add: array_Some)
  then have "payload = endpoint_payload lib network subject request seq issued expires address"
    using payload(1) by (simp add: canonical_json_Some endpoint_payload_def)
  then show ?thesis
    using request checks unfolding endpoint_checked_def e
    by (intro exI [of _ request] exI [of _ issued] exI [of _ signature]) simp
qed

lemma response_roundtrip:
  assumes laws: "library_laws lib"
    and sign: "sign_response lib network req secret address seq now validate = Inr exchange"
    and ascii: "is_ascii address"
    and time: "now \<le> t + 30" "t + 300 \<le> MAX_SAFE_INTEGER" "now + 300 \<le> MAX_SAFE_INTEGER"
    and request: "parse_request lib network req now = Some request" "t < request_expires_at request"
      "parse_request lib network req t = Some request"
  shows "verify_endpoint lib network req exchange t validate = Some
    \<lparr> endpoint_identity = key_identity lib secret, endpoint_address = address, endpoint_sequence = seq,
      endpoint_expires_at = request_expires_at request, endpoint_network = wire_name network \<rparr>"
proof -
  let ?subject = "key_identity lib secret"
  let ?expiry = "request_expires_at request"
  let ?fields = "[JString ENDPOINT_DOMAIN, JString (wire_name network), JString ?subject,
       JString (request_audience request), JString (request_challenge request), JNumber (PosInt seq),
       JNumber (PosInt now), JNumber (PosInt ?expiry), JString address]"
  let ?payload = "print_json lib (JArray ?fields)"
  let ?signature = "sign_bytes lib secret ?payload"
  let ?exchange = "JArray [JString EXCHANGE_DOMAIN,
             JArray [JString (encode64 lib ?payload), JString (encode64 lib ?signature)], JNull]"
  note bounds = parse_request_Some [OF request(1)]
  have now: "now < 2 ^ 64" "now \<le> MAX_SAFE_INTEGER" and expiry: "?expiry < 2 ^ 64" "?expiry \<le> now + 300"
    using bounds(4-6) by (simp_all add: MAX_SAFE_INTEGER_def)
  have limit: "future_limit now = Some (now + 300)"
    using time by (simp add: future_limit_Some)
  have seq: "0 < seq" "seq \<le> MAX_SAFE_INTEGER" "seq < 2 ^ 64"
    and subject: "request_subject request = None \<or> request_subject request = Some ?subject"
    and address: "valid_address validate network address = Some ()"
    and signature: "verify_signature lib (public_key lib secret) ?payload ?signature = Some ()"
    and exchange: "exchange = print_json lib ?exchange"
    using sign request(1) limit expiry(2)
    by (auto simp: sign_response_def inspect_request_def Let_def endpoint_payload_def min_absorb1 and_then_eq_Inr
        ok_or_eq_Inr MAX_SAFE_INTEGER_def expected_subject split: if_splits)
  obtain akey where akey: "identity lib (request_audience request) = Some akey" using bounds(2) by blast
  obtain nonce where nonce: "fixed lib 32 (request_challenge request) = Some nonce" using bounds(3) by blast
  have challenge: "list_all url_safe (request_challenge request)" "length (request_challenge request) \<le> 64"
    using nonce laws_base64(4) [OF laws, of nonce] by (auto simp: fixed_Some decode_Some)
  have domains: "is_ascii ENDPOINT_DOMAIN" "sum_list (map char_size ENDPOINT_DOMAIN) = 22"
    "is_ascii EXCHANGE_DOMAIN" "sum_list (map char_size EXCHANGE_DOMAIN) = 22"
    by (simp_all add: ENDPOINT_DOMAIN_def EXCHANGE_DOMAIN_def is_ascii_def char_size_def)
  have plain: "plain_json 8 (JArray ?fields)"
    using wire_name_text(1) key_identity_text(1) [OF laws] identity_text(1) [OF laws akey]
      url_safe_ascii [OF challenge(1)] now(1) seq(3) expiry(1) ascii domains
    by (simp add: plain_json_array)
  have "length address \<le> 512" using address by (simp add: valid_address_def)
  then have size_of: "json_size (JArray ?fields) \<le> 3500"
    using wire_name_text(2) [of network] key_identity_text(2) [OF laws, of secret] identity_text(2) [OF laws akey]
      url_safe_size [OF challenge(1)] challenge(2) domains char_sizes [of address]
    by simp
  then have len: "length ?payload \<le> 3500" using laws_size [OF laws plain] by simp
  have canonical_payload: "canonical_json lib ?payload = Some (JArray ?fields)"
    using size_of by (intro canonical_json_printed [OF laws plain]) (simp add: MAX_INPUT_BYTES_def)
  have "?payload \<noteq> []" by (rule laws_nonempty [OF laws plain])
  then have payload: "decode lib (encode64 lib ?payload) = Some ?payload"
    using len by (intro decode_encoded [OF laws]) simp_all
  have "?signature \<noteq> []" using laws_lengths(2) [OF laws, of secret ?payload] by auto
  then have sig: "fixed lib 64 (encode64 lib ?signature) = Some ?signature"
    using decode_encoded [OF laws, of ?signature] laws_lengths(2) [OF laws] by (simp add: fixed_Some)
  have "plain_json 8 ?exchange"
    using url_safe_ascii [OF laws_base64(2) [OF laws]] domains by (simp add: plain_json_array)
  moreover have "json_size ?exchange \<le> MAX_INPUT_BYTES"
    using url_safe_size [OF laws_base64(2) [OF laws]] laws_base64(4) [OF laws, of ?payload] len
      laws_base64(4) [OF laws, of ?signature] laws_lengths(2) [OF laws, of secret ?payload] domains
    by (simp add: MAX_INPUT_BYTES_def)
  ultimately have canonical_exchange: "canonical_json lib exchange = Some ?exchange"
    unfolding exchange by (intro canonical_json_printed [OF laws])
  have key: "identity lib ?subject = Some (public_key lib secret)"
    using identity_key_identity [OF laws] signature by (auto simp: verify_signature_def bind_eq_Some_conv)
  show ?thesis
    unfolding verify_endpoint_def
    using request(3) canonical_exchange payload sig canonical_payload key signature address subject seq expiry now bounds(4-6)
      request(2) time
    by (auto simp: bind_eq_Some_conv as_str_Some integer_Some array_Some checked_sub_def checked_add_def
        MAX_SAFE_INTEGER_def)
qed

end
