(* ===== verification/IntroductionsCorrect.thy ===== *)
theory IntroductionsCorrect
  imports ContactsCorrect
begin

text \<open>
  What an introduction promises: whoever accepts a packet has checked a signature over exactly the
  contents it returns, and what Carol gets at the end is what Bob consented to at the start.
\<close>

section \<open>Signatures\<close>

definition signed_by :: "'p contact_library \<Rightarrow> string \<Rightarrow> json list \<Rightarrow> bool" where
  "signed_by lib signer payload \<longleftrightarrow>
     (\<exists>key signature. identity lib signer = Some key \<and>
        verify_signature lib key (print_json lib (JArray payload)) signature = Some ())"

lemma envelope_parse_Some:
  "envelope_parse lib v = Some env \<Longrightarrow> envelope_payload env = print_json lib (envelope_fields env)"
  by (auto simp: envelope_parse_def from_utf8_def canonical_Some canonical_json_Some bind_eq_Some_conv split: if_splits)

lemma envelope_signed:
  assumes "envelope_parse lib v = Some env" "envelope_verify lib env signer = Some ()"
    "array (envelope_fields env) n = Some vs"
  shows "signed_by lib signer vs"
  using assms envelope_parse_Some [OF assms(1)]
  by (auto simp: signed_by_def envelope_verify_def array_Some bind_eq_Some_conv)

lemma envelope_parse_signed_value:
  assumes "library_laws lib" "plain_json 8 payload" "envelope_parse lib (signed_value lib payload key) = Some env"
  shows "envelope_fields env = payload"
proof -
  let ?bs = "print_json lib payload"
  have decoded: "decode lib (encode64 lib ?bs) = Some (envelope_payload env)"
    and fields: "canonical lib (envelope_payload env) = Some (envelope_fields env)"
    using assms(3)
    by (auto simp: envelope_parse_def signed_value_def Let_def array_Some as_str_Some from_utf8_def bind_eq_Some_conv
        split: if_splits)
  have "decode64 lib (encode64 lib ?bs) = Some (envelope_payload env)"
    using decoded unfolding decode_Some by (elim conjE)
  then have "envelope_payload env = ?bs"
    unfolding laws_base64(1) [OF assms(1)] by (rule option.inject [THEN iffD1, symmetric])
  with fields have "parse_json lib ?bs = Some (envelope_fields env)"
    unfolding canonical_Some canonical_json_Some by (elim conjE) (simp only:)
  then show ?thesis
    unfolding laws_parse [OF assms(1,2)] by (rule option.inject [THEN iffD1, symmetric])
qed

section \<open>Pieces\<close>

lemma list_of_nths:
  "length vs = 3 \<Longrightarrow> vs = [vs ! 0, vs ! 1, vs ! 2]"
  "length vs = 4 \<Longrightarrow> vs = [vs ! 0, vs ! 1, vs ! 2, vs ! 3]"
  "length vs = 5 \<Longrightarrow> vs = [vs ! 0, vs ! 1, vs ! 2, vs ! 3, vs ! 4]"
  "length vs = 6 \<Longrightarrow> vs = [vs ! 0, vs ! 1, vs ! 2, vs ! 3, vs ! 4, vs ! 5]"
  using map_nth [of vs] by (simp_all add: upt_rec numeral_eq_Suc)

lemma suggestion_Some:
  "suggestion v = Some s \<Longrightarrow> v = JString s \<and> s \<noteq> [] \<and> length s \<le> 20"
  by (auto simp: suggestion_def as_str_Some bind_eq_Some_conv)

lemma offer_Some:
  assumes "offer lib v hash signer recipient = Some s"
  shows "signed_by lib signer [JString ''zcash-contact/intro-offer'', JString hash, JString recipient, JString s]"
proof -
  obtain env vs where env: "envelope_parse lib v = Some env" "array (envelope_fields env) 4 = Some vs"
      "envelope_verify lib env signer = Some ()"
    and vs: "vs ! 0 = JString ''zcash-contact/intro-offer''" "vs ! 1 = JString hash" "vs ! 2 = JString recipient"
      "vs ! 3 = JString s"
    using assms by (auto simp: offer_def bind_eq_Some_conv dest!: suggestion_Some)
  have "length vs = 4" using env(2) by (simp add: array_Some)
  from list_of_nths(2) [OF this] show ?thesis
    using envelope_signed [OF env(1,3,2)] unfolding vs by simp
qed

definition endpoint_fields :: "contact_network \<Rightarrow> string \<Rightarrow> string \<Rightarrow> string \<Rightarrow> json list" where
  "endpoint_fields network hash subject address =
     [JString ''zcash-contact/intro-endpoint'', JString (wire_name network), JString hash, JString subject,
      JNumber (PosInt 1), JString address]"

lemma endpoint_Some:
  assumes "endpoint lib v hash network peer own validate = Some (subject, address)"
  shows "signed_by lib subject (endpoint_fields network hash subject address) \<and> subject \<noteq> peer \<and> subject \<noteq> own \<and>
    valid_address validate network address = Some () \<and>
    (\<exists>env. envelope_parse lib v = Some env \<and> envelope_fields env = JArray (endpoint_fields network hash subject address))"
proof -
  obtain env vs where env: "envelope_parse lib v = Some env" "array (envelope_fields env) 6 = Some vs"
      "envelope_verify lib env subject = Some ()"
    and vs: "vs ! 0 = JString ''zcash-contact/intro-endpoint''" "vs ! 1 = JString (wire_name network)"
      "vs ! 2 = JString hash" "vs ! 3 = JString subject" "vs ! 4 = JNumber (PosInt 1)" "vs ! 5 = JString address"
    and checks: "subject \<noteq> peer" "subject \<noteq> own" "valid_address validate network address = Some ()"
    using assms by (auto simp: endpoint_def as_str_Some integer_Some bind_eq_Some_conv)
  have "length vs = 6" using env(2) by (simp add: array_Some)
  from list_of_nths(4) [OF this] have "vs = endpoint_fields network hash subject address"
    unfolding vs endpoint_fields_def .
  then show ?thesis
    using envelope_signed [OF env(1,3,2)] env(1,2) checks by (auto simp: array_Some)
qed

lemma intro_request_Some:
  assumes "intro_request lib v network now = Some hash"
  shows "hash = digest lib v \<and> (\<exists>expires. json_at v 4 = JNumber (PosInt expires) \<and> now < expires)"
  using assms
  by (auto simp: intro_request_def as_str_Some integer_Some array_Some json_at_def bind_eq_Some_conv split: if_splits)

lemma intro_request_plain:
  assumes "intro_request lib v network now = Some hash" "valid_json v"
  shows "plain_json 1 v"
proof -
  obtain vs where v: "v = JArray vs" "length vs = 5"
    and parts: "\<exists>s. vs ! 0 = JString s" "\<exists>s. vs ! 1 = JString s" "\<exists>s. vs ! 2 = JString s"
      "\<exists>n. vs ! 3 = JNumber (PosInt n)" "\<exists>n. vs ! 4 = JNumber (PosInt n)"
    using assms(1) by (auto simp: intro_request_def as_str_Some integer_Some array_Some bind_eq_Some_conv)
  have "plain_json 0 x" if "x \<in> set vs" for x
  proof -
    have "valid_json x" using assms(2) v that by simp
    moreover have "x \<in> {vs ! 0, vs ! 1, vs ! 2, vs ! 3, vs ! 4}"
      using that by (subst (asm) list_of_nths(3) [OF v(2)]) auto
    ultimately show ?thesis using parts by auto
  qed
  then show ?thesis using v by (simp add: plain_json_array)
qed

lemma digest_text:
  assumes "library_laws lib"
  shows "is_ascii (digest lib v)"
  unfolding digest_def by (rule url_safe_ascii [OF laws_base64(2) [OF assms]])

section \<open>Verified packets\<close>

lemma verify_Some:
  assumes "verify lib r network peer own saved_request saved_offer packet now validate = Inr v"
  shows "\<exists>p hash. paired lib peer own = Some () \<and> canonical lib packet = Some (JArray p) \<and>
    length p = snd (package r) \<and> p ! 0 = JString (fst (package r)) \<and>
    intro_request lib (p ! 1) network now = Some hash \<and> request_hash v = hash \<and>
    packet_json v = packet \<and> request_json v = print_json lib (p ! 1)"
  using assms unfolding verify_def verify_inner_def
  by (cases r) (auto simp: ok_or_eq_Inr bind_eq_Some_conv array_Some Let_def verify_ask_def verify_offer_def
      verify_consent_def verify_delivery_def)

lemma verify_offer_Some:
  assumes "verify lib Offer network peer own saved_request saved_offer packet now validate = Inr v"
  shows "\<exists>p1 o_value s. canonical lib packet = Some (JArray [JString ''zcash-contact/intro-offer-package'', p1, o_value]) \<and>
    intro_request lib p1 network now = Some (request_hash v) \<and> request_json v = print_json lib p1 \<and>
    offer lib o_value (request_hash v) peer own = Some s \<and> offer_json v = Some (print_json lib o_value) \<and>
    verified_suggestion v = Some s"
proof -
  obtain p hash s where p: "canonical lib packet = Some (JArray p)" "length p = 3"
    "p ! 0 = JString ''zcash-contact/intro-offer-package''" "intro_request lib (p ! 1) network now = Some hash"
    "offer lib (p ! 2) hash peer own = Some s"
    "request_hash v = hash" "request_json v = print_json lib (p ! 1)" "offer_json v = Some (print_json lib (p ! 2))"
    "verified_suggestion v = Some s"
    using assms unfolding verify_def verify_inner_def
    by (auto simp: ok_or_eq_Inr bind_eq_Some_conv array_Some Let_def verify_offer_def package_def)
  then show ?thesis
    using list_of_nths(1) [OF p(2)] by (intro exI [of _ "p ! 1"] exI [of _ "p ! 2"] exI [of _ s]) auto
qed

text \<open>The contents of an accepted consent, with the endpoint \<open>e\<close> it carries.\<close>

lemma verify_consent_Some:
  assumes "verify lib Consent network peer own (Some req) (Some off) packet now validate = Inr v"
  shows "\<exists>p1 e b off_value subject address.
    canonical lib packet = Some (JArray [JString ''zcash-contact/intro-consent-package'', p1, e, b]) \<and>
    canonical lib req = Some p1 \<and> canonical lib off = Some off_value \<and>
    intro_request lib p1 network now = Some (request_hash v) \<and> request_json v = print_json lib p1 \<and>
    (\<exists>s. offer lib off_value (request_hash v) own peer = Some s) \<and>
    signed_by lib peer [JString ''zcash-contact/intro-consent'', JString (request_hash v),
      JString (digest lib off_value), JString (digest lib e)] \<and>
    endpoint lib e (request_hash v) network peer own validate = Some (subject, address) \<and>
    verified_identity v = Some subject \<and> verified_address v = Some address \<and> verified_sequence v = Some 1 \<and>
    endpoint_json v = Some (print_json lib e) \<and> packet_json v = packet"
proof -
  obtain p hash off_value s env b subject address where
    p: "canonical lib packet = Some (JArray p)" "length p = 4" "p ! 0 = JString ''zcash-contact/intro-consent-package''"
      "intro_request lib (p ! 1) network now = Some hash"
    and saved: "canonical lib req = Some (p ! 1)" "canonical lib off = Some off_value"
      "offer lib off_value hash own peer = Some s"
    and env: "envelope_parse lib (p ! 3) = Some env" "array (envelope_fields env) 4 = Some b"
      "envelope_verify lib env peer = Some ()"
    and b: "b ! 0 = JString ''zcash-contact/intro-consent''" "b ! 1 = JString hash"
      "b ! 2 = JString (digest lib off_value)" "b ! 3 = JString (digest lib (p ! 2))"
    and e: "endpoint lib (p ! 2) hash network peer own validate = Some (subject, address)"
    and v: "request_hash v = hash" "request_json v = print_json lib (p ! 1)" "verified_identity v = Some subject"
      "verified_address v = Some address" "verified_sequence v = Some 1"
      "endpoint_json v = Some (print_json lib (p ! 2))" "packet_json v = packet"
    using assms unfolding verify_def verify_inner_def
    by (auto simp: ok_or_eq_Inr bind_eq_Some_conv array_Some Let_def verify_consent_def package_def)
  have "length b = 4" using env(2) by (simp add: array_Some)
  from list_of_nths(2) [OF this]
  have "signed_by lib peer [JString ''zcash-contact/intro-consent'', JString hash,
      JString (digest lib off_value), JString (digest lib (p ! 2))]"
    using envelope_signed [OF env(1,3,2)] unfolding b by simp
  then have signed: "signed_by lib peer [JString ''zcash-contact/intro-consent'', JString hash,
      JString (digest lib off_value), JString (digest lib (p ! 2))]" .
  have packet: "canonical lib packet
      = Some (JArray [JString ''zcash-contact/intro-consent-package'', p ! 1, p ! 2, p ! 3])"
    using p(1,3) list_of_nths(2) [OF p(2)] by simp
  show ?thesis
    unfolding v(1)
    by (intro exI conjI, rule packet, rule saved(1), rule saved(2), rule p(4), rule v(2), rule saved(3), rule signed,
        rule e) (rule v(3-7))+
qed

lemma verify_delivery_Some:
  assumes "verify lib Delivery network peer own (Some req) None packet now validate = Inr v"
  shows "\<exists>p1 e a s subject address env.
    canonical lib packet = Some (JArray [JString ''zcash-contact/intro-delivery'', p1, e, a]) \<and>
    canonical lib req = Some p1 \<and>
    intro_request lib p1 network now = Some (request_hash v) \<and> request_json v = print_json lib p1 \<and>
    envelope_parse lib a = Some env \<and> envelope_fields env = JArray [JString ''zcash-contact/intro-endorsement'',
      JString (wire_name network), JString (request_hash v), JString (digest lib e), JString s] \<and>
    signed_by lib peer [JString ''zcash-contact/intro-endorsement'', JString (wire_name network),
      JString (request_hash v), JString (digest lib e), JString s] \<and>
    endpoint lib e (request_hash v) network peer own validate = Some (subject, address) \<and>
    verified_identity v = Some subject \<and> verified_address v = Some address \<and> verified_suggestion v = Some s \<and>
    endpoint_json v = Some (print_json lib e)"
proof -
  obtain p hash s env a subject address where
    p: "canonical lib packet = Some (JArray p)" "length p = 4" "p ! 0 = JString ''zcash-contact/intro-delivery''"
      "intro_request lib (p ! 1) network now = Some hash"
    and saved: "canonical lib req = Some (p ! 1)"
    and env: "envelope_parse lib (p ! 3) = Some env" "array (envelope_fields env) 5 = Some a"
      "envelope_verify lib env peer = Some ()"
    and a: "a ! 0 = JString ''zcash-contact/intro-endorsement''" "a ! 1 = JString (wire_name network)"
      "a ! 2 = JString hash" "a ! 3 = JString (digest lib (p ! 2))" "a ! 4 = JString s"
    and e: "endpoint lib (p ! 2) hash network peer own validate = Some (subject, address)"
    and v: "request_hash v = hash" "request_json v = print_json lib (p ! 1)" "verified_identity v = Some subject"
      "verified_address v = Some address" "verified_suggestion v = Some s"
      "endpoint_json v = Some (print_json lib (p ! 2))"
    using assms unfolding verify_def verify_inner_def
    by (auto simp: ok_or_eq_Inr bind_eq_Some_conv array_Some Let_def verify_delivery_def package_def
        dest!: suggestion_Some)
  have "length a = 5" using env(2) by (simp add: array_Some)
  from list_of_nths(3) [OF this]
  have a_eq: "a = [JString ''zcash-contact/intro-endorsement'', JString (wire_name network), JString hash,
      JString (digest lib (p ! 2)), JString s]" unfolding a .
  have signed: "signed_by lib peer a" by (rule envelope_signed [OF env(1,3,2)])
  have fields: "envelope_fields env = JArray a" using env(2) by (simp add: array_Some)
  have packet: "canonical lib packet = Some (JArray [JString ''zcash-contact/intro-delivery'', p ! 1, p ! 2, p ! 3])"
    using p(1,3) list_of_nths(2) [OF p(2)] by simp
  show ?thesis
    unfolding v(1)
    by (intro exI conjI, rule packet, rule saved, rule p(4), rule v(2), rule env(1), rule fields [unfolded a_eq],
        rule signed [unfolded a_eq], rule e) (rule v(3-6))+
qed

section \<open>From consent to delivery\<close>

lemma parsed_back:
  assumes "library_laws lib" "plain_json 8 v" "canonical lib (print_json lib v) = Some w"
  shows "w = v"
  using assms(3) unfolding canonical_Some canonical_json_Some laws_parse [OF assms(1,2)]
  by (elim conjE) (rule option.inject [THEN iffD1, symmetric])

lemma signed_value_plain:
  assumes "library_laws lib"
  shows "plain_json 7 (signed_value lib payload key)"
  by (simp add: signed_value_def Let_def plain_json_array url_safe_ascii [OF laws_base64(2) [OF assms]])

lemma endpoint_of_signed:
  assumes "library_laws lib" "plain_json 8 (JArray (endpoint_fields n h s a))"
    and "endpoint lib (signed_value lib (JArray (endpoint_fields n h s a)) key) h' n' peer own validate = Some (s', a')"
  shows "s' = s \<and> a' = a"
proof -
  obtain env where "envelope_parse lib (signed_value lib (JArray (endpoint_fields n h s a)) key) = Some env"
    "envelope_fields env = JArray (endpoint_fields n' h' s' a')"
    using endpoint_Some [OF assms(3)] by blast
  then show ?thesis
    using envelope_parse_signed_value [OF assms(1,2)] by (simp add: endpoint_fields_def)
qed

lemma packet_plain:
  assumes "library_laws lib" "plain_json 1 r" "is_ascii domain"
  shows "plain_json 8 (JArray [JString domain, r, signed_value lib p1 k1, signed_value lib p2 k2])"
  using assms plain_json_mono [OF assms(2), of 7] signed_value_plain [OF assms(1)] by (simp add: plain_json_array)

lemma request_plain:
  assumes "library_laws lib" "canonical lib packet = Some (JArray vs)" "r \<in> set vs"
    "intro_request lib r network now = Some hash"
  shows "plain_json 1 r"
proof -
  have "valid_json (JArray vs)"
    using assms(2) laws_valid [OF assms(1), of packet "JArray vs"] by (simp add: canonical_Some canonical_json_Some)
  then show ?thesis using intro_request_plain [OF assms(4)] assms(3) by simp
qed

lemma consent_packet:
  assumes laws: "library_laws lib" and ascii: "is_ascii address"
    and made: "create_consent lib network ab ba_secret bc_secret address offer_packet now validate = Inr consent"
  obtains r h b where
    "canonical lib (packet_json consent) = Some (JArray [JString ''zcash-contact/intro-consent-package'', r,
       signed_value lib (JArray (endpoint_fields network h (key_identity lib bc_secret) address)) bc_secret, b])"
    "plain_json 1 r" "plain_json 8 (JArray (endpoint_fields network h (key_identity lib bc_secret) address))"
    "request_json consent = print_json lib r"
    "verified_identity consent = Some (key_identity lib bc_secret)" "verified_address consent = Some address"
proof -
  let ?ba = "key_identity lib ba_secret"
  obtain seen r offer_text o_value where
    seen: "verify lib Offer network ab ?ba None None offer_packet now validate = Inr seen"
    and r: "canonical lib (request_json seen) = Some r"
    and final: "\<And>e b packet.
       e = signed_value lib (JArray (endpoint_fields network (request_hash seen) (key_identity lib bc_secret) address))
         bc_secret \<Longrightarrow>
       b = signed_value lib (JArray [JString ''zcash-contact/intro-consent'', JString (digest lib r),
           JString (digest lib o_value), JString (digest lib e)]) ba_secret \<Longrightarrow>
       packet = print_json lib (JArray [JString ''zcash-contact/intro-consent-package'', r, e, b]) \<Longrightarrow>
       verify lib Consent network ?ba ab (Some (request_json seen)) (Some offer_text) packet now validate = Inr consent"
    using made
    by (auto simp: create_consent_def signing_key_def intro_ok_def and_then_eq_Inr ok_or_eq_Inr Let_def
        endpoint_fields_def split: if_splits)
  obtain p1 o1 where p1: "canonical lib offer_packet = Some (JArray [JString ''zcash-contact/intro-offer-package'', p1, o1])"
      "intro_request lib p1 network now = Some (request_hash seen)" "request_json seen = print_json lib p1"
    using verify_offer_Some [OF seen] by blast
  have plain: "plain_json 1 p1" by (rule request_plain [OF laws p1(1) _ p1(2)]) simp
  then have r_eq: "r = p1"
    using parsed_back [OF laws plain_json_mono] r p1(3) by simp
  let ?payload = "JArray (endpoint_fields network (request_hash seen) (key_identity lib bc_secret) address)"
  let ?e = "signed_value lib ?payload bc_secret"
  let ?b = "signed_value lib (JArray [JString ''zcash-contact/intro-consent'', JString (digest lib r),
           JString (digest lib o_value), JString (digest lib ?e)]) ba_secret"
  let ?v = "JArray [JString ''zcash-contact/intro-consent-package'', r, ?e, ?b]"
  have hash: "request_hash seen = digest lib p1" using intro_request_Some [OF p1(2)] by simp
  have payload: "plain_json 8 ?payload"
    using wire_name_text(1) key_identity_text(1) [OF laws] digest_text [OF laws] ascii
    by (simp add: plain_json_array endpoint_fields_def hash is_ascii_def)
  have v: "plain_json 8 ?v"
    using plain r_eq by (intro packet_plain [OF laws]) (simp_all add: is_ascii_def)
  have verified: "verify lib Consent network ?ba ab (Some (request_json seen)) (Some offer_text) (print_json lib ?v) now
      validate = Inr consent" by (rule final [OF refl refl refl])
  obtain p2 e2 b2 h2 subject a2 where c: "canonical lib (print_json lib ?v)
        = Some (JArray [JString ''zcash-contact/intro-consent-package'', p2, e2, b2])"
      "endpoint lib e2 h2 network ?ba ab validate = Some (subject, a2)" "request_json consent = print_json lib p2"
      "verified_identity consent = Some subject" "verified_address consent = Some a2"
      "packet_json consent = print_json lib ?v"
    using verify_consent_Some [OF verified] by blast
  have eqs: "p2 = r" "e2 = ?e" "b2 = ?b" using parsed_back [OF laws v c(1)] by simp_all
  have "subject = key_identity lib bc_secret \<and> a2 = address"
    using endpoint_of_signed [OF laws payload] c(2) unfolding eqs by blast
  then show thesis
    using that [of r "request_hash seen" ?b] c(1,3-6) plain r_eq payload unfolding eqs by simp
qed

lemma delivered_as_consented:
  assumes laws: "library_laws lib" and ascii: "is_ascii address" "is_ascii suggested"
    and consent: "create_consent lib network ab ba_secret bc_secret address offer_packet now validate = Inr consent"
    and delivery: "create_delivery lib network ba own_ab ca ac_secret req off (packet_json consent) suggested now' validate'
      = Inr delivered"
  shows "verified_identity delivered = Some (key_identity lib bc_secret) \<and>
    verified_address delivered = Some address \<and> verified_suggestion delivered = Some suggested \<and>
    request_json delivered = request_json consent"
proof -
  obtain r h b where packet: "canonical lib (packet_json consent)
        = Some (JArray [JString ''zcash-contact/intro-consent-package'', r,
       signed_value lib (JArray (endpoint_fields network h (key_identity lib bc_secret) address)) bc_secret, b])"
    and r: "plain_json 1 r" and payload: "plain_json 8 (JArray (endpoint_fields network h (key_identity lib bc_secret) address))"
    and req: "request_json consent = print_json lib r"
    by (rule consent_packet [OF laws ascii(1) consent])
  let ?e = "signed_value lib (JArray (endpoint_fields network h (key_identity lib bc_secret) address)) bc_secret"
  let ?ac = "key_identity lib ac_secret"
  obtain seen r2 e2 endpoint_text where
    seen: "verify lib Consent network ba own_ab (Some req) (Some off) (packet_json consent) now' validate' = Inr seen"
    and r2: "canonical lib (request_json seen) = Some r2"
    and e2: "endpoint_json seen = Some endpoint_text" "canonical lib endpoint_text = Some e2"
    and final: "\<And>a packet.
       a = signed_value lib (JArray [JString ''zcash-contact/intro-endorsement'', JString (wire_name network),
           JString (digest lib r2), JString (digest lib e2), JString suggested]) ac_secret \<Longrightarrow>
       packet = print_json lib (JArray [JString ''zcash-contact/intro-delivery'', r2, e2, a]) \<Longrightarrow>
       verify lib Delivery network ?ac ca (Some req) None packet now' validate' = Inr delivered"
    using delivery
    by (auto simp: create_delivery_def signing_key_def intro_ok_def and_then_eq_Inr ok_or_eq_Inr Let_def
        bind_eq_Some_conv split: if_splits)
  have "request_json seen = print_json lib r \<and> endpoint_json seen = Some (print_json lib ?e)"
    using verify_consent_Some [OF seen] packet by auto
  then have eqs: "r2 = r" "e2 = ?e"
    using parsed_back [OF laws plain_json_mono [OF r]] r2 parsed_back [OF laws plain_json_mono [OF signed_value_plain [OF laws]]]
      e2 by simp_all
  let ?endorsed = "JArray [JString ''zcash-contact/intro-endorsement'', JString (wire_name network),
           JString (digest lib r), JString (digest lib ?e), JString suggested]"
  let ?a = "signed_value lib ?endorsed ac_secret"
  let ?v = "JArray [JString ''zcash-contact/intro-delivery'', r, ?e, ?a]"
  have v: "plain_json 8 ?v" by (intro packet_plain [OF laws r]) (simp add: is_ascii_def)
  have endorsed: "plain_json 8 ?endorsed"
    using wire_name_text(1) digest_text [OF laws] ascii(2)
    by (simp add: plain_json_array is_ascii_def)
  have verified: "verify lib Delivery network ?ac ca (Some req) None (print_json lib ?v) now' validate' = Inr delivered"
    by (rule final) (simp_all only: eqs)
  obtain p3 e3 a3 s subject address3 env h3 where d: "canonical lib (print_json lib ?v)
        = Some (JArray [JString ''zcash-contact/intro-delivery'', p3, e3, a3])"
      "request_json delivered = print_json lib p3" "envelope_parse lib a3 = Some env"
      "envelope_fields env = JArray [JString ''zcash-contact/intro-endorsement'', JString (wire_name network),
        JString (request_hash delivered), JString (digest lib e3), JString s]"
      "endpoint lib e3 h3 network ?ac ca validate' = Some (subject, address3)"
      "verified_identity delivered = Some subject" "verified_address delivered = Some address3"
      "verified_suggestion delivered = Some s"
    using verify_delivery_Some [OF verified] by blast
  have parts: "p3 = r" "e3 = ?e" "a3 = ?a" using parsed_back [OF laws v d(1)] by simp_all
  have "subject = key_identity lib bc_secret \<and> address3 = address"
    using endpoint_of_signed [OF laws payload] d(5) unfolding parts by blast
  moreover have "s = suggested"
    using envelope_parse_signed_value [OF laws endorsed] d(3,4) unfolding parts by simp
  ultimately show ?thesis using d(2,6-8) req unfolding parts by simp
qed

end
