(* ===== verification/ContactExample.thy ===== *)
theory ContactExample
  imports IntroductionsCorrect "HOL-Library.Code_Target_Nat"
begin

text \<open>
  A library that satisfies \<open>library_laws\<close>, to run the exchange on: a prefix code for JSON, a
  two-characters-per-byte code for base64, and signatures that name the key and the end of the message.
\<close>

section \<open>A JSON code\<close>

definition example_escape :: "char \<Rightarrow> string" where
  "example_escape c = (if char_size c = 1 then [c] else [CHR 0x5C, c])"

fun example_number :: "nat \<Rightarrow> nat \<Rightarrow> string" where
  "example_number 0 n = []"
| "example_number (Suc k) n = char_of (65 + n mod 16) # example_number k (n div 16)"

fun example_print :: "json \<Rightarrow> string" where
  "example_print JNull = ''n''"
| "example_print (JBool b) = (if b then ''t'' else ''f'')"
| "example_print (JNumber n) = (case n of PosInt k \<Rightarrow> CHR ''#'' # example_number 16 k | _ \<Rightarrow> ''x'')"
| "example_print (JString s) = CHR 0x22 # concat (map example_escape s) @ [CHR 0x22]"
| "example_print (JArray vs) = CHR ''['' # concat (map example_print vs) @ '']''"
| "example_print (JObject kvs) = ''x''"

fun example_unescape :: "string \<Rightarrow> (string \<times> string) option" where
  "example_unescape [] = None"
| "example_unescape [c] = (if c = CHR 0x22 then Some ([], []) else None)"
| "example_unescape (c # d # cs) =
     (if c = CHR 0x22 then Some ([], d # cs)
      else if c = CHR 0x5C then map_option (\<lambda>(s, r). (d # s, r)) (example_unescape cs)
      else map_option (\<lambda>(s, r). (c # s, r)) (example_unescape (d # cs)))"

definition example_read :: "string \<Rightarrow> nat" where
  "example_read s = foldr (\<lambda>c n. (of_char c - 65) + 16 * n) s 0"

fun example_parse :: "nat \<Rightarrow> string \<Rightarrow> (json \<times> string) option"
  and example_items :: "nat \<Rightarrow> string \<Rightarrow> (json list \<times> string) option" where
  "example_parse 0 s = None"
| "example_parse (Suc k) s = (case s of
      [] \<Rightarrow> None
    | c # cs \<Rightarrow>
        if c = CHR ''n'' then Some (JNull, cs)
        else if c = CHR ''t'' then Some (JBool True, cs)
        else if c = CHR ''f'' then Some (JBool False, cs)
        else if c = CHR ''#'' then Some (JNumber (PosInt (example_read (take 16 cs))), drop 16 cs)
        else if c = CHR 0x22 then map_option (\<lambda>(s, r). (JString s, r)) (example_unescape cs)
        else if c = CHR ''['' then map_option (\<lambda>(vs, r). (JArray vs, r)) (example_items k cs)
        else None)"
| "example_items 0 s = None"
| "example_items (Suc k) s = (case s of
      [] \<Rightarrow> None
    | c # cs \<Rightarrow>
        if c = CHR '']'' then Some ([], cs)
        else (case example_parse k s of
                None \<Rightarrow> None
              | Some (v, r) \<Rightarrow> map_option (\<lambda>(vs, r'). (v # vs, r')) (example_items k r)))"

lemma length_example_number [simp]: "length (example_number k n) = k"
  by (induction k arbitrary: n) simp_all

lemma example_read_number: "example_read (example_number k n) = n mod 16 ^ k"
proof (induction k arbitrary: n)
  case (Suc k)
  have "(of_char (char_of (65 + n mod 16) :: char) :: nat) = 65 + n mod 16" by (simp add: take_bit_nat_eq_self)
  then show ?case using Suc [of "n div 16"] by (simp add: example_read_def mod_mult2_eq)
qed (simp add: example_read_def)

lemma example_unescape_escaped:
  "example_unescape (concat (map example_escape s) @ CHR 0x22 # rest) = Some (s, rest)"
proof (induction s)
  case Nil
  then show ?case by (cases rest) simp_all
next
  case (Cons c s)
  obtain d ds where d: "concat (map example_escape s) @ CHR 0x22 # rest = d # ds"
    by (cases "concat (map example_escape s) @ CHR 0x22 # rest") auto
  have simple: "c \<noteq> CHR 0x22 \<and> c \<noteq> CHR 0x5C" if "char_size c = 1"
    using that by (auto simp: char_size_def)
  show ?case
    using Cons d simple by (cases "char_size c = 1") (auto simp: example_escape_def [of c])
qed

fun example_cost :: "json \<Rightarrow> nat" where
  "example_cost (JArray vs) = 2 + sum_list (map example_cost vs)"
| "example_cost v = 1"

lemma example_print_start: "plain_json d v \<Longrightarrow> \<exists>c cs. example_print v = c # cs \<and> c \<noteq> CHR '']''"
  by (cases v) (auto split: json_number.splits)

lemma example_items_printed:
  assumes "\<And>v rest k. v \<in> set vs \<Longrightarrow> example_cost v \<le> k \<Longrightarrow> example_parse k (example_print v @ rest) = Some (v, rest)"
    and "\<forall>v \<in> set vs. 1 \<le> example_cost v \<and> (\<exists>c cs. example_print v = c # cs \<and> c \<noteq> CHR '']'')"
    and "1 + sum_list (map example_cost vs) \<le> k"
  shows "example_items k (concat (map example_print vs) @ CHR '']'' # rest) = Some (vs, rest)"
  using assms
proof (induction vs arbitrary: k)
  case Nil
  then show ?case by (cases k) auto
next
  case (Cons v vs)
  obtain m where k: "k = Suc m" using Cons.prems(3) by (cases k) auto
  obtain c cs where c: "example_print v = c # cs" "c \<noteq> CHR '']''" using Cons.prems(2) by auto
  have "example_parse m (example_print v @ concat (map example_print vs) @ CHR '']'' # rest)
      = Some (v, concat (map example_print vs) @ CHR '']'' # rest)"
    by (rule Cons.prems(1)) (use Cons.prems(3) k in auto)
  moreover have "example_items m (concat (map example_print vs) @ CHR '']'' # rest) = Some (vs, rest)"
    by (rule Cons.IH) (use Cons.prems k in auto)
  ultimately show ?case using c by (simp add: k)
qed

lemma example_cost_pos: "1 \<le> example_cost v"
  by (cases v) auto

lemma example_parse_printed:
  "plain_json d v \<Longrightarrow> example_cost v \<le> k \<Longrightarrow> example_parse k (example_print v @ rest) = Some (v, rest)"
proof (induction v arbitrary: d k rest)
  case (JNumber n)
  then obtain m i where "k = Suc m" "n = PosInt i" "i < 2 ^ 64"
    by (cases k) (auto split: json_number.splits)
  moreover from this have "example_read (example_number 16 i) = i" by (simp add: example_read_number)
  ultimately show ?case by simp
next
  case (JString s)
  then show ?case using example_unescape_escaped [of s rest] by (cases k) auto
next
  case (JArray vs)
  obtain e where e: "d = Suc e" using JArray.prems(1) by (cases d) auto
  obtain m where k: "k = Suc m" using JArray.prems(2) by (cases k) auto
  have "example_items m (concat (map example_print vs) @ CHR '']'' # rest) = Some (vs, rest)"
  proof (rule example_items_printed)
    fix v rest k
    assume "v \<in> set vs" "example_cost v \<le> k"
    then show "example_parse k (example_print v @ rest) = Some (v, rest)"
      using JArray.IH [of v e k rest] JArray.prems(1) e by simp
  next
    show "\<forall>v \<in> set vs. 1 \<le> example_cost v \<and> (\<exists>c cs. example_print v = c # cs \<and> c \<noteq> CHR '']'')"
      using JArray.prems(1) e example_print_start example_cost_pos by fastforce
  qed (use JArray.prems(2) k in simp)
  then show ?case using k by simp
qed (auto simp: gr0_conv_Suc split: nat.splits elim: Suc_le_D [THEN exE])

lemma example_print_sizes:
  "plain_json d v \<Longrightarrow> example_cost v \<le> length (example_print v) \<and> length (example_print v) \<le> json_size v"
proof (induction v arbitrary: d)
  case (JString s)
  have "length (example_escape c) \<le> char_size c" for c
    by (simp add: example_escape_def char_size_def Let_def)
  then have "length (concat (map example_escape s)) \<le> sum_list (map char_size s)"
    by (induction s) (auto intro: add_mono)
  then show ?case by simp
next
  case (JArray vs)
  obtain e where e: "d = Suc e" using JArray.prems by (cases d) auto
  have "sum_list (map example_cost vs) \<le> length (concat (map example_print vs)) \<and>
      length (concat (map example_print vs)) \<le> sum_list (map (\<lambda>v. json_size v + 1) vs)"
    using JArray.IH [of _ e] JArray.prems unfolding e
  proof (induction vs)
    case (Cons v vs)
    have "example_cost v \<le> length (example_print v) \<and> length (example_print v) \<le> json_size v"
      using Cons.prems by simp
    moreover have "sum_list (map example_cost vs) \<le> length (concat (map example_print vs)) \<and>
      length (concat (map example_print vs)) \<le> sum_list (map (\<lambda>v. json_size v + 1) vs)"
      using Cons by simp
    ultimately show ?case by simp
  qed simp
  then show ?case by simp
qed (auto split: json_number.splits)

lemma example_print_ascii: "plain_json d v \<Longrightarrow> is_ascii (example_print v)"
proof (induction v arbitrary: d)
  case (JNumber n)
  have "is_ascii (example_number k i)" for k i
    by (induction k arbitrary: i) (simp_all add: is_ascii_def take_bit_nat_eq_self)
  then show ?case using JNumber by (auto simp: is_ascii_def split: json_number.splits)
next
  case (JArray vs)
  then show ?case by (cases d) (auto simp: is_ascii_def)
qed (auto simp: is_ascii_def example_escape_def split: if_splits)

section \<open>The library\<close>

fun example_decode64 :: "string \<Rightarrow> string option" where
  "example_decode64 [] = Some []"
| "example_decode64 [c] = None"
| "example_decode64 (c # d # cs) =
     map_option ((#) (char_of ((of_char c - 97) * 16 + (of_char d - 97) :: nat))) (example_decode64 cs)"

definition example_encode64 :: "string \<Rightarrow> string" where
  "example_encode64 bs = concat (map (\<lambda>c. let n = of_char c :: nat in [char_of (97 + n div 16), char_of (97 + n mod 16)]) bs)"

definition example_pad :: "string \<Rightarrow> string" where
  "example_pad s = take 32 (s @ replicate 32 CHR ''.'')"

definition example_library :: "string contact_library" where
  "example_library = \<lparr>
     parse_json = (\<lambda>bs. case example_parse (length bs) bs of
        Some (v, []) \<Rightarrow> if valid_json v then Some v else None
      | _ \<Rightarrow> None),
     print_json = example_print,
     encode64 = example_encode64,
     decode64 = example_decode64,
     decompress = Some, compress = id, is_identity = (\<lambda>_. False), is_torsion_free = (\<lambda>_. True),
     canonical_scalar = (\<lambda>_. True),
     public_key = example_pad,
     sign_bytes = (\<lambda>seed message. example_pad seed @ example_pad (rev message)),
     valid_verifying_key = (\<lambda>_. True),
     verify_strict = (\<lambda>key message signature. signature = key @ example_pad (rev message)),
     sha256 = (\<lambda>message. example_pad (rev message)) \<rparr>"

lemma example_library_simps:
  "print_json example_library = example_print" "encode64 example_library = example_encode64"
  "decode64 example_library = example_decode64" "public_key example_library = example_pad"
  "sign_bytes example_library seed message = example_pad seed @ example_pad (rev message)"
  "sha256 example_library message = example_pad (rev message)"
  by (simp_all add: example_library_def)

lemma plain_valid: "plain_json d v \<Longrightarrow> valid_json v"
  by (induction d v rule: plain_json.induct) (auto split: json_number.splits)

lemma example_base64:
  "example_decode64 (example_encode64 bs) = Some bs" "list_all url_safe (example_encode64 bs)"
  "length (example_encode64 bs) = 2 * length bs"
proof -
  have small: "(of_char c :: nat) div 16 < 16" for c :: char
    by (simp add: div_less_iff_less_mult)
  have small': "(of_char c :: nat) div 16 \<le> 25" for c :: char
    using small [of c] by linarith
  have codes: "(of_char (char_of (97 + n) :: char) :: nat) = 97 + n" if "n < 16" for n :: nat
    using that by (simp add: take_bit_nat_eq_self)
  show "example_decode64 (example_encode64 bs) = Some bs"
    by (induction bs) (simp_all add: example_encode64_def Let_def codes small del: of_char_of)
  show "list_all url_safe (example_encode64 bs)"
    by (induction bs) (auto simp: example_encode64_def Let_def url_safe_def codes small small' simp del: of_char_of)
  show "length (example_encode64 bs) = 2 * length bs"
    by (induction bs) (simp_all add: example_encode64_def Let_def)
qed

lemma example_laws: "library_laws example_library"
proof -
  have printed: "parse_json example_library (example_print v) = Some v" if "plain_json 8 v" for v
    using example_parse_printed [OF that, of "length (example_print v)" "[]"] example_print_sizes [OF that]
      plain_valid [OF that] by (simp add: example_library_def)
  have "example_print v \<noteq> []" if "plain_json 8 v" for v
    using example_print_start [OF that] by auto
  moreover have "valid_json v" if "parse_json example_library bs = Some v" for bs v
    using that by (auto simp: example_library_def split: option.splits list.splits prod.splits if_splits)
  moreover have "length (example_pad s) = 32" for s
    by (simp add: example_pad_def)
  ultimately show ?thesis
    using printed example_print_ascii example_print_sizes example_base64
    unfolding library_laws_def example_library_simps by fastforce
qed

end
