(* ===== verification/IntroductionsComplete.thy ===== *)
theory IntroductionsComplete
  imports IntroductionsCorrect
begin

text \<open>
  An honest introduction completes: with libraries that keep their laws and keys whose own signatures
  verify, the four packets can be created one after the other and every one is accepted.
\<close>

definition keys_work :: "'p contact_library \<Rightarrow> bool" where
  "keys_work lib \<longleftrightarrow> (\<forall>seed message. length seed = 32 \<longrightarrow>
     verify_signature lib (public_key lib seed) message (sign_bytes lib seed message) = Some ())"

definition honest :: "'p contact_library \<Rightarrow> bool" where
  "honest lib \<longleftrightarrow> library_laws lib \<and> keys_work lib"

lemma honest_laws: "honest lib \<Longrightarrow> library_laws lib"
  by (simp add: honest_def)

section \<open>Honest pieces\<close>

lemma honest_identity:
  assumes "honest lib" "length seed = 32"
  shows "identity lib (key_identity lib seed) = Some (public_key lib seed)"
proof -
  have "verify_signature lib (public_key lib seed) [] (sign_bytes lib seed []) = Some ()"
    using assms by (simp add: honest_def keys_work_def)
  then have "profile_point lib (public_key lib seed) = Some ()"
    by (simp add: verify_signature_def bind_eq_Some_conv)
  then show ?thesis using identity_key_identity [OF honest_laws [OF assms(1)]] by simp
qed

lemma honest_paired:
  assumes "honest lib" "length x = 32" "length y = 32" "key_identity lib x \<noteq> key_identity lib y"
  shows "paired lib (key_identity lib x) (key_identity lib y) = Some ()"
  using honest_identity [OF assms(1,2)] honest_identity [OF assms(1,3)] assms(4) by (simp add: paired_def)

lemma canonical_printed:
  assumes "library_laws lib" "plain_json 8 v" "json_size v \<le> MAX_INPUT_BYTES"
  shows "canonical lib (print_json lib v) = Some v"
  using canonical_json_printed [OF assms] laws_ascii [OF assms(1,2)] by (simp add: canonical_Some)

lemma honest_envelope:
  assumes "honest lib" "length seed = 32" "plain_json 8 payload" "json_size payload \<le> 6000"
  shows "\<exists>env. envelope_parse lib (signed_value lib payload seed) = Some env \<and> envelope_fields env = payload \<and>
    envelope_verify lib env (key_identity lib seed) = Some ()"
proof -
  note laws = honest_laws [OF assms(1)]
  let ?bs = "print_json lib payload"
  let ?sig = "sign_bytes lib seed ?bs"
  have "length ?bs \<le> 6000" using laws_size [OF laws assms(3)] assms(4) by simp
  then have bs: "decode lib (encode64 lib ?bs) = Some ?bs"
    using laws_nonempty [OF laws assms(3)] by (intro decode_encoded [OF laws]) simp_all
  have "length ?sig = 64" by (rule laws_lengths(2) [OF laws])
  moreover from this have "?sig \<noteq> []" by auto
  ultimately have sig: "fixed lib 64 (encode64 lib ?sig) = Some ?sig"
    using decode_encoded [OF laws, of ?sig] by (simp add: fixed_Some)
  have text_ok: "from_utf8 ?bs = Some ?bs" by (rule from_utf8_ascii [OF laws_ascii [OF laws assms(3)]])
  have fields: "canonical lib ?bs = Some payload"
    using assms(4) by (intro canonical_printed [OF laws assms(3)]) (simp add: MAX_INPUT_BYTES_def)
  have "verify_signature lib (public_key lib seed) ?bs ?sig = Some ()"
    using assms(1,2) by (simp add: honest_def keys_work_def)
  then show ?thesis
    using bs sig text_ok fields honest_identity [OF assms(1,2)]
    by (simp add: envelope_parse_def signed_value_def Let_def array_def as_str_def envelope_verify_def)
qed

section \<open>Sizes\<close>

lemma digest_size:
  assumes "library_laws lib"
  shows "sum_list (map char_size (digest lib v)) \<le> 64"
proof -
  let ?h = "sha256 lib (print_json lib (JArray [JString ''zcash-contact/intro-digest'', v]))"
  show ?thesis
    using url_safe_size [OF laws_base64(2) [OF assms, of ?h]] laws_base64(4) [OF assms, of ?h]
      laws_lengths(3) [OF assms]
    by (simp add: digest_def)
qed

lemma signed_value_size:
  assumes "library_laws lib" "plain_json 8 payload"
  shows "json_size (signed_value lib payload seed) \<le> 2 * json_size payload + 140"
  using url_safe_size [OF laws_base64(2) [OF assms(1)]] laws_base64(4) [OF assms(1), of "print_json lib payload"]
    laws_base64(4) [OF assms(1), of "sign_bytes lib seed (print_json lib payload)"] laws_size [OF assms]
    laws_lengths(2) [OF assms(1), of seed "print_json lib payload"]
  by (simp add: signed_value_def Let_def)

section \<open>The request\<close>

definition invitation :: "'p contact_library \<Rightarrow> contact_network \<Rightarrow> string \<Rightarrow> nat \<Rightarrow> json" where
  "invitation lib network sid now =
     JArray [JString ''zcash-contact/intro-invitation'', JString (wire_name network), JString (encode64 lib sid),
       JNumber (PosInt now), JNumber (PosInt (now + INVITATION_TTL))]"

lemma invitation_ok:
  assumes "library_laws lib" "length sid = 32" "now + INVITATION_TTL \<le> MAX_SAFE_INTEGER"
    and "now \<le> t" "t < now + INVITATION_TTL"
  shows "intro_request lib (invitation lib network sid now) network t = Some (digest lib (invitation lib network sid now))"
    and "plain_json 1 (invitation lib network sid now)" and "json_size (invitation lib network sid now) \<le> 220"
    and "json_at (invitation lib network sid now) 4 = JNumber (PosInt (now + INVITATION_TTL))"
proof -
  have "sid \<noteq> []" using assms(2) by auto
  then have sid: "fixed lib 32 (encode64 lib sid) = Some sid"
    using decode_encoded [OF assms(1), of sid] assms(2) by (simp add: fixed_Some)
  have small: "now + INVITATION_TTL < 2 ^ 64" using assms(3) by (simp add: MAX_SAFE_INTEGER_def)
  show "intro_request lib (invitation lib network sid now) network t = Some (digest lib (invitation lib network sid now))"
    using sid small assms(3-5)
    by (simp add: intro_request_def invitation_def array_def as_str_def integer_def checked_add_def then_some_def)
  show "plain_json 1 (invitation lib network sid now)"
    using small url_safe_ascii [OF laws_base64(2) [OF assms(1)]] wire_name_text(1)
    by (simp add: invitation_def plain_json_array) (simp add: is_ascii_def)
  show "json_size (invitation lib network sid now) \<le> 220"
    using url_safe_size [OF laws_base64(2) [OF assms(1)], of sid] laws_base64(4) [OF assms(1), of sid] assms(2)
      wire_name_text(2) [of network]
    by (simp add: invitation_def char_size_def)
  show "json_at (invitation lib network sid now) 4 = JNumber (PosInt (now + INVITATION_TTL))"
    by (simp add: invitation_def json_at_def)
qed

section \<open>Offers, endpoints, consents\<close>

lemma suggestion_text: "suggestion (JString s) = Some s \<Longrightarrow> is_ascii s \<and> length s \<le> 20"
  by (auto simp: suggestion_def as_str_def is_ascii_def list_all_iff bind_eq_Some_conv then_some_def split: if_splits)

text \<open>The values the parties sign, with the seeds of their keys.\<close>

definition ask_value :: "'p contact_library \<Rightarrow> json \<Rightarrow> string \<Rightarrow> string \<Rightarrow> json" where
  "ask_value lib r ca ac = signed_value lib
     (JArray [JString ''zcash-contact/intro-ask'', JString (digest lib r), JString (key_identity lib ac)]) ca"

definition offer_value :: "'p contact_library \<Rightarrow> json \<Rightarrow> string \<Rightarrow> string \<Rightarrow> string \<Rightarrow> json" where
  "offer_value lib r ab ba suggested = signed_value lib
     (JArray [JString ''zcash-contact/intro-offer'', JString (digest lib r), JString (key_identity lib ba),
        JString suggested]) ab"

definition endpoint_value :: "'p contact_library \<Rightarrow> contact_network \<Rightarrow> json \<Rightarrow> string \<Rightarrow> string \<Rightarrow> json" where
  "endpoint_value lib network r bc address = signed_value lib
     (JArray (endpoint_fields network (digest lib r) (key_identity lib bc) address)) bc"

definition consent_value :: "'p contact_library \<Rightarrow> json \<Rightarrow> json \<Rightarrow> json \<Rightarrow> string \<Rightarrow> json" where
  "consent_value lib r off e ba = signed_value lib
     (JArray [JString ''zcash-contact/intro-consent'', JString (digest lib r), JString (digest lib off),
        JString (digest lib e)]) ba"

definition endorsement_value ::
  "'p contact_library \<Rightarrow> contact_network \<Rightarrow> json \<Rightarrow> json \<Rightarrow> string \<Rightarrow> string \<Rightarrow> json" where
  "endorsement_value lib network r e ac suggested = signed_value lib
     (JArray [JString ''zcash-contact/intro-endorsement'', JString (wire_name network), JString (digest lib r),
        JString (digest lib e), JString suggested]) ac"

text \<open>Their payloads are ASCII and small.\<close>

definition payload_ok :: "json list \<Rightarrow> bool" where
  "payload_ok fs \<longleftrightarrow> plain_json 8 (JArray fs) \<and> json_size (JArray fs) \<le> 3400"

lemma payloads_ok:
  assumes "library_laws lib"
  shows "payload_ok [JString ''zcash-contact/intro-ask'', JString (digest lib r), JString (key_identity lib ac)]"
    and "suggestion (JString s) = Some s \<Longrightarrow>
      payload_ok [JString ''zcash-contact/intro-offer'', JString (digest lib r), JString (key_identity lib ba), JString s]"
    and "is_ascii address \<Longrightarrow> length address \<le> 512 \<Longrightarrow>
      payload_ok (endpoint_fields network (digest lib r) (key_identity lib bc) address)"
    and "payload_ok [JString ''zcash-contact/intro-consent'', JString (digest lib r), JString (digest lib off),
      JString (digest lib e)]"
    and "suggestion (JString s) = Some s \<Longrightarrow>
      payload_ok [JString ''zcash-contact/intro-endorsement'', JString (wire_name network), JString (digest lib r),
        JString (digest lib e), JString s]"
proof -
  note sizes = digest_size [OF assms] key_identity_text(2) [OF assms] wire_name_text(2)
  have ascii: "is_ascii (digest lib v)" "is_ascii (key_identity lib k)" "is_ascii (wire_name n)" for v k n
    by (rule digest_text [OF assms] key_identity_text(1) [OF assms] wire_name_text(1))+
  show "payload_ok [JString ''zcash-contact/intro-ask'', JString (digest lib r), JString (key_identity lib ac)]"
    using sizes(1) [of r] sizes(2) [of ac] ascii
    by (simp add: payload_ok_def plain_json_array char_size_def) (simp add: is_ascii_def)
  show "payload_ok [JString ''zcash-contact/intro-offer'', JString (digest lib r), JString (key_identity lib ba), JString s]"
    if "suggestion (JString s) = Some s"
    using sizes(1) [of r] sizes(2) [of ba] ascii suggestion_text [OF that] char_sizes [of s]
    by (simp add: payload_ok_def plain_json_array char_size_def) (simp add: is_ascii_def)
  show "payload_ok (endpoint_fields network (digest lib r) (key_identity lib bc) address)"
    if "is_ascii address" "length address \<le> 512"
    using sizes(1) [of r] sizes(2) [of bc] sizes(3) [of network] ascii that char_sizes [of address]
    by (simp add: payload_ok_def plain_json_array char_size_def endpoint_fields_def) (simp add: is_ascii_def)
  show "payload_ok [JString ''zcash-contact/intro-consent'', JString (digest lib r), JString (digest lib off),
      JString (digest lib e)]"
    using sizes(1) [of r] sizes(1) [of off] sizes(1) [of e] ascii
    by (simp add: payload_ok_def plain_json_array char_size_def) (simp add: is_ascii_def)
  show "payload_ok [JString ''zcash-contact/intro-endorsement'', JString (wire_name network), JString (digest lib r),
        JString (digest lib e), JString s]" if "suggestion (JString s) = Some s"
    using sizes(1) [of r] sizes(1) [of e] sizes(3) [of network] ascii suggestion_text [OF that] char_sizes [of s]
    by (simp add: payload_ok_def plain_json_array char_size_def) (simp add: is_ascii_def)
qed

lemma payload_signed:
  assumes "honest lib" "length seed = 32" "payload_ok fs"
  shows "\<exists>env. envelope_parse lib (signed_value lib (JArray fs) seed) = Some env \<and> envelope_fields env = JArray fs \<and>
      envelope_verify lib env (key_identity lib seed) = Some ()"
    and "json_size (signed_value lib (JArray fs) seed) \<le> 6940"
    and "plain_json 7 (signed_value lib (JArray fs) seed)"
  using honest_envelope [OF assms(1,2), of "JArray fs"] signed_value_size [OF honest_laws [OF assms(1)], of "JArray fs" seed]
    signed_value_plain [OF honest_laws [OF assms(1)]] assms(3)
  by (auto simp: payload_ok_def simp del: json_size.simps)

lemma offer_complete:
  assumes "honest lib" "length ab = 32" "suggestion (JString s) = Some s"
  shows "offer lib (offer_value lib r ab ba s) (digest lib r) (key_identity lib ab) (key_identity lib ba) = Some s"
  using payload_signed(1) [OF assms(1,2) payloads_ok(2) [OF honest_laws [OF assms(1)] assms(3), of r ba]] assms(3)
  by (auto simp: offer_def offer_value_def array_def bind_eq_Some_conv)

lemma endpoint_complete:
  assumes "honest lib" "length bc = 32" "is_ascii address" "valid_address validate network address = Some ()"
    and "key_identity lib bc \<noteq> peer" "key_identity lib bc \<noteq> own"
  shows "endpoint lib (endpoint_value lib network r bc address) (digest lib r) network peer own validate
    = Some (key_identity lib bc, address)"
proof -
  have "length address \<le> 512" using assms(4) by (simp add: valid_address_def)
  then show ?thesis
    using payload_signed(1) [OF assms(1,2) payloads_ok(3) [OF honest_laws [OF assms(1)] assms(3), of network r bc]] assms(4-6)
    by (auto simp: endpoint_def endpoint_value_def endpoint_fields_def array_def as_str_def integer_def bind_eq_Some_conv
        MAX_SAFE_INTEGER_def)
qed

section \<open>Packets\<close>

lemma packet_canonical:
  assumes "library_laws lib" "plain_json 1 r" "json_size r \<le> 220" "is_ascii domain" "length domain \<le> 40"
    and "\<forall>v \<in> set vs. plain_json 7 v \<and> json_size v \<le> 6940" "length vs \<le> 2"
  shows "canonical lib (print_json lib (JArray (JString domain # r # vs))) = Some (JArray (JString domain # r # vs))"
proof (rule canonical_printed [OF assms(1)])
  show "plain_json 8 (JArray (JString domain # r # vs))"
    using assms(4,6) plain_json_mono [OF assms(2), of 7] by (simp add: plain_json_array)
  have "sum_list (map (\<lambda>v. json_size v + 1) vs) \<le> 6941 * length vs"
    using assms(6) by (induction vs) auto
  then show "json_size (JArray (JString domain # r # vs)) \<le> MAX_INPUT_BYTES"
    using char_sizes [of domain] assms(3,5,7) by (simp add: MAX_INPUT_BYTES_def)
qed

text \<open>Everything about the request that the four steps use, at a time within its window.\<close>

definition request_ok :: "'p contact_library \<Rightarrow> contact_network \<Rightarrow> json \<Rightarrow> nat \<Rightarrow> bool" where
  "request_ok lib network r t \<longleftrightarrow>
     intro_request lib r network t = Some (digest lib r) \<and> plain_json 1 r \<and> json_size r \<le> 220 \<and>
     (\<exists>n. integer (json_at r 4) = Some n) \<and> canonical lib (print_json lib r) = Some r"

lemma invitation_request_ok:
  assumes "library_laws lib" "length sid = 32" "now + INVITATION_TTL \<le> MAX_SAFE_INTEGER"
    and "now \<le> t" "t < now + INVITATION_TTL"
  shows "request_ok lib network (invitation lib network sid now) t"
proof -
  note ok = invitation_ok [OF assms, of network]
  have "now + INVITATION_TTL < 2 ^ 64" using assms(3) by (simp add: MAX_SAFE_INTEGER_def)
  then have "\<exists>n. integer (json_at (invitation lib network sid now) 4) = Some n"
    using assms(3) by (simp add: ok(4) integer_def)
  moreover have "canonical lib (print_json lib (invitation lib network sid now)) = Some (invitation lib network sid now)"
    using plain_json_mono [OF ok(2), of 8] ok(3)
    by (intro canonical_printed [OF assms(1)]) (simp_all add: MAX_INPUT_BYTES_def)
  ultimately show ?thesis using ok by (simp add: request_ok_def)
qed

lemma value_canonical:
  assumes "honest lib" "length seed = 32" "payload_ok fs"
  shows "canonical lib (print_json lib (signed_value lib (JArray fs) seed)) = Some (signed_value lib (JArray fs) seed)"
  using payload_signed(2,3) [OF assms] plain_json_mono [of 7 "signed_value lib (JArray fs) seed" 8]
  by (intro canonical_printed [OF honest_laws [OF assms(1)]]) (simp_all add: MAX_INPUT_BYTES_def)

lemma ask_complete:
  assumes "honest lib" "length ca = 32" "length ac = 32" "key_identity lib ca \<noteq> key_identity lib ac"
    and "request_ok lib network r t"
  shows "\<exists>v. verify lib Ask network (key_identity lib ca) (key_identity lib ac) None None
      (print_json lib (JArray [JString ''zcash-contact/intro-ask-package'', r, ask_value lib r ca ac])) t validate = Inr v \<and>
    request_json v = print_json lib r"
proof -
  note ok = payloads_ok(1) [OF honest_laws [OF assms(1)], of r ac]
  note signed = payload_signed [OF assms(1,2) ok]
  have "canonical lib (print_json lib (JArray [JString ''zcash-contact/intro-ask-package'', r, ask_value lib r ca ac]))
      = Some (JArray [JString ''zcash-contact/intro-ask-package'', r, ask_value lib r ca ac])"
    using assms(5) signed(2,3)
    by (intro packet_canonical [OF honest_laws [OF assms(1)]]) (simp_all add: request_ok_def ask_value_def is_ascii_def)
  then show ?thesis
    using assms(5) honest_paired [OF assms(1-4)] signed(1)
    by (auto simp: verify_def verify_inner_def verify_ask_def request_ok_def ask_value_def array_def package_def Let_def
        bind_eq_Some_conv ok_or_eq_Inr simp del: json_size.simps)
qed

lemma offer_packet_complete:
  assumes "honest lib" "length ab = 32" "length ba = 32" "key_identity lib ab \<noteq> key_identity lib ba"
    and "request_ok lib network r t" "suggestion (JString s) = Some s"
  shows "\<exists>v. verify lib Offer network (key_identity lib ab) (key_identity lib ba) None None
      (print_json lib (JArray [JString ''zcash-contact/intro-offer-package'', r, offer_value lib r ab ba s])) t validate
        = Inr v \<and>
    packet_json v = print_json lib (JArray [JString ''zcash-contact/intro-offer-package'', r, offer_value lib r ab ba s]) \<and>
    request_json v = print_json lib r \<and> request_hash v = digest lib r \<and>
    offer_json v = Some (print_json lib (offer_value lib r ab ba s))"
proof -
  note ok = payloads_ok(2) [OF honest_laws [OF assms(1)] assms(6), of r ba]
  note signed = payload_signed [OF assms(1,2) ok]
  have "canonical lib (print_json lib (JArray [JString ''zcash-contact/intro-offer-package'', r, offer_value lib r ab ba s]))
      = Some (JArray [JString ''zcash-contact/intro-offer-package'', r, offer_value lib r ab ba s])"
    using assms(5) signed(2,3)
    by (intro packet_canonical [OF honest_laws [OF assms(1)]]) (simp_all add: request_ok_def offer_value_def is_ascii_def)
  then show ?thesis
    using assms(5) honest_paired [OF assms(1-4)] offer_complete [OF assms(1,2,6), of r ba]
    by (auto simp: verify_def verify_inner_def verify_offer_def request_ok_def array_def package_def Let_def
        bind_eq_Some_conv ok_or_eq_Inr simp del: json_size.simps)
qed

lemma consent_packet_complete:
  assumes honest: "honest lib" and seeds: "length ab = 32" "length ba = 32" "length bc = 32"
    and ids: "key_identity lib ab \<noteq> key_identity lib ba" "key_identity lib bc \<noteq> key_identity lib ab"
      "key_identity lib bc \<noteq> key_identity lib ba"
    and r: "request_ok lib network r t" and s: "suggestion (JString s) = Some s"
    and address: "is_ascii address" "valid_address validate network address = Some ()"
    and off: "off = offer_value lib r ab ba s" and e: "e = endpoint_value lib network r bc address"
  shows "\<exists>v. verify lib Consent network (key_identity lib ba) (key_identity lib ab) (Some (print_json lib r))
      (Some (print_json lib off))
      (print_json lib (JArray [JString ''zcash-contact/intro-consent-package'', r, e, consent_value lib r off e ba])) t validate
        = Inr v \<and>
    packet_json v = print_json lib (JArray [JString ''zcash-contact/intro-consent-package'', r, e, consent_value lib r off e ba]) \<and>
    request_json v = print_json lib r \<and> endpoint_json v = Some (print_json lib e)"
proof -
  note laws = honest_laws [OF honest]
  have len: "length address \<le> 512" using address(2) by (simp add: valid_address_def)
  note consent_signed = payload_signed [OF honest seeds(2) payloads_ok(4) [OF laws, of r off e]]
  note e_signed = payload_signed [OF honest seeds(3) payloads_ok(3) [OF laws address(1) len, of network r bc]]
  have packet: "canonical lib (print_json lib (JArray [JString ''zcash-contact/intro-consent-package'', r, e, consent_value lib r off e ba]))
      = Some (JArray [JString ''zcash-contact/intro-consent-package'', r, e, consent_value lib r off e ba])"
    using r consent_signed(2,3) e_signed(2,3)
    by (intro packet_canonical [OF laws])
      (simp_all add: request_ok_def consent_value_def endpoint_value_def e is_ascii_def)
  have saved: "canonical lib (print_json lib off) = Some off"
    unfolding off offer_value_def by (rule value_canonical [OF honest seeds(1) payloads_ok(2) [OF laws s]])
  have offered: "offer lib off (digest lib r) (key_identity lib ab) (key_identity lib ba) = Some s"
    unfolding off by (rule offer_complete [OF honest seeds(1) s])
  have e_ok: "endpoint lib e (digest lib r) network (key_identity lib ba) (key_identity lib ab) validate
      = Some (key_identity lib bc, address)"
    unfolding e by (rule endpoint_complete [OF honest seeds(3) address ids(3,2)])
  have pair: "paired lib (key_identity lib ba) (key_identity lib ab) = Some ()"
    by (rule honest_paired [OF honest seeds(2,1) not_sym [OF ids(1)]])
  show ?thesis
    using r packet saved offered e_ok pair consent_signed(1)
    by (auto simp: verify_def verify_inner_def verify_consent_def request_ok_def consent_value_def array_def package_def
        Let_def bind_eq_Some_conv ok_or_eq_Inr simp del: json_size.simps)
qed

lemma delivery_packet_complete:
  assumes honest: "honest lib" and seeds: "length ac = 32" "length ca = 32" "length bc = 32"
    and ids: "key_identity lib ac \<noteq> key_identity lib ca" "key_identity lib bc \<noteq> key_identity lib ac"
      "key_identity lib bc \<noteq> key_identity lib ca"
    and r: "request_ok lib network r t" and s: "suggestion (JString s) = Some s"
    and address: "is_ascii address" "valid_address validate network address = Some ()"
    and e: "e = endpoint_value lib network r bc address"
  shows "\<exists>v. verify lib Delivery network (key_identity lib ac) (key_identity lib ca) (Some (print_json lib r)) None
      (print_json lib (JArray [JString ''zcash-contact/intro-delivery'', r, e, endorsement_value lib network r e ac s])) t
        validate = Inr v"
proof -
  note laws = honest_laws [OF honest]
  have len: "length address \<le> 512" using address(2) by (simp add: valid_address_def)
  note a_signed = payload_signed [OF honest seeds(1) payloads_ok(5) [OF laws s, of network r e]]
  note e_signed = payload_signed [OF honest seeds(3) payloads_ok(3) [OF laws address(1) len, of network r bc]]
  have packet: "canonical lib (print_json lib (JArray [JString ''zcash-contact/intro-delivery'', r, e,
      endorsement_value lib network r e ac s]))
      = Some (JArray [JString ''zcash-contact/intro-delivery'', r, e, endorsement_value lib network r e ac s])"
    using r a_signed(2,3) e_signed(2,3)
    by (intro packet_canonical [OF laws])
      (simp_all add: request_ok_def endorsement_value_def endpoint_value_def e is_ascii_def)
  have e_ok: "endpoint lib e (digest lib r) network (key_identity lib ac) (key_identity lib ca) validate
      = Some (key_identity lib bc, address)"
    unfolding e by (rule endpoint_complete [OF honest seeds(3) address ids(2,3)])
  show ?thesis
    using r packet s e_ok honest_paired [OF honest seeds(1,2) ids(1)] a_signed(1)
    by (auto simp: verify_def verify_inner_def verify_delivery_def request_ok_def endorsement_value_def array_def
        package_def Let_def bind_eq_Some_conv ok_or_eq_Inr simp del: json_size.simps)
qed

section \<open>The whole introduction\<close>

lemma introduction_completes:
  assumes honest: "honest lib"
    and seeds: "length ca = 32" "length ac = 32" "length ab = 32" "length ba = 32" "length bc = 32" "length sid = 32"
    and ids: "distinct (map (key_identity lib) [ca, ac, ab, ba, bc])"
    and times: "now + INVITATION_TTL \<le> MAX_SAFE_INTEGER" "now \<le> t1" "now \<le> t2" "now \<le> t3"
      "t1 < now + INVITATION_TTL" "t2 < now + INVITATION_TTL" "t3 < now + INVITATION_TTL"
    and names: "suggestion (JString s1) = Some s1" "suggestion (JString s2) = Some s2"
    and address: "is_ascii address" "valid_address validate network address = Some ()"
  shows "\<exists>ask offered offer_text consent delivered.
    create_ask lib network (key_identity lib ac) ca now (Some sid) = Inr ask \<and>
    create_offer lib network (request_json ask) (key_identity lib ba) ab s1 t1 = Inr offered \<and>
    offer_json offered = Some offer_text \<and>
    create_consent lib network (key_identity lib ab) ba bc address (packet_json offered) t2 validate = Inr consent \<and>
    create_delivery lib network (key_identity lib ba) (key_identity lib ab) (key_identity lib ca) ac (request_json ask)
      offer_text (packet_json consent) s2 t3 validate = Inr delivered"
proof -
  note laws = honest_laws [OF honest]
  let ?r = "invitation lib network sid now"
  let ?off = "offer_value lib ?r ab ba s1"
  let ?e = "endpoint_value lib network ?r bc address"
  have r: "request_ok lib network ?r now" "request_ok lib network ?r t1" "request_ok lib network ?r t2"
    "request_ok lib network ?r t3"
    using times by (auto intro!: invitation_request_ok [OF laws seeds(6)] simp: INVITATION_TTL_def)
  have r_text: "canonical lib (print_json lib ?r) = Some ?r" using r(1) by (simp add: request_ok_def)
  have r_hash: "intro_request lib ?r network t1 = Some (digest lib ?r)" using r(2) by (simp add: request_ok_def)
  have len: "length address \<le> 512" using address(2) by (simp add: valid_address_def)
  have ne: "key_identity lib ca \<noteq> key_identity lib ac" "key_identity lib ac \<noteq> key_identity lib ca"
    using ids by auto
  have small: "now + INVITATION_TTL < 2 ^ 64" using times(1) by (simp add: MAX_SAFE_INTEGER_def)
  have asked: "create_ask lib network (key_identity lib ac) ca now (Some sid) = verify lib Ask network
      (key_identity lib ca) (key_identity lib ac) None None
      (print_json lib (JArray [JString ''zcash-contact/intro-ask-package'', ?r, ask_value lib ?r ca ac])) now (\<lambda>_ _. False)"
    using honest_paired [OF honest seeds(2,1) ne(2)] seeds(1) times(1) small
    by (simp add: create_ask_def signing_key_def intro_ok_def checked_add_def Let_def ask_value_def invitation_def
        then_some_def)
  obtain ask where ask: "create_ask lib network (key_identity lib ac) ca now (Some sid) = Inr ask"
      "request_json ask = print_json lib ?r"
    using ask_complete [OF honest seeds(1,2) ne(1) r(1), of "\<lambda>_ _. False"] unfolding asked by blast
  obtain offered where offered: "create_offer lib network (request_json ask) (key_identity lib ba) ab s1 t1 = Inr offered"
      "packet_json offered = print_json lib (JArray [JString ''zcash-contact/intro-offer-package'', ?r, ?off])"
      "offer_json offered = Some (print_json lib ?off)"
    using offer_packet_complete [OF honest seeds(3,4) _ r(2) names(1), of "\<lambda>_ _. False"] ids r_text r_hash names(1)
      honest_paired [OF honest seeds(4,3)] seeds(3)
    by (auto simp: create_offer_def signing_key_def intro_ok_def Let_def offer_value_def ask(2))
  have off_text: "canonical lib (print_json lib ?off) = Some ?off"
    unfolding offer_value_def by (rule value_canonical [OF honest seeds(3) payloads_ok(2) [OF laws names(1)]])
  have e_text: "canonical lib (print_json lib ?e) = Some ?e"
    unfolding endpoint_value_def by (rule value_canonical [OF honest seeds(5) payloads_ok(3) [OF laws address(1) len]])
  have e_ok: "endpoint lib ?e (digest lib ?r) network peer own validate = Some (key_identity lib bc, address)"
    if "key_identity lib bc \<noteq> peer" "key_identity lib bc \<noteq> own" for peer own
    by (rule endpoint_complete [OF honest seeds(5) address that])
  obtain seen where seen: "verify lib Offer network (key_identity lib ab) (key_identity lib ba) None None
      (packet_json offered) t2 validate = Inr seen" "request_json seen = print_json lib ?r"
      "request_hash seen = digest lib ?r" "offer_json seen = Some (print_json lib ?off)"
    using offer_packet_complete [OF honest seeds(3,4) _ r(3) names(1), of validate] ids offered(2) by auto
  obtain consent where consent: "create_consent lib network (key_identity lib ab) ba bc address (packet_json offered) t2
        validate = Inr consent"
      "packet_json consent = print_json lib (JArray [JString ''zcash-contact/intro-consent-package'', ?r, ?e,
        consent_value lib ?r ?off ?e ba])"
    using consent_packet_complete [OF honest seeds(3-5) _ _ _ r(3) names(1) address refl refl] ids
      seen r_text off_text e_ok seeds(4,5)
    by (auto simp: create_consent_def signing_key_def intro_ok_def Let_def consent_value_def endpoint_value_def
        endpoint_fields_def)
  obtain checked where checked: "verify lib Consent network (key_identity lib ba) (key_identity lib ab)
      (Some (request_json ask)) (Some (print_json lib ?off)) (packet_json consent) t3 validate = Inr checked"
      "request_json checked = print_json lib ?r" "endpoint_json checked = Some (print_json lib ?e)"
    using consent_packet_complete [OF honest seeds(3-5) _ _ _ r(4) names(1) address refl refl] ids consent(2) ask(2)
    by auto
  obtain delivered where delivered: "create_delivery lib network (key_identity lib ba) (key_identity lib ab)
      (key_identity lib ca) ac (request_json ask) (print_json lib ?off) (packet_json consent) s2 t3 validate = Inr delivered"
    using delivery_packet_complete [OF honest seeds(2,1,5) _ _ _ r(4) names(2) address refl] ids checked r_text e_text e_ok
      names(2) honest_paired [OF honest seeds(1,2)] seeds(2) ask(2)
    by (auto simp: create_delivery_def signing_key_def intro_ok_def Let_def endorsement_value_def)
  show ?thesis using ask(1) offered(1,3) consent(1) delivered by blast
qed

section \<open>The direct exchange\<close>

lemma request_complete:
  assumes "honest lib" "length seed = 32" "length nonce = 32" "now + 300 \<le> MAX_SAFE_INTEGER"
  shows "\<exists>request. create_request lib network None now (Some seed) (Some nonce) = Inr request \<and>
    parse_request lib network (request_text request) now = Some request \<and>
    request_expires_at request = now + 300 \<and> request_subject request = None"
proof -
  note laws = honest_laws [OF assms(1)]
  let ?v = "JArray [JString REQUEST_DOMAIN, JString (wire_name network), JString (key_identity lib seed),
          JString (encode64 lib nonce), JNumber (PosInt (now + 300)), JNull]"
  have small: "now + 300 < 2 ^ 64" using assms(4) by (simp add: MAX_SAFE_INTEGER_def)
  have plain: "plain_json 8 ?v"
    using small url_safe_ascii [OF laws_base64(2) [OF laws]] wire_name_text(1) key_identity_text(1) [OF laws]
    by (simp add: plain_json_array) (simp add: is_ascii_def REQUEST_DOMAIN_def)
  have "json_size ?v \<le> MAX_INPUT_BYTES"
    using url_safe_size [OF laws_base64(2) [OF laws], of nonce] laws_base64(4) [OF laws, of nonce] assms(3)
      wire_name_text(2) [of network] key_identity_text(2) [OF laws, of seed]
    by (simp add: char_size_def REQUEST_DOMAIN_def MAX_INPUT_BYTES_def)
  then have canonical: "canonical_json lib (print_json lib ?v) = Some ?v" by (rule canonical_json_printed [OF laws plain])
  have "nonce \<noteq> []" using assms(3) by auto
  then have nonce: "fixed lib 32 (encode64 lib nonce) = Some nonce"
    using decode_encoded [OF laws, of nonce] assms(3) by (simp add: fixed_Some)
  have limit: "future_limit now = Some (now + 300)" using assms(4) by (simp add: future_limit_Some)
  let ?request = "\<lparr> request_text = print_json lib ?v, request_audience = key_identity lib seed,
      request_challenge = encode64 lib nonce, request_expires_at = now + 300, request_subject = None \<rparr>"
  have parsed: "parse_request lib network (print_json lib ?v) now = Some ?request"
    using canonical nonce limit small assms(4) honest_identity [OF assms(1,2)]
    by (simp add: parse_request_def parse_subject_def array_def as_str_def integer_def then_some_def)
  then have "create_request lib network None now (Some seed) (Some nonce) = Inr ?request"
    using limit by (simp add: create_request_def inspect_request_def new_seed_def json_subject_def)
  then show ?thesis using parsed by auto
qed

text \<open>Created at \<open>now\<close>, signed at \<open>u\<close> by the signer's clock, checked at \<open>t\<close>.\<close>

lemma exchange_completes:
  assumes honest: "honest lib" and seeds: "length seed = 32" "length nonce = 32" "length secret = 32"
    and times: "now \<le> u" "u < now + 300" "now \<le> t" "t < now + 300" "u \<le> t + 30"
      "u + 300 \<le> MAX_SAFE_INTEGER" "t + 300 \<le> MAX_SAFE_INTEGER"
    and sequence: "0 < n" "n \<le> MAX_SAFE_INTEGER"
    and address: "is_ascii address" "valid_address validate network address = Some ()"
  shows "\<exists>request exchange. create_request lib network None now (Some seed) (Some nonce) = Inr request \<and>
    sign_response lib network (request_text request) secret address n u validate = Inr exchange \<and>
    verify_response lib network (request_text request) exchange t validate = Inr
      \<lparr> endpoint_identity = key_identity lib secret, endpoint_address = address, endpoint_sequence = n,
        endpoint_expires_at = now + 300, endpoint_network = wire_name network \<rparr>"
proof -
  have limits: "now + 300 \<le> MAX_SAFE_INTEGER" "u + 300 \<le> MAX_SAFE_INTEGER" "t + 300 \<le> MAX_SAFE_INTEGER"
    using times by simp_all
  obtain request where request: "create_request lib network None now (Some seed) (Some nonce) = Inr request"
      "parse_request lib network (request_text request) now = Some request"
      "request_expires_at request = now + 300" "request_subject request = None"
    using request_complete [OF honest seeds(1,2) limits(1), of network] by blast
  have at: "parse_request lib network (request_text request) u = Some request"
    "parse_request lib network (request_text request) t = Some request"
    using parse_request_later [OF request(2)] times limits request(3) by simp_all
  have "future_limit u = Some (u + 300)" using limits(2) by (simp add: future_limit_Some)
  moreover have "verify_signature lib (public_key lib secret) m (sign_bytes lib secret m) = Some ()" for m
    using honest seeds(3) by (simp add: honest_def keys_work_def)
  ultimately obtain exchange where
    signed: "sign_response lib network (request_text request) secret address n u validate = Inr exchange"
    using at(1) request(4) seeds(3) sequence address(2) by (simp add: sign_response_def inspect_request_def Let_def)
  have "verify_endpoint lib network (request_text request) exchange t validate = Some
    \<lparr> endpoint_identity = key_identity lib secret, endpoint_address = address, endpoint_sequence = n,
      endpoint_expires_at = request_expires_at request, endpoint_network = wire_name network \<rparr>"
    by (rule response_roundtrip [OF honest_laws [OF honest] signed address(1) times(5) limits(3,2) at(1) _ at(2)])
      (use request(3) times(4) in simp)
  then show ?thesis using request(1,3) signed by (auto simp: verify_response_def)
qed

end
