(* ===== verification/ContactProperties.thy ===== *)
theory ContactProperties
  imports ContactExample IntroductionsComplete
begin

text \<open>
  The properties of the contact exchange, with runs on the example library: Carol (key \<open>c\<close>), Alice
  (\<open>a\<close> towards Carol, \<open>d\<close> towards Bob) and Bob (\<open>b\<close> towards Alice, \<open>e\<close> fresh for Carol).
\<close>

definition key_of :: "char \<Rightarrow> string" where "key_of c = replicate 32 c"
definition id_of :: "char \<Rightarrow> string" where "id_of c = key_identity example_library (key_of c)"
definition any_address :: "contact_network \<Rightarrow> string \<Rightarrow> bool" where "any_address _ _ = True"

lemma length_key_of: "length (key_of c) = 32"
  by (simp add: key_of_def)

lemma example_honest: "honest example_library"
proof -
  have "verify_signature example_library (example_pad seed) m (example_pad seed @ example_pad (rev m)) = Some ()" for seed m
    by (simp add: verify_signature_def profile_point_def example_library_def example_pad_def then_some_def)
  then show ?thesis
    using example_laws by (simp add: honest_def keys_work_def example_library_simps)
qed

lemma id_of_inject: "id_of c = id_of d \<longleftrightarrow> c = d"
proof -
  have taken: "take n (replicate n c @ xs) = replicate n c" for n xs and c :: char by simp
  have "example_pad (key_of c) = key_of c" for c
    unfolding example_pad_def key_of_def by (rule taken)
  moreover have "example_encode64 x = example_encode64 y \<Longrightarrow> x = y" for x y
    by (metis example_base64(1) option.inject)
  moreover have "key_of c = key_of d \<Longrightarrow> c = d"
    unfolding key_of_def replicate_eq_replicate by simp
  ultimately show ?thesis by (auto simp: id_of_def key_identity_def example_library_simps)
qed

lemma example_ids: "distinct (map (key_identity example_library)
    [key_of CHR ''c'', key_of CHR ''a'', key_of CHR ''d'', key_of CHR ''b'', key_of CHR ''e''])"
  using id_of_inject by (simp add: id_of_def)

lemma example_names: "suggestion (JString ''Carol'') = Some ''Carol''" "suggestion (JString ''Bob'') = Some ''Bob''"
  by code_simp+

lemma example_address: "is_ascii ''u1fresh''" "valid_address any_address MainNet ''u1fresh'' = Some ()"
  by code_simp+

lemma example_times: "1000 + INVITATION_TTL \<le> MAX_SAFE_INTEGER" "(2000 :: nat) < 1000 + INVITATION_TTL"
  by (simp_all add: INVITATION_TTL_def MAX_SAFE_INTEGER_def)

lemma example_exchange:
  "\<exists>req exchange. verify_response example_library MainNet req exchange 1200 any_address = Inr
      \<lparr> endpoint_identity = id_of CHR ''b'', endpoint_address = ''u1fresh'', endpoint_sequence = 7,
        endpoint_expires_at = 1300, endpoint_network = ''zcash-mainnet'' \<rparr>"
  using exchange_completes [OF example_honest length_key_of length_key_of length_key_of _ _ _ _ _ _ _ _ _ example_address,
      of 1000 1100 1200 7 "CHR ''x''" "CHR ''y''" "CHR ''b''"]
  by (simp add: id_of_def MAX_SAFE_INTEGER_def) blast

section \<open>The direct exchange\<close>

text \<open>
  C40: The direct exchange completes: a request can be created, a response to it can be signed at any time
  before the request expires, and is accepted at any time before the request expires, also when the
  signer's clock is up to 30 seconds ahead; it yields exactly the signer's identity, the address and the
  revision that were signed, and ends with the request, however late it was signed.
\<close>

theorem contact_exchange_completes:
  assumes "honest lib" "length seed = 32" "length nonce = 32" "length secret = 32"
    and "now \<le> u" "u < now + 300" "now \<le> t" "t < now + 300" "u \<le> t + 30"
      "u + 300 \<le> MAX_SAFE_INTEGER" "t + 300 \<le> MAX_SAFE_INTEGER"
    and "0 < n" "n \<le> MAX_SAFE_INTEGER"
    and "is_ascii address" "valid_address validate network address = Some ()"
  shows "\<exists>request exchange. create_request lib network None now (Some seed) (Some nonce) = Inr request \<and>
    sign_response lib network (request_text request) secret address n u validate = Inr exchange \<and>
    verify_response lib network (request_text request) exchange t validate = Inr
      \<lparr> endpoint_identity = key_identity lib secret, endpoint_address = address, endpoint_sequence = n,
        endpoint_expires_at = now + 300, endpoint_network = wire_name network \<rparr>"
  by (rule exchange_completes [OF assms])

theorem contact_exchange_completes_witness:
  "\<exists>req exchange. sign_response example_library MainNet req (key_of CHR ''b'') ''u1fresh'' 7 1100 any_address = Inr exchange \<and>
    verify_response example_library MainNet req exchange 1200 any_address = Inr
      \<lparr> endpoint_identity = id_of CHR ''b'', endpoint_address = ''u1fresh'', endpoint_sequence = 7,
        endpoint_expires_at = 1300, endpoint_network = ''zcash-mainnet'' \<rparr>"
  using contact_exchange_completes [OF example_honest length_key_of length_key_of length_key_of _ _ _ _ _ _ _ _ _ example_address,
      of 1000 1100 1200 7 "CHR ''x''" "CHR ''y''" "CHR ''b''"]
  by (simp add: id_of_def MAX_SAFE_INTEGER_def) blast

text \<open>
  C37: An accepted response is authentic and fresh: its identity is the one the request expects, if
  any, that identity's key signed the bytes that state the network, the audience and the challenge of
  the request, the address, the revision and the two times, and those times fit the present.
\<close>

theorem accepted_response_authentic:
  assumes "verify_response lib network req exchange now validate = Inr e"
  shows "\<exists>request issued signature key. parse_request lib network req now = Some request \<and>
    (request_subject request = None \<or> request_subject request = Some (endpoint_identity e)) \<and>
    identity lib (endpoint_identity e) = Some key \<and>
    verify_signature lib key (endpoint_payload lib network (endpoint_identity e) request (endpoint_sequence e) issued
      (endpoint_expires_at e) (endpoint_address e)) signature = Some () \<and>
    0 < endpoint_sequence e \<and> valid_address validate network (endpoint_address e) = Some () \<and>
    issued \<le> now + 30 \<and> now < endpoint_expires_at e \<and> endpoint_expires_at e \<le> issued + 300 \<and>
    endpoint_expires_at e \<le> request_expires_at request"
  using verify_endpoint_sound [of lib network req exchange now validate e] assms
  by (auto simp: verify_response_def ok_or_eq_Inr endpoint_checked_def)

theorem accepted_response_authentic_witness:
  "\<exists>(request :: contact_request) issued signature key. identity example_library (id_of CHR ''b'') = Some key \<and>
    verify_signature example_library key (endpoint_payload example_library MainNet (id_of CHR ''b'') request 7 issued
      1300 ''u1fresh'') signature = Some ()"
proof -
  obtain req exchange where "verify_response example_library MainNet req exchange 1200 any_address = Inr
      \<lparr> endpoint_identity = id_of CHR ''b'', endpoint_address = ''u1fresh'', endpoint_sequence = 7,
        endpoint_expires_at = 1300, endpoint_network = ''zcash-mainnet'' \<rparr>"
    using example_exchange by blast
  from accepted_response_authentic [OF this] show ?thesis by auto
qed

section \<open>Introductions\<close>

lemma example_introduction:
  "\<exists>ask offered offer_text consent delivered.
    create_ask example_library MainNet (id_of CHR ''a'') (key_of CHR ''c'') 1000 (Some (key_of CHR ''s'')) = Inr ask \<and>
    create_offer example_library MainNet (request_json ask) (id_of CHR ''b'') (key_of CHR ''d'') ''Carol'' 2000 = Inr offered \<and>
    offer_json offered = Some offer_text \<and>
    create_consent example_library MainNet (id_of CHR ''d'') (key_of CHR ''b'') (key_of CHR ''e'') ''u1fresh''
      (packet_json offered) 2000 any_address = Inr consent \<and>
    create_delivery example_library MainNet (id_of CHR ''b'') (id_of CHR ''d'') (id_of CHR ''c'') (key_of CHR ''a'')
      (request_json ask) offer_text (packet_json consent) ''Bob'' 2000 any_address = Inr delivered"
  unfolding id_of_def
  by (rule introduction_completes [OF example_honest length_key_of length_key_of length_key_of length_key_of length_key_of
        length_key_of example_ids example_times(1) _ _ _ example_times(2) example_times(2) example_times(2)
        example_names example_address]) simp_all

text \<open>
  C39: An honest introduction completes: whatever the three parties' keys, as long as their identities
  differ, the ask, the offer, the consent and the delivery can be created one after the other at times
  within the lifetime of the invitation, and each is accepted by the next.
\<close>

theorem introduction_runs:
  assumes "honest lib"
    and "length ca = 32" "length ac = 32" "length ab = 32" "length ba = 32" "length bc = 32" "length sid = 32"
    and "distinct (map (key_identity lib) [ca, ac, ab, ba, bc])"
    and "now + INVITATION_TTL \<le> MAX_SAFE_INTEGER" "now \<le> t1" "now \<le> t2" "now \<le> t3"
      "t1 < now + INVITATION_TTL" "t2 < now + INVITATION_TTL" "t3 < now + INVITATION_TTL"
    and "suggestion (JString s1) = Some s1" "suggestion (JString s2) = Some s2"
    and "is_ascii address" "valid_address validate network address = Some ()"
  shows "\<exists>ask offered offer_text consent delivered.
    create_ask lib network (key_identity lib ac) ca now (Some sid) = Inr ask \<and>
    create_offer lib network (request_json ask) (key_identity lib ba) ab s1 t1 = Inr offered \<and>
    offer_json offered = Some offer_text \<and>
    create_consent lib network (key_identity lib ab) ba bc address (packet_json offered) t2 validate = Inr consent \<and>
    create_delivery lib network (key_identity lib ba) (key_identity lib ab) (key_identity lib ca) ac (request_json ask)
      offer_text (packet_json consent) s2 t3 validate = Inr delivered"
  by (rule introduction_completes [OF assms])

theorem introduction_runs_witness:
  "\<exists>ask offered offer_text consent delivered.
    create_ask example_library MainNet (id_of CHR ''a'') (key_of CHR ''c'') 1000 (Some (key_of CHR ''s'')) = Inr ask \<and>
    create_offer example_library MainNet (request_json ask) (id_of CHR ''b'') (key_of CHR ''d'') ''Carol'' 2000 = Inr offered \<and>
    offer_json offered = Some offer_text \<and>
    create_consent example_library MainNet (id_of CHR ''d'') (key_of CHR ''b'') (key_of CHR ''e'') ''u1fresh''
      (packet_json offered) 2000 any_address = Inr consent \<and>
    create_delivery example_library MainNet (id_of CHR ''b'') (id_of CHR ''d'') (id_of CHR ''c'') (key_of CHR ''a'')
      (request_json ask) offer_text (packet_json consent) ''Bob'' 2000 any_address = Inr delivered"
  unfolding id_of_def
  by (rule introduction_runs [OF example_honest length_key_of length_key_of length_key_of length_key_of length_key_of
        length_key_of example_ids example_times(1) _ _ _ example_times(2) example_times(2) example_times(2)
        example_names example_address]) simp_all

text \<open>
  C36: What Carol receives is what Bob consented to: when Bob creates a consent for a fresh key and an
  address and Alice turns exactly that packet into a delivery, the delivery carries the identity of
  Bob's fresh key, his address, the name Alice gave and the request that started it.
\<close>

theorem delivery_carries_the_consent:
  assumes "library_laws lib" "is_ascii address" "is_ascii suggested"
    and "create_consent lib network ab ba_secret bc_secret address offer_packet now validate = Inr consent"
    and "create_delivery lib network ba own_ab ca ac_secret req off (packet_json consent) suggested now' validate'
      = Inr delivered"
  shows "verified_identity delivered = Some (key_identity lib bc_secret) \<and>
    verified_address delivered = Some address \<and> verified_suggestion delivered = Some suggested \<and>
    request_json delivered = request_json consent"
  by (rule delivered_as_consented [OF assms])

theorem delivery_carries_the_consent_witness:
  "\<exists>req off (consent :: verified) delivered.
    create_delivery example_library MainNet (id_of CHR ''b'') (id_of CHR ''d'') (id_of CHR ''c'') (key_of CHR ''a'')
      req off (packet_json consent) ''Bob'' 2000 any_address = Inr delivered \<and>
    verified_identity delivered = Some (id_of CHR ''e'') \<and> verified_address delivered = Some ''u1fresh'' \<and>
    verified_suggestion delivered = Some ''Bob''"
proof -
  have ascii: "is_ascii ''Bob''" by (simp add: is_ascii_def)
  obtain ask offered consent delivered :: verified and offer_text where
    run: "create_consent example_library MainNet (id_of CHR ''d'') (key_of CHR ''b'') (key_of CHR ''e'') ''u1fresh''
      (packet_json offered) 2000 any_address = Inr consent"
    "create_delivery example_library MainNet (id_of CHR ''b'') (id_of CHR ''d'') (id_of CHR ''c'') (key_of CHR ''a'')
      (request_json ask) offer_text (packet_json consent) ''Bob'' 2000 any_address = Inr delivered"
    using example_introduction by blast
  from delivery_carries_the_consent [OF example_laws example_address(1) ascii run] run(2) show ?thesis
    unfolding id_of_def by blast
qed

text \<open>
  C38: An accepted delivery is endorsed and bound: the pinned contact signed an endorsement of the
  digests of the saved request and of the endpoint delivered, and the new identity, which is neither
  of the two parties', signed that endpoint with the address returned.
\<close>

theorem accepted_delivery_authentic:
  assumes "verify lib Delivery network peer own (Some req) None packet now validate = Inr v"
  shows "\<exists>r e subject address s. canonical lib req = Some r \<and> endpoint_json v = Some (print_json lib e) \<and>
    verified_identity v = Some subject \<and> verified_address v = Some address \<and> verified_suggestion v = Some s \<and>
    subject \<noteq> peer \<and> subject \<noteq> own \<and>
    signed_by lib peer [JString ''zcash-contact/intro-endorsement'', JString (wire_name network),
      JString (digest lib r), JString (digest lib e), JString s] \<and>
    signed_by lib subject [JString ''zcash-contact/intro-endpoint'', JString (wire_name network), JString (digest lib r),
      JString subject, JNumber (PosInt 1), JString address]"
proof -
  obtain p1 e a s subject address env where d: "canonical lib req = Some p1"
      "intro_request lib p1 network now = Some (request_hash v)"
      "signed_by lib peer [JString ''zcash-contact/intro-endorsement'', JString (wire_name network),
        JString (request_hash v), JString (digest lib e), JString s]"
      "endpoint lib e (request_hash v) network peer own validate = Some (subject, address)"
      "verified_identity v = Some subject" "verified_address v = Some address" "verified_suggestion v = Some s"
      "endpoint_json v = Some (print_json lib e)"
    using verify_delivery_Some [OF assms] by blast
  have "request_hash v = digest lib p1" using intro_request_Some [OF d(2)] by simp
  then show ?thesis
    using d endpoint_Some [OF d(4)] unfolding endpoint_fields_def
    by (intro exI [of _ p1] exI [of _ e] exI [of _ subject] exI [of _ address] exI [of _ s]) simp
qed

theorem accepted_delivery_authentic_witness:
  "\<exists>(v :: verified) subject address. verified_identity v = Some subject \<and> verified_address v = Some address \<and>
     subject \<noteq> id_of CHR ''a'' \<and> subject \<noteq> id_of CHR ''c''"
proof -
  let ?r = "invitation example_library MainNet (key_of CHR ''s'') 1000"
  have r: "request_ok example_library MainNet ?r 2000"
    by (rule invitation_request_ok [OF example_laws length_key_of example_times(1) _ example_times(2)]) simp
  have ids: "key_identity example_library (key_of CHR ''a'') \<noteq> key_identity example_library (key_of CHR ''c'')"
    "key_identity example_library (key_of CHR ''e'') \<noteq> key_identity example_library (key_of CHR ''a'')"
    "key_identity example_library (key_of CHR ''e'') \<noteq> key_identity example_library (key_of CHR ''c'')"
    using example_ids by auto
  obtain packet v where "verify example_library Delivery MainNet (id_of CHR ''a'') (id_of CHR ''c'')
      (Some (print_json example_library ?r)) None packet 2000 any_address = Inr v"
    using delivery_packet_complete [OF example_honest length_key_of length_key_of length_key_of ids r example_names(2)
        example_address refl] unfolding id_of_def by blast
  from accepted_delivery_authentic [OF this] show ?thesis by blast
qed

end
