(* ===== verification/ZnsAbi.thy ===== *)
theory ZnsAbi
  imports Contacts
begin

text \<open>
  Names on Base (\<open>rust/zns-core/src/abi.rs\<close> and the parsing functions of \<open>lib.rs\<close>): the calls of the
  registry and of the swap router, and the review of a quoted swap. A byte string is a list of 8-bit
  words, an address 20 of them, a \<open>B256\<close> 32; a \<open>U256\<close> is a natural number. The crates that encode and
  hash are the parameter \<open>zns_library\<close>.
\<close>

type_synonym octets = "8 word list"
type_synonym 'a zns_result = "string failure + 'a"

abbreviation err :: "string \<Rightarrow> 'a zns_result" where "err message \<equiv> Inl (Err message)"

section \<open>Calls\<close>

text \<open>The types that \<open>sol!\<close> generates: the structs, one constructor per call, and the returned tuples.\<close>

record swap_description =
  src_token :: octets
  dst_token :: octets
  src_receivers :: "octets list"
  src_amounts :: "nat list"
  fee_receivers :: "octets list"
  fee_amounts :: "nat list"
  dst_receiver :: octets
  swap_amount :: nat
  min_return_amount :: nat
  swap_flags :: nat
  permit :: octets

record swap_execution_params =
  call_target :: octets
  approve_target :: octets
  target_data :: octets
  desc :: swap_description
  client_data :: octets

record execution =
  execution_target :: octets
  execution_value :: nat
  execution_data :: octets

datatype abi_call =
    CommitCall octets
  | RegisterCall string string octets nat nat nat nat
  | RefreshCall nat
  | ClaimRewardsCall nat
  | ReleaseCall nat
  | SetUnifiedAddressCall nat string
  | WithdrawClaimsCall
  | SafeTransferFromCall octets octets nat
  | ApproveCall octets nat
  | ExecuteCall "execution list" nat
  | SwapCall swap_execution_params
  | CbZECCall
  | ProtocolIdCall
  | QuoteRegistrationCall string
  | MinCommitmentAgeCall
  | MaxCommitmentAgeCall
  | DecimalsCall
  | BalanceOfCall octets
  | AllowanceCall octets octets
  | CommitmentsCall octets octets
  | ClaimableOfCall octets
  | TokenOfOwnerByIndexCall octets nat
  | OwnerOfCall nat
  | PositionIdOfCall string
  | PositionInfoCall nat
  | ExitPreviewCall nat
  | AvailableCall string
  | ResolveCall string
  | RecordOfCall string

record quote_registration =
  minimum_deposit :: nat
  usd_target :: nat
  quote_mode :: nat
  price_updated_at :: nat

record position_info =
  position_owner :: octets
  position_name :: string
  position_unified_address :: string
  registered_at :: nat
  maturity_at :: nat
  refresh_due_at :: nat
  grace_ends_at :: nat
  participating :: bool
  retired :: bool
  reward_credit_scaled :: nat
  position_principal :: nat

record exit_preview =
  exit_early :: bool
  principal_returned :: nat
  rewards_returned :: nat
  principal_forfeited :: nat
  rewards_forfeited_scaled :: nat

record name_record =
  registrant :: octets
  record_unified_address :: string
  record_expiry :: nat
  record_active :: bool

section \<open>Libraries\<close>

text \<open>
  \<open>alloy_primitives\<close>, \<open>alloy_sol_types\<close>, \<open>hex\<close>, \<open>rlp\<close>, \<open>k256\<close> and \<open>bip32\<close>, as far as the code calls
  them. An item of an RLP stream is a byte string, a list, or bytes appended as they are.
\<close>

datatype rlp = RBytes octets | RList "rlp list" | RRaw octets

record 'k zns_library =
  parse_address :: "string \<Rightarrow> octets option"
  to_checksum :: "octets \<Rightarrow> string"
  parse_b256 :: "string \<Rightarrow> octets option"
  b256_text :: "octets \<Rightarrow> string"
  parse_u256 :: "string \<Rightarrow> nat option"
  u256_text :: "nat \<Rightarrow> string"
  hex_decode :: "string \<Rightarrow> octets option"
  hex_encode :: "octets \<Rightarrow> string"
  keccak256 :: "octets \<Rightarrow> octets"
  abi_encode :: "abi_call \<Rightarrow> octets"
  decode_swap_call :: "octets \<Rightarrow> swap_execution_params option"
  encode_commitment :: "octets \<Rightarrow> octets \<Rightarrow> octets \<Rightarrow> nat \<Rightarrow> string \<Rightarrow> string \<Rightarrow> octets \<Rightarrow> octets \<Rightarrow> octets"
  decode_address :: "octets \<Rightarrow> octets option"
  decode_b256 :: "octets \<Rightarrow> octets option"
  decode_u256 :: "octets \<Rightarrow> nat option"
  decode_u64 :: "octets \<Rightarrow> nat option"
  decode_string :: "octets \<Rightarrow> string option"
  decode_bool :: "octets \<Rightarrow> bool option"
  decode_decimals :: "octets \<Rightarrow> nat option"
  decode_claimable :: "octets \<Rightarrow> (nat \<times> nat) option"
  decode_quote :: "octets \<Rightarrow> quote_registration option"
  decode_position_info :: "octets \<Rightarrow> position_info option"
  decode_exit_preview :: "octets \<Rightarrow> exit_preview option"
  decode_name_record :: "octets \<Rightarrow> name_record option"
  rlp_out :: "rlp \<Rightarrow> octets"
  sign_prehash_recoverable :: "'k \<Rightarrow> octets \<Rightarrow> (nat \<times> nat \<times> nat) option"
  verifying_point :: "'k \<Rightarrow> octets"
  derive_from_path :: "string \<Rightarrow> string \<Rightarrow> 'k option"

section \<open>Texts\<close>

definition PROTOCOL_ID :: string where
  "PROTOCOL_ID = ''0x341e17a38bbce04892f4e0d0ff4a570669fb9e5addb830fd0bee83cd44ce0520''"

definition address_zero :: octets where "address_zero = replicate 20 0"

definition address :: "'k zns_library \<Rightarrow> string \<Rightarrow> octets zns_result" where
  "address lib s = ok_or (parse_address lib s) (Err ''Invalid EVM address'')"

definition ascii_digit :: "char \<Rightarrow> bool" where
  "ascii_digit c \<longleftrightarrow> 48 \<le> (of_char c :: nat) \<and> (of_char c :: nat) \<le> 57"

definition number :: "'k zns_library \<Rightarrow> string \<Rightarrow> nat zns_result" where
  "number lib s =
     (if s = [] \<or> \<not> list_all ascii_digit s then err ''Amounts must be unsigned decimal integer strings''
      else ok_or (parse_u256 lib s) (Err ''Amount exceeds uint256''))"

definition bytes :: "'k zns_library \<Rightarrow> string \<Rightarrow> octets zns_result" where
  "bytes lib s =
     and_then (ok_or (strip_prefix ''0x'' s) (Err ''Hex must start with 0x'')) (\<lambda>rest.
     ok_or (hex_decode lib rest) (Err ''Invalid hex''))"

definition label_byte :: "char \<Rightarrow> bool" where
  "label_byte c \<longleftrightarrow> 97 \<le> (of_char c :: nat) \<and> (of_char c :: nat) \<le> 122 \<or> ascii_digit c \<or> c = CHR ''-''"

text \<open>The dash of the message is the three bytes of its UTF-8 form.\<close>

definition validate_name :: "string \<Rightarrow> unit zns_result" where
  "validate_name s =
     (if s = [] \<or> length s > 63 \<or> hd s = CHR ''-'' \<or> last s = CHR ''-'' \<or> \<not> list_all label_byte s
      then err (''Use a lowercase ASCII label of 1'' @ [CHR 0xE2, CHR 0x80, CHR 0x93] @
                ''63 letters, digits or internal hyphens'')
      else Inr ())"

definition commitment ::
  "'k zns_library \<Rightarrow> octets \<Rightarrow> nat \<Rightarrow> string \<Rightarrow> string \<Rightarrow> octets \<Rightarrow> octets \<Rightarrow> octets zns_result" where
  "commitment lib registry chain name_text ua owner secret =
     (let type_hash = keccak256 lib (map byte_of ''ZNS commitment(bytes32 protocolId,address registry,uint256 chainId,string name,string unifiedAddress,address registrant,bytes32 secret)'') in
      and_then (ok_or (parse_b256 lib PROTOCOL_ID) Panic) (\<lambda>protocol.
      Inr (keccak256 lib (encode_commitment lib type_hash protocol registry chain name_text ua owner secret))))"

section \<open>Reading the registry\<close>

definition hex_text :: "'k zns_library \<Rightarrow> octets \<Rightarrow> string" where
  "hex_text lib data = ''0x'' @ hex_encode lib data"

definition json_get :: "json \<Rightarrow> string \<Rightarrow> json option" where
  "json_get v key = (case v of JObject kvs \<Rightarrow> map_of kvs key | _ \<Rightarrow> None)"

definition read_field :: "json \<Rightarrow> string \<Rightarrow> string zns_result" where
  "read_field args key = ok_or (do { v \<leftarrow> json_get args key; as_str v }) (Err (''Missing '' @ key))"

definition read_name :: "json \<Rightarrow> string zns_result" where
  "read_name args =
     and_then (read_field args ''name'') (\<lambda>s. and_then (validate_name s) (\<lambda>_. Inr s))"

definition read_address :: "'k zns_library \<Rightarrow> json \<Rightarrow> string \<Rightarrow> octets zns_result" where
  "read_address lib args key = and_then (read_field args key) (address lib)"

definition read_number :: "'k zns_library \<Rightarrow> json \<Rightarrow> string \<Rightarrow> nat zns_result" where
  "read_number lib args key = and_then (read_field args key) (number lib)"

definition read_request :: "'k zns_library \<Rightarrow> string \<Rightarrow> json \<Rightarrow> abi_call zns_result" where
  "read_request lib method args =
     (if method = ''cbZEC'' then Inr CbZECCall
      else if method = ''protocolId'' then Inr ProtocolIdCall
      else if method = ''quoteRegistration'' then and_then (read_name args) (Inr \<circ> QuoteRegistrationCall)
      else if method = ''MIN_COMMITMENT_AGE'' then Inr MinCommitmentAgeCall
      else if method = ''MAX_COMMITMENT_AGE'' then Inr MaxCommitmentAgeCall
      else if method = ''decimals'' then Inr DecimalsCall
      else if method = ''balanceOf'' then and_then (read_address lib args ''owner'') (Inr \<circ> BalanceOfCall)
      else if method = ''allowance'' then
        and_then (read_address lib args ''owner'') (\<lambda>owner.
        and_then (read_address lib args ''spender'') (\<lambda>spender. Inr (AllowanceCall owner spender)))
      else if method = ''commitments'' then
        and_then (read_address lib args ''owner'') (\<lambda>owner.
        and_then (read_field args ''commitment'') (\<lambda>text.
        and_then (ok_or (parse_b256 lib text) (Err ''Invalid commitment'')) (\<lambda>hash.
        Inr (CommitmentsCall owner hash))))
      else if method = ''claimableOf'' then and_then (read_address lib args ''owner'') (Inr \<circ> ClaimableOfCall)
      else if method = ''tokenOfOwnerByIndex'' then
        and_then (read_address lib args ''owner'') (\<lambda>owner.
        and_then (read_number lib args ''index'') (\<lambda>index. Inr (TokenOfOwnerByIndexCall owner index)))
      else if method = ''ownerOf'' then and_then (read_number lib args ''positionId'') (Inr \<circ> OwnerOfCall)
      else if method = ''positionIdOf'' then and_then (read_name args) (Inr \<circ> PositionIdOfCall)
      else if method = ''positionInfo'' then and_then (read_number lib args ''positionId'') (Inr \<circ> PositionInfoCall)
      else if method = ''exitPreview'' then and_then (read_number lib args ''positionId'') (Inr \<circ> ExitPreviewCall)
      else if method = ''available'' then and_then (read_name args) (Inr \<circ> AvailableCall)
      else if method = ''resolve'' then and_then (read_name args) (Inr \<circ> ResolveCall)
      else if method = ''recordOf'' then and_then (read_name args) (Inr \<circ> RecordOfCall)
      else err ''Unsupported ZNS read method'')"

definition read_call :: "'k zns_library \<Rightarrow> string \<Rightarrow> json \<Rightarrow> string zns_result" where
  "read_call lib method args =
     and_then (read_request lib method args) (\<lambda>call. Inr (hex_text lib (abi_encode lib call)))"

text \<open>A JSON object is listed in the order of the code; its keys are looked up by name.\<close>

definition decode_result :: "'k zns_library \<Rightarrow> string \<Rightarrow> string \<Rightarrow> json zns_result" where
  "decode_result lib method text =
     and_then (bytes lib text) (\<lambda>data.
     let bad = Err ''Invalid ABI response''; quoted = (\<lambda>n. JString (u256_text lib n)) in
     if method \<in> {''cbZEC'', ''ownerOf''} then
       and_then (ok_or (decode_address lib data) bad) (\<lambda>a. Inr (JString (to_checksum lib a)))
     else if method = ''protocolId'' then
       and_then (ok_or (decode_b256 lib data) bad) (\<lambda>h. Inr (JString (b256_text lib h)))
     else if method \<in> {''MIN_COMMITMENT_AGE'', ''MAX_COMMITMENT_AGE'', ''balanceOf'', ''allowance'',
         ''tokenOfOwnerByIndex'', ''positionIdOf''} then
       and_then (ok_or (decode_u256 lib data) bad) (\<lambda>n. Inr (quoted n))
     else if method = ''decimals'' then
       and_then (ok_or (decode_decimals lib data) bad) (\<lambda>n. Inr (JNumber (PosInt n)))
     else if method = ''commitments'' then
       and_then (ok_or (decode_u64 lib data) bad) (\<lambda>n. Inr (quoted n))
     else if method = ''resolve'' then
       and_then (ok_or (decode_string lib data) bad) (\<lambda>s. Inr (JString s))
     else if method = ''available'' then
       and_then (ok_or (decode_bool lib data) bad) (\<lambda>b. Inr (JBool b))
     else if method = ''claimableOf'' then
       and_then (ok_or (decode_claimable lib data) bad) (\<lambda>(principal, rewards).
       Inr (JObject [(''principal'', quoted principal), (''rewardsScaled'', quoted rewards)]))
     else if method = ''quoteRegistration'' then
       and_then (ok_or (decode_quote lib data) bad) (\<lambda>v.
       if quote_mode v > 1 \<or> minimum_deposit v = 0 then err ''Unsupported registration quote''
       else Inr (JObject [(''minimumDeposit'', quoted (minimum_deposit v)), (''usdTarget'', quoted (usd_target v)),
         (''mode'', JNumber (PosInt (quote_mode v))), (''priceUpdatedAt'', quoted (price_updated_at v))]))
     else if method = ''positionInfo'' then
       and_then (ok_or (decode_position_info lib data) bad) (\<lambda>v.
       Inr (JObject [(''owner'', JString (to_checksum lib (position_owner v))), (''name'', JString (position_name v)),
         (''unifiedAddress'', JString (position_unified_address v)), (''registeredAt'', quoted (registered_at v)),
         (''maturityAt'', quoted (maturity_at v)), (''refreshDueAt'', quoted (refresh_due_at v)),
         (''graceEndsAt'', quoted (grace_ends_at v)), (''participating'', JBool (participating v)),
         (''retired'', JBool (retired v)), (''rewardCreditScaled'', quoted (reward_credit_scaled v)),
         (''principal'', quoted (position_principal v))]))
     else if method = ''exitPreview'' then
       and_then (ok_or (decode_exit_preview lib data) bad) (\<lambda>v.
       Inr (JObject [(''early'', JBool (exit_early v)), (''principalReturned'', quoted (principal_returned v)),
         (''rewardsReturned'', quoted (rewards_returned v)), (''principalForfeited'', quoted (principal_forfeited v)),
         (''rewardsForfeitedScaled'', quoted (rewards_forfeited_scaled v))]))
     else if method = ''recordOf'' then
       and_then (ok_or (decode_name_record lib data) bad) (\<lambda>v.
       Inr (JObject [(''registrant'', JString (to_checksum lib (registrant v))),
         (''unifiedAddress'', JString (record_unified_address v)), (''expiry'', quoted (record_expiry v)),
         (''active'', JBool (record_active v))]))
     else err ''Unsupported ZNS read method'')"

section \<open>Swaps\<close>

definition NATIVE_TOKEN :: string where "NATIVE_TOKEN = ''0xEeeeeEeeeEeEeeEeEeEeeEEEeeeeEeeeeeeeEEeE''"

definition review_swap ::
  "'k zns_library \<Rightarrow> octets \<Rightarrow> string \<Rightarrow> string \<Rightarrow> octets \<Rightarrow> octets \<Rightarrow> nat \<Rightarrow> swap_execution_params \<Rightarrow>
     octets zns_result" where
  "review_swap lib data value_text minimum_output owner token max_value call =
     (let d = desc call in
      and_then (number lib value_text) (\<lambda>amount.
      and_then (number lib minimum_output) (\<lambda>least.
      and_then (address lib NATIVE_TOKEN) (\<lambda>native.
      if src_token d \<noteq> native \<or> dst_token d \<noteq> token \<or> dst_receiver d \<noteq> owner then
        err ''Swap must exchange native ETH for this account's cbZEC''
      else if amount = 0 \<or> amount > max_value \<or> swap_amount d \<noteq> amount \<or> least = 0 \<or> min_return_amount d < least then
        err ''Swap amount or minimum output exceeds the reviewed intent''
      else if swap_flags d \<notin> {0, 512} \<or> permit d \<noteq> [] \<or> fee_receivers d \<noteq> [] \<or> fee_amounts d \<noteq> [] \<or>
          src_receivers d \<noteq> [] \<or> src_amounts d \<noteq> [] then
        err ''Unsupported swap flags, fees, source distribution, or permit''
      else if approve_target call \<noteq> address_zero \<or> call_target call = address_zero then
        err ''Native swap must not request token approval''
      else Inr data))))"

definition validate_swap ::
  "'k zns_library \<Rightarrow> string \<Rightarrow> string \<Rightarrow> string \<Rightarrow> octets \<Rightarrow> octets \<Rightarrow> nat \<Rightarrow> octets zns_result" where
  "validate_swap lib text value_text minimum_output owner token max_value =
     and_then (bytes lib text) (\<lambda>data.
     if length data > 64 * 1024 then err ''Swap calldata is too large''
     else
       and_then (ok_or (decode_swap_call lib data) (Err ''Unsupported or malformed Kyber swap calldata'')) (\<lambda>call.
       if abi_encode lib (SwapCall call) \<noteq> data then err ''Noncanonical swap calldata''
       else review_swap lib data value_text minimum_output owner token max_value call))"

end
