(* ===== verification/Zns.thy ===== *)
theory Zns
  imports ZnsAbi
begin

text \<open>
  Preparing an operation on a name (\<open>rust/zns-core/src/lib.rs\<close>): the reviewed configuration, the
  operations, and the target, value and calldata that an operation is turned into.
\<close>

section \<open>Configuration\<close>

definition CBZEC :: string where "CBZEC = ''0xB2000000000000000000008501b13360000cb2EC''"
definition KYBER :: string where "KYBER = ''0x6131B5fae19EA4f9D964eAc0408E4408b66337b5''"
definition BASE_EXECUTOR :: string where "BASE_EXECUTOR = ''0x8f10b468b06c6fd214b65f87778827f7d113f996''"

record zns_config =
  protocol_id :: string
  chain_id :: nat
  registry_text :: string
  token_text :: string
  router_text :: "string option"
  delegate_text :: "string option"
  allow_test_chain :: bool
  max_value_wei :: string
  max_gas_limit :: string
  max_fee_per_gas_wei :: string
  max_total_fee_wei :: string
  max_token_amount :: string

text \<open>A condition of the code that evaluates fallible parts, such as \<open>address(x)? == a || address(y)? == b\<close>.\<close>

definition or_else :: "bool zns_result \<Rightarrow> bool zns_result \<Rightarrow> bool zns_result" where
  "or_else a b = and_then a (\<lambda>x. if x then Inr True else b)"

definition address_is :: "'k zns_library \<Rightarrow> string \<Rightarrow> octets \<Rightarrow> bool zns_result" where
  "address_is lib s a = and_then (address lib s) (\<lambda>x. Inr (x = a))"

definition reject_if :: "bool zns_result \<Rightarrow> string \<Rightarrow> unit zns_result" where
  "reject_if condition message = and_then condition (\<lambda>c. if c then err message else Inr ())"

definition differs :: "'k zns_library \<Rightarrow> string \<Rightarrow> string \<Rightarrow> bool zns_result" where
  "differs lib s expected =
     and_then (address lib s) (\<lambda>x. and_then (address lib expected) (\<lambda>e. Inr (x \<noteq> e)))"

definition positive_limit :: "'k zns_library \<Rightarrow> string \<Rightarrow> unit zns_result" where
  "positive_limit lib limit =
     and_then (number lib limit) (\<lambda>n. if n = 0 then err ''Signing limits must be positive'' else Inr ())"

definition validate_router :: "'k zns_library \<Rightarrow> zns_config \<Rightarrow> unit zns_result" where
  "validate_router lib c = (case router_text c of None \<Rightarrow> Inr () | Some router \<Rightarrow>
     reject_if (or_else (address_is lib router address_zero)
         (if chain_id c = 8453 then differs lib router KYBER else Inr False))
       ''Unsupported swap router'')"

definition validate_delegate :: "'k zns_library \<Rightarrow> zns_config \<Rightarrow> unit zns_result" where
  "validate_delegate lib c = (case delegate_text c of None \<Rightarrow> Inr () | Some delegate \<Rightarrow>
     reject_if (address_is lib delegate address_zero) ''Delegate cannot be zero'')"

definition validate_config :: "'k zns_library \<Rightarrow> zns_config \<Rightarrow> unit zns_result" where
  "validate_config lib c =
     and_then (ok_or (parse_b256 lib (protocol_id c)) (Err ''Invalid ZNS protocol identifier'')) (\<lambda>protocol.
     and_then (ok_or (parse_b256 lib PROTOCOL_ID) Panic) (\<lambda>expected.
     if protocol \<noteq> expected then err ''Unsupported ZNS economics or protocol identifier''
     else if chain_id c \<noteq> 8453 \<and> \<not> (allow_test_chain c \<and> chain_id c \<in> {84532, 31337}) then
       err ''Only Base, or explicitly enabled test chains, are supported''
     else
       and_then (reject_if (or_else (address_is lib (registry_text c) address_zero)
           (address_is lib (token_text c) address_zero)) ''Registry and token must be configured'') (\<lambda>_.
       and_then (reject_if (if chain_id c = 8453 then differs lib (token_text c) CBZEC else Inr False)
           ''Base mainnet requires canonical cbZEC'') (\<lambda>_.
       and_then (validate_router lib c) (\<lambda>_.
       and_then (validate_delegate lib c) (\<lambda>_.
       and_then (number lib (max_value_wei c)) (\<lambda>_.
       try_fold (\<lambda>_ limit. positive_limit lib limit) ()
         [max_gas_limit c, max_fee_per_gas_wei c, max_total_fee_wei c, max_token_amount c])))))))"

section \<open>Operations\<close>

record swap_intent =
  swap_data :: string
  swap_value :: string
  minimum_output :: string

record registration =
  reg_name :: string
  reg_unified_address :: string
  reg_secret :: string
  reg_max_deposit :: string
  reg_extra_deposit :: string
  reg_pricing_mode :: nat
  reg_deadline :: string

datatype operation =
    Commit string string string
  | Approve string
  | Register registration
  | Refresh string
  | ClaimRewards string
  | Release string
  | Update string string
  | Transfer string string
  | WithdrawClaims
  | Swap swap_intent
  | AtomicRegister registration string "swap_intent option" string

record prepared =
  prepared_to :: string
  prepared_value :: string
  prepared_data :: string
  prepared_commitment :: "string option"
  authorization_required :: bool

definition valid_address_length :: "string \<Rightarrow> bool" where
  "valid_address_length ua \<longleftrightarrow> ua \<noteq> [] \<and> length ua \<le> 512"

definition validate_registration :: "string \<Rightarrow> string \<Rightarrow> unit zns_result" where
  "validate_registration name_text ua =
     and_then (validate_name name_text) (\<lambda>_.
     if \<not> valid_address_length ua then err ''Invalid Unified Address length'' else Inr ())"

definition parse_secret :: "'k zns_library \<Rightarrow> string \<Rightarrow> octets zns_result" where
  "parse_secret lib s =
     and_then (ok_or (parse_b256 lib s) (Err ''Secret must be 32 bytes'')) (\<lambda>secret.
     if secret = replicate 32 0 then err ''Secret cannot be zero'' else Inr secret)"

definition approval :: "'k zns_library \<Rightarrow> zns_config \<Rightarrow> octets \<Rightarrow> string \<Rightarrow> abi_call zns_result" where
  "approval lib c registry amount_text =
     and_then (number lib amount_text) (\<lambda>amount.
     and_then (number lib (max_token_amount c)) (\<lambda>limit.
     if amount > limit then err ''Token approval exceeds reviewed limit''
     else Inr (ApproveCall registry amount)))"

definition position :: "'k zns_library \<Rightarrow> string \<Rightarrow> nat zns_result" where
  "position lib id_text =
     and_then (number lib id_text) (\<lambda>n. if n = 0 then err ''Position id must be positive'' else Inr n)"

definition registration_limits ::
  "'k zns_library \<Rightarrow> zns_config \<Rightarrow> string \<Rightarrow> string \<Rightarrow> nat \<Rightarrow> string \<Rightarrow> (nat \<times> nat \<times> nat) zns_result" where
  "registration_limits lib c max_text extra_text mode deadline_text =
     and_then (number lib max_text) (\<lambda>most.
     and_then (number lib extra_text) (\<lambda>extra.
     and_then (number lib deadline_text) (\<lambda>deadline.
     and_then (reject_if (or_else (Inr (most = 0))
         (and_then (number lib (max_token_amount c)) (\<lambda>limit. Inr (most > limit))))
       ''Registration deposit exceeds reviewed limit'') (\<lambda>_.
     if extra \<ge> most then err ''Extra deposit must leave room for the minimum deposit''
     else if mode > 1 then err ''Unsupported registration pricing mode''
     else if deadline = 0 then err ''Registration deadline must be positive''
     else Inr (most, extra, deadline)))))"

definition validate_mainnet_executor :: "'k zns_library \<Rightarrow> nat \<Rightarrow> octets \<Rightarrow> unit zns_result" where
  "validate_mainnet_executor lib chain data =
     (if chain = 8453 then
        and_then (ok_or (decode_swap_call lib data) (Err ''Invalid swap'')) (\<lambda>call.
        and_then (address lib BASE_EXECUTOR) (\<lambda>executor.
        if call_target call \<noteq> executor then err ''Unsupported Base swap executor'' else Inr ()))
      else Inr ())"

text \<open>The target, the calldata, which the code keeps encoded, and the amount of a reviewed swap.\<close>

definition reviewed_swap ::
  "'k zns_library \<Rightarrow> zns_config \<Rightarrow> octets \<Rightarrow> octets \<Rightarrow> swap_intent \<Rightarrow> (octets \<times> octets) zns_result" where
  "reviewed_swap lib c owner token intent =
     and_then (ok_or (router_text c) (Err ''Swap router is not configured'')) (\<lambda>router.
     and_then (address lib router) (\<lambda>target.
     and_then (number lib (max_value_wei c)) (\<lambda>max_value.
     and_then (validate_swap lib (swap_data intent) (swap_value intent) (minimum_output intent) owner token max_value)
       (\<lambda>data.
     and_then (validate_mainnet_executor lib (chain_id c) data) (\<lambda>_.
     Inr (target, data))))))"

definition register_call ::
  "'k zns_library \<Rightarrow> registration \<Rightarrow> nat \<times> nat \<times> nat \<Rightarrow> abi_call zns_result" where
  "register_call lib r limits = (case limits of (most, extra, deadline) \<Rightarrow>
     and_then (parse_secret lib (reg_secret r)) (\<lambda>secret.
     Inr (RegisterCall (reg_name r) (reg_unified_address r) secret most extra (reg_pricing_mode r) deadline)))"

definition checked_registration ::
  "'k zns_library \<Rightarrow> zns_config \<Rightarrow> registration \<Rightarrow> (nat \<times> nat \<times> nat) zns_result" where
  "checked_registration lib c r =
     and_then (validate_registration (reg_name r) (reg_unified_address r)) (\<lambda>_.
     registration_limits lib c (reg_max_deposit r) (reg_extra_deposit r) (reg_pricing_mode r) (reg_deadline r))"

definition atomic_swap ::
  "'k zns_library \<Rightarrow> zns_config \<Rightarrow> octets \<Rightarrow> octets \<Rightarrow> string \<Rightarrow> string \<Rightarrow> swap_intent \<Rightarrow> execution zns_result" where
  "atomic_swap lib c owner token amount_text existing_token_units intent =
     and_then (reviewed_swap lib c owner token intent) (\<lambda>(target, data).
     and_then (number lib existing_token_units) (\<lambda>existing.
     and_then (number lib amount_text) (\<lambda>required.
     and_then (reject_if (or_else (Inr (existing > required))
         (and_then (number lib (minimum_output intent)) (\<lambda>least.
          and_then (ok_or (checked_add 256 least existing) (Err ''Token amount overflow'')) (\<lambda>total.
          Inr (total < required)))))
       ''Swap minimum plus existing cbZEC must cover the exact registration approval'') (\<lambda>_.
     and_then (number lib (swap_value intent)) (\<lambda>amount.
     Inr \<lparr> execution_target = target, execution_value = amount, execution_data = data \<rparr>)))))"

definition atomic_calls ::
  "'k zns_library \<Rightarrow> zns_config \<Rightarrow> octets \<Rightarrow> octets \<Rightarrow> octets \<Rightarrow> registration \<Rightarrow> string \<Rightarrow> swap_intent option \<Rightarrow>
     string \<Rightarrow> nat \<times> nat \<times> nat \<Rightarrow> execution list zns_result" where
  "atomic_calls lib c owner registry token r amount_text swap existing_token_units limits =
     and_then (case swap of None \<Rightarrow> Inr [] | Some intent \<Rightarrow>
       and_then (atomic_swap lib c owner token amount_text existing_token_units intent) (\<lambda>e. Inr [e])) (\<lambda>first.
     and_then (approval lib c registry amount_text) (\<lambda>approve.
     and_then (register_call lib r limits) (\<lambda>register.
     Inr (first @
       [\<lparr> execution_target = token, execution_value = 0, execution_data = abi_encode lib approve \<rparr>,
        \<lparr> execution_target = registry, execution_value = 0, execution_data = abi_encode lib register \<rparr>]))))"

text \<open>What the arms of the code's match give: target, value, calldata, commitment and authorization.\<close>

type_synonym call_parts = "octets \<times> nat \<times> octets \<times> string option \<times> bool"

definition plain_call :: "'k zns_library \<Rightarrow> octets \<Rightarrow> abi_call \<Rightarrow> call_parts zns_result" where
  "plain_call lib target call = Inr (target, 0, abi_encode lib call, None, False)"

definition on_position ::
  "'k zns_library \<Rightarrow> octets \<Rightarrow> (nat \<Rightarrow> abi_call) \<Rightarrow> string \<Rightarrow> call_parts zns_result" where
  "on_position lib registry call id_text =
     and_then (position lib id_text) (\<lambda>n. plain_call lib registry (call n))"

definition prepare_operation ::
  "'k zns_library \<Rightarrow> zns_config \<Rightarrow> octets \<Rightarrow> octets \<Rightarrow> octets \<Rightarrow> operation \<Rightarrow> call_parts zns_result" where
  "prepare_operation lib c owner registry token op = (case op of
      Commit name_text ua secret_text \<Rightarrow>
        and_then (validate_registration name_text ua) (\<lambda>_.
        and_then (parse_secret lib secret_text) (\<lambda>secret.
        and_then (commitment lib registry (chain_id c) name_text ua owner secret) (\<lambda>hash.
        Inr (registry, 0, abi_encode lib (CommitCall hash), Some (b256_text lib hash), False))))
    | Approve amount_text \<Rightarrow>
        and_then (approval lib c registry amount_text) (\<lambda>call. plain_call lib token call)
    | Register r \<Rightarrow>
        and_then (checked_registration lib c r) (\<lambda>limits.
        and_then (register_call lib r limits) (\<lambda>call. plain_call lib registry call))
    | Refresh id_text \<Rightarrow> on_position lib registry RefreshCall id_text
    | ClaimRewards id_text \<Rightarrow> on_position lib registry ClaimRewardsCall id_text
    | Release id_text \<Rightarrow> on_position lib registry ReleaseCall id_text
    | Update id_text ua \<Rightarrow>
        if \<not> valid_address_length ua then err ''Invalid Unified Address length''
        else on_position lib registry (\<lambda>n. SetUnifiedAddressCall n ua) id_text
    | Transfer id_text recipient_text \<Rightarrow>
        and_then (address lib recipient_text) (\<lambda>recipient.
        if recipient = address_zero \<or> recipient = owner \<or> recipient = registry
        then err ''Invalid NFT transfer recipient''
        else on_position lib registry (SafeTransferFromCall owner recipient) id_text)
    | WithdrawClaims \<Rightarrow> plain_call lib registry WithdrawClaimsCall
    | Swap intent \<Rightarrow>
        and_then (reviewed_swap lib c owner token intent) (\<lambda>(target, data).
        and_then (number lib (swap_value intent)) (\<lambda>amount.
        Inr (target, amount, data, None, False)))
    | AtomicRegister r amount_text swap existing_token_units \<Rightarrow>
        and_then (checked_registration lib c r) (\<lambda>limits.
        and_then (number lib amount_text) (\<lambda>amount.
        if amount \<noteq> fst limits then err ''Atomic approval must equal the reviewed deposit ceiling''
        else
          and_then (ok_or (delegate_text c) (Err ''Atomic registration delegate is not configured'')) (\<lambda>_.
          and_then (atomic_calls lib c owner registry token r amount_text swap existing_token_units limits) (\<lambda>calls.
          Inr (owner, 0, abi_encode lib (ExecuteCall calls (snd (snd limits))), None, True))))))"

definition prepare :: "'k zns_library \<Rightarrow> zns_config \<Rightarrow> string \<Rightarrow> operation \<Rightarrow> prepared zns_result" where
  "prepare lib c owner_text op =
     and_then (validate_config lib c) (\<lambda>_.
     and_then (address lib owner_text) (\<lambda>owner.
     if owner = address_zero then err ''Owner cannot be zero''
     else
       and_then (address lib (registry_text c)) (\<lambda>registry.
       and_then (address lib (token_text c)) (\<lambda>token.
       and_then (prepare_operation lib c owner registry token op) (\<lambda>(target, amount, data, hash, authorization).
       Inr \<lparr> prepared_to = to_checksum lib target, prepared_value = u256_text lib amount,
             prepared_data = hex_text lib data, prepared_commitment = hash,
             authorization_required = authorization \<rparr>)))))"

section \<open>Keys\<close>

fun decimal_digits :: "nat \<Rightarrow> string" where
  "decimal_digits n = (if n < 10 then [char_of (48 + n)] else decimal_digits (n div 10) @ [char_of (48 + n mod 10)])"

declare decimal_digits.simps [simp del]

definition derivation_path :: "nat \<Rightarrow> string zns_result" where
  "derivation_path account_index =
     (if account_index \<ge> 2 ^ 31 then err ''Account index is outside the hardened BIP32 range''
      else Inr (''m/44'' @ [CHR 0x27] @ ''/60'' @ [CHR 0x27, CHR ''/''] @ decimal_digits account_index @
                [CHR 0x27] @ ''/0/0''))"

text \<open>The path is parsed and walked by \<open>bip32\<close>, of which \<open>derive_from_path\<close> is the composition.\<close>

definition derive_key :: "'k zns_library \<Rightarrow> string \<Rightarrow> nat \<Rightarrow> 'k zns_result" where
  "derive_key lib seed account_index =
     and_then (derivation_path account_index) (\<lambda>path.
     ok_or (derive_from_path lib seed path) (Err ''Base account derivation failed''))"

definition key_address :: "'k zns_library \<Rightarrow> 'k \<Rightarrow> octets" where
  "key_address lib key = drop 12 (keccak256 lib (tl (verifying_point lib key)))"

definition random_secret :: "'k zns_library \<Rightarrow> octets \<Rightarrow> string" where
  "random_secret lib draw = hex_text lib draw"

end
