(* ===== verification/ZnsSign.thy ===== *)
theory ZnsSign
  imports Zns
begin

text \<open>
  Signing a prepared operation (\<open>rust/zns-core/src/transaction.rs\<close>): the review of nonce, gas and fees,
  the fields of an EIP-1559 or EIP-7702 transaction as an RLP list, and the delegation it may carry.
\<close>

section \<open>Data\<close>

record zns_transaction =
  nonce_text :: string
  gas_limit_text :: string
  max_fee_text :: string
  max_priority_fee_text :: string
  l1_fee_text :: string

record signed_transaction =
  raw_transaction :: string
  transaction_hash :: string
  signed_from :: string
  transaction_type :: nat
  l1_fee_estimate_wei :: string
  maximum_execution_fee_wei :: string
  authorization_nonce :: "string option"

section \<open>RLP items\<close>

definition u256_be_bytes :: "nat \<Rightarrow> octets" where
  "u256_be_bytes n = map (\<lambda>i. of_nat (n div 256 ^ (31 - i))) [0 ..< 32]"

definition append_number :: "nat \<Rightarrow> rlp" where
  "append_number n = RBytes (dropWhile (\<lambda>b. b = 0) (u256_be_bytes n))"

definition append_signature :: "nat \<times> nat \<Rightarrow> nat \<Rightarrow> rlp list" where
  "append_signature signature parity =
     [append_number parity, append_number (fst signature), append_number (snd signature)]"

definition sign_recoverable :: "'k zns_library \<Rightarrow> 'k \<Rightarrow> octets \<Rightarrow> string \<Rightarrow> rlp list zns_result" where
  "sign_recoverable lib key payload failed =
     and_then (ok_or (sign_prehash_recoverable lib key (keccak256 lib payload)) (Err failed)) (\<lambda>(r, s, recovery_id).
     if recovery_id > 1 then err ''Unsupported Ethereum recovery identifier''
     else Inr (append_signature (r, s) recovery_id))"

definition authorization :: "'k zns_library \<Rightarrow> 'k \<Rightarrow> nat \<Rightarrow> octets \<Rightarrow> nat \<Rightarrow> octets zns_result" where
  "authorization lib key chain delegate nonce =
     (let fields = [append_number chain, RBytes delegate, append_number nonce] in
      and_then (sign_recoverable lib key (0x05 # rlp_out lib (RList fields)) ''Authorization signing failed'')
        (\<lambda>signature. Inr (rlp_out lib (RList (fields @ signature)))))"

section \<open>Signing\<close>

text \<open>\<open>str::parse::<u64>\<close> of the standard library: an optional plus sign and at least one digit.\<close>

definition digits_value :: "string \<Rightarrow> nat" where
  "digits_value s = foldl (\<lambda>n c. 10 * n + (of_char c - 48)) 0 s"

definition parse_u64 :: "string \<Rightarrow> nat option" where
  "parse_u64 s =
     (let digits = (if s \<noteq> [] \<and> hd s = CHR ''+'' then tl s else s) in
      if digits = [] \<or> \<not> list_all ascii_digit digits then None
      else if digits_value digits < 2 ^ 64 then Some (digits_value digits) else None)"

record reviewed_fees =
  reviewed_gas :: nat
  reviewed_max_fee :: nat
  reviewed_priority :: nat
  reviewed_l1_fee :: nat
  reviewed_execution_fee :: nat

definition review_fees :: "'k zns_library \<Rightarrow> zns_config \<Rightarrow> zns_transaction \<Rightarrow> reviewed_fees zns_result" where
  "review_fees lib c tx =
     and_then (number lib (gas_limit_text tx)) (\<lambda>gas.
     and_then (number lib (max_fee_text tx)) (\<lambda>max_fee.
     and_then (number lib (max_priority_fee_text tx)) (\<lambda>priority.
     and_then (number lib (l1_fee_text tx)) (\<lambda>l1_fee.
     and_then (reject_if
         (or_else (Inr (gas = 0))
         (or_else (and_then (number lib (max_gas_limit c)) (\<lambda>limit. Inr (gas > limit)))
         (or_else (Inr (max_fee = 0))
         (or_else (and_then (number lib (max_fee_per_gas_wei c)) (\<lambda>limit. Inr (max_fee > limit)))
           (Inr (priority > max_fee))))))
       ''Transaction gas or fee exceeds the reviewed limit'') (\<lambda>_.
     and_then (ok_or (checked_mul 256 gas max_fee) (Err ''Gas fee overflow'')) (\<lambda>execution_fee.
     and_then (ok_or (checked_add 256 execution_fee l1_fee) (Err ''Total fee overflow'')) (\<lambda>total.
     and_then (number lib (max_total_fee_wei c)) (\<lambda>limit.
     if total > limit then err ''Estimated total Base fee exceeds the reviewed limit''
     else Inr \<lparr> reviewed_gas = gas, reviewed_max_fee = max_fee, reviewed_priority = priority,
                reviewed_l1_fee = l1_fee, reviewed_execution_fee = execution_fee \<rparr>))))))))"

definition authorization_nonce_of :: "bool \<Rightarrow> nat \<Rightarrow> nat option zns_result" where
  "authorization_nonce_of required nonce =
     (if required then
        and_then (ok_or (do { n \<leftarrow> checked_add 64 nonce 1; then_some (n < 2 ^ 64 - 1); Some n })
          (Err ''Authorization nonce exhausted'')) (Inr \<circ> Some)
      else Inr None)"

definition delegation :: "'k zns_library \<Rightarrow> 'k \<Rightarrow> zns_config \<Rightarrow> nat option \<Rightarrow> octets option zns_result" where
  "delegation lib key c auth_nonce = (case auth_nonce of None \<Rightarrow> Inr None | Some nonce \<Rightarrow>
     and_then (ok_or (delegate_text c) (Err ''Missing delegate'')) (\<lambda>delegate_name.
     and_then (address lib delegate_name) (\<lambda>delegate.
     and_then (authorization lib key (chain_id c) delegate nonce) (Inr \<circ> Some))))"

definition transaction_fields ::
  "nat \<Rightarrow> nat \<Rightarrow> reviewed_fees \<Rightarrow> octets \<Rightarrow> nat \<Rightarrow> octets \<Rightarrow> octets option \<Rightarrow> rlp list" where
  "transaction_fields chain nonce fees target amount data auth =
     [append_number chain, append_number nonce, append_number (reviewed_priority fees),
      append_number (reviewed_max_fee fees), append_number (reviewed_gas fees), RBytes target,
      append_number amount, RBytes data, RList []] @
     (case auth of None \<Rightarrow> [] | Some a \<Rightarrow> [RList [RRaw a]])"

definition sign ::
  "'k zns_library \<Rightarrow> 'k \<Rightarrow> zns_config \<Rightarrow> operation \<Rightarrow> zns_transaction \<Rightarrow> signed_transaction zns_result" where
  "sign lib key c op tx =
     (let owner = key_address lib key in
      and_then (prepare lib c (to_checksum lib owner) op) (\<lambda>p.
      and_then (ok_or (parse_u64 (nonce_text tx)) (Err ''Nonce must fit uint64'')) (\<lambda>nonce.
      if nonce = 2 ^ 64 - 1 then err ''Nonce exhausted''
      else
        and_then (review_fees lib c tx) (\<lambda>fees.
        and_then (authorization_nonce_of (authorization_required p) nonce) (\<lambda>auth_nonce.
        and_then (delegation lib key c auth_nonce) (\<lambda>auth.
        let tx_type = (if auth \<noteq> None then 4 else 2) in
        and_then (address lib (prepared_to p)) (\<lambda>target.
        and_then (number lib (prepared_value p)) (\<lambda>amount.
        and_then (bytes lib (prepared_data p)) (\<lambda>data.
        let fields = transaction_fields (chain_id c) nonce fees target amount data auth in
        and_then (sign_recoverable lib key (of_nat tx_type # rlp_out lib (RList fields)) ''Transaction signing failed'')
          (\<lambda>signature.
        let raw = of_nat tx_type # rlp_out lib (RList (fields @ signature)) in
        Inr \<lparr> raw_transaction = hex_text lib raw, transaction_hash = b256_text lib (keccak256 lib raw),
              signed_from = to_checksum lib owner, transaction_type = tx_type,
              l1_fee_estimate_wei = u256_text lib (reviewed_l1_fee fees),
              maximum_execution_fee_wei = u256_text lib (reviewed_execution_fee fees),
              authorization_nonce = map_option decimal_digits auth_nonce \<rparr>))))))))))"

end
