(* ===== verification/ZnsWallet.thy ===== *)
theory ZnsWallet
  imports ZnsSign
begin

text \<open>
  The wallet's side of names (\<open>rust/src/wallet/zns.rs\<close> and \<open>account_secret.rs\<close>): a secret is used only
  for the account whose seed fingerprint and viewing key it derives. The database, the derivation of keys
  and the decoding of addresses are the parameter \<open>wallet_access\<close>.
\<close>

record stored_account =
  account_derivation :: "(octets \<times> nat) option"
  account_ufvk :: "string option"

text \<open>
  \<open>seed_of_secret\<close> is \<open>keys::mnemonic_bytes_to_seed\<close>; \<open>find_account\<close> opens the database and looks the
  identifier up; viewing keys are compared in their encoding for the network.
\<close>

record 'n wallet_access =
  seed_of_secret :: "string \<Rightarrow> string + string"
  find_account :: "'n \<Rightarrow> string \<Rightarrow> string + stored_account option"
  seed_fingerprint :: "string \<Rightarrow> octets option"
  derive_ufvk :: "'n \<Rightarrow> string \<Rightarrow> nat \<Rightarrow> string option"
  is_unified :: "'n \<Rightarrow> string \<Rightarrow> bool"

definition lift_error :: "string + 'a \<Rightarrow> 'a zns_result" where
  "lift_error r = (case r of Inl e \<Rightarrow> err e | Inr x \<Rightarrow> Inr x)"

definition with_account ::
  "'n wallet_access \<Rightarrow> 'n \<Rightarrow> string \<Rightarrow> string \<Rightarrow> (string \<Rightarrow> nat \<Rightarrow> 'a zns_result) \<Rightarrow> 'a zns_result" where
  "with_account w network account_uuid secret f =
     and_then (lift_error (seed_of_secret w secret)) (\<lambda>seed.
     and_then (lift_error (find_account w network account_uuid)) (\<lambda>found.
     and_then (ok_or found (Err ''Account not found'')) (\<lambda>account.
     and_then (ok_or (account_derivation account)
       (Err ''This operation requires a software account with seed derivation metadata'')) (\<lambda>(fingerprint, index).
     and_then (ok_or (seed_fingerprint w seed) (Err ''Invalid seed length'')) (\<lambda>seed_fp.
     if fingerprint \<noteq> seed_fp then err ''The software secret does not belong to this account''
     else
       and_then (ok_or (derive_ufvk w network seed index) (Err ''Cannot derive software account'')) (\<lambda>derived.
       and_then (ok_or (account_ufvk account) (Err ''Account has no viewing key'')) (\<lambda>stored.
       if derived \<noteq> stored then err ''Derived keys do not match the selected software account''
       else f seed index)))))))"

definition zns_account ::
  "'k zns_library \<Rightarrow> 'n wallet_access \<Rightarrow> 'n \<Rightarrow> string \<Rightarrow> string \<Rightarrow> json zns_result" where
  "zns_account lib w network account_uuid secret =
     with_account w network account_uuid secret (\<lambda>seed index.
       and_then (derive_key lib seed index) (\<lambda>key.
       and_then (derivation_path index) (\<lambda>path.
       Inr (JObject [(''address'', JString (to_checksum lib (key_address lib key))), (''derivationPath'', JString path),
         (''accountIndex'', JNumber (PosInt index))]))))"

definition ascii_lowercase :: "char \<Rightarrow> char" where
  "ascii_lowercase c = (let n = of_char c :: nat in if 65 \<le> n \<and> n \<le> 90 then char_of (n + 32) else c)"

definition eq_ignore_ascii_case :: "string \<Rightarrow> string \<Rightarrow> bool" where
  "eq_ignore_ascii_case s t \<longleftrightarrow> map ascii_lowercase s = map ascii_lowercase t"

text \<open>\<open>key_bytes\<close> is \<open>SigningKey::to_bytes\<close>.\<close>

definition export_key ::
  "'k zns_library \<Rightarrow> ('k \<Rightarrow> octets) \<Rightarrow> 'n wallet_access \<Rightarrow> 'n \<Rightarrow> string \<Rightarrow> string \<Rightarrow> string \<Rightarrow> octets zns_result" where
  "export_key lib key_bytes w network account_uuid secret expected_owner =
     with_account w network account_uuid secret (\<lambda>seed index.
       and_then (derive_key lib seed index) (\<lambda>key.
       if \<not> eq_ignore_ascii_case (to_checksum lib (key_address lib key)) expected_owner
       then err ''Base account changed. Authenticate again.''
       else Inr (key_bytes key)))"

definition validate_unified_address :: "'n wallet_access \<Rightarrow> 'n \<Rightarrow> string \<Rightarrow> bool" where
  "validate_unified_address w network ua \<longleftrightarrow> ua \<noteq> [] \<and> length ua \<le> 512 \<and> is_unified w network ua"

definition operation_address :: "operation \<Rightarrow> string option" where
  "operation_address op = (case op of
      Commit _ ua _ \<Rightarrow> Some ua
    | Register r \<Rightarrow> Some (reg_unified_address r)
    | Update _ ua \<Rightarrow> Some ua
    | AtomicRegister r _ _ _ \<Rightarrow> Some (reg_unified_address r)
    | _ \<Rightarrow> None)"

definition validate_operation :: "'n wallet_access \<Rightarrow> 'n \<Rightarrow> operation \<Rightarrow> unit zns_result" where
  "validate_operation w network op = (case operation_address op of
      Some ua \<Rightarrow> if validate_unified_address w network ua then Inr ()
        else err ''Use a valid Unified Address for the selected Zcash network''
    | None \<Rightarrow> Inr ())"

text \<open>The JSON form of the signed transaction, which always serializes, is left out.\<close>

definition zns_sign ::
  "'k zns_library \<Rightarrow> 'n wallet_access \<Rightarrow> 'n \<Rightarrow> string \<Rightarrow> string \<Rightarrow> zns_config \<Rightarrow> operation \<Rightarrow> zns_transaction \<Rightarrow>
     signed_transaction zns_result" where
  "zns_sign lib w network account_uuid secret c op tx =
     and_then (validate_operation w network op) (\<lambda>_.
     with_account w network account_uuid secret (\<lambda>seed index.
       and_then (derive_key lib seed index) (\<lambda>key. sign lib key c op tx)))"

lemma with_account_Inr:
  assumes "with_account w network account_uuid secret f = Inr x"
  obtains seed account index ufvk where "seed_of_secret w secret = Inr seed"
    "find_account w network account_uuid = Inr (Some account)"
    "\<exists>fingerprint. account_derivation account = Some (fingerprint, index) \<and> seed_fingerprint w seed = Some fingerprint"
    "account_ufvk account = Some ufvk" "derive_ufvk w network seed index = Some ufvk" "f seed index = Inr x"
proof -
  from assms obtain seed found account fingerprint index where a:
      "lift_error (seed_of_secret w secret) = Inr seed" "lift_error (find_account w network account_uuid) = Inr found"
      "found = Some account" "account_derivation account = Some (fingerprint, index)"
      "seed_fingerprint w seed = Some fingerprint" "\<exists>ufvk. account_ufvk account = Some ufvk \<and> derive_ufvk w network seed index = Some ufvk"
      "f seed index = Inr x"
    by (auto simp: with_account_def and_then_eq_Inr ok_or_eq_Inr split: if_splits)
  then have "seed_of_secret w secret = Inr seed" "find_account w network account_uuid = Inr (Some account)"
    by (auto simp: lift_error_def split: sum.splits)
  then show thesis using a(4-7) that by blast
qed

text \<open>What is signed for an account is signed by a key of the seed from which its viewing key derives.\<close>

lemma zns_sign_own_account:
  assumes "zns_sign lib w network account_uuid secret c op tx = Inr s"
  shows "\<exists>seed account index key. seed_of_secret w secret = Inr seed \<and>
    find_account w network account_uuid = Inr (Some account) \<and> account_ufvk account = derive_ufvk w network seed index \<and>
    derive_key lib seed index = Inr key \<and> sign lib key c op tx = Inr s \<and>
    (\<forall>ua. operation_address op = Some ua \<longrightarrow> is_unified w network ua)"
proof -
  have ua: "\<forall>ua. operation_address op = Some ua \<longrightarrow> is_unified w network ua"
    and signed: "with_account w network account_uuid secret (\<lambda>seed index.
      and_then (derive_key lib seed index) (\<lambda>key. sign lib key c op tx)) = Inr s"
    using assms by (auto simp: zns_sign_def validate_operation_def validate_unified_address_def and_then_eq_Inr
        split: option.splits if_splits)
  from with_account_Inr [OF signed] ua show ?thesis
    by (auto simp: and_then_eq_Inr) metis
qed

end
