(* ===== verification/ZnsCorrect.thy ===== *)
theory ZnsCorrect
  imports ZnsSign
begin

text \<open>
  What signing for a name promises: every prepared call keeps to the reviewed configuration, and the
  signed bytes are read back as exactly the reviewed transaction. \<open>zns_laws\<close> and \<open>rlp_reads\<close> state the
  documented behaviour of the crates.
\<close>

section \<open>The laws of the libraries\<close>

definition zns_laws :: "'k zns_library \<Rightarrow> bool" where
  "zns_laws lib \<longleftrightarrow>
     (\<forall>s a. parse_address lib s = Some a \<longrightarrow> length a = 20) \<and>
     (\<forall>a. length a = 20 \<longrightarrow> parse_address lib (to_checksum lib a) = Some a) \<and>
     (\<forall>s n. parse_u256 lib s = Some n \<longrightarrow> n < 2 ^ 256) \<and>
     (\<forall>n. n < 2 ^ 256 \<longrightarrow> parse_u256 lib (u256_text lib n) = Some n \<and> u256_text lib n \<noteq> [] \<and>
        list_all ascii_digit (u256_text lib n)) \<and>
     (\<forall>data. hex_decode lib (hex_encode lib data) = Some data) \<and>
     (\<forall>data. length (keccak256 lib data) = 32) \<and>
     parse_b256 lib PROTOCOL_ID \<noteq> None \<and>
     (\<forall>key digest r s parity. sign_prehash_recoverable lib key digest = Some (r, s, parity) \<longrightarrow>
        r < 2 ^ 256 \<and> s < 2 ^ 256)"

fun rlp_plain :: "rlp \<Rightarrow> bool" where
  "rlp_plain (RBytes bs) \<longleftrightarrow> True"
| "rlp_plain (RList items) \<longleftrightarrow> (\<forall>item \<in> set items. rlp_plain item)"
| "rlp_plain (RRaw bs) \<longleftrightarrow> False"

text \<open>
  RLP is unambiguous, the length of what is encoded being below \<open>2 ^ 64\<close> in any Rust program, and an
  item appended raw is that item.
\<close>

definition rlp_reads :: "'k zns_library \<Rightarrow> (octets \<Rightarrow> rlp option) \<Rightarrow> bool" where
  "rlp_reads lib reader \<longleftrightarrow>
     (\<forall>item. rlp_plain item \<longrightarrow> reader (rlp_out lib item) = Some item) \<and>
     (\<forall>xs item zs. rlp_out lib (RList (xs @ RList [RRaw (rlp_out lib item)] # zs)) =
        rlp_out lib (RList (xs @ RList [item] # zs)))"

lemma address_checksum: "zns_laws lib \<Longrightarrow> length a = 20 \<Longrightarrow> address lib (to_checksum lib a) = Inr a"
  by (simp add: zns_laws_def address_def)

lemma address_length: "zns_laws lib \<Longrightarrow> address lib s = Inr a \<Longrightarrow> length a = 20"
  by (auto simp: zns_laws_def address_def ok_or_eq_Inr)

lemma number_u256_text: "zns_laws lib \<Longrightarrow> n < 2 ^ 256 \<Longrightarrow> number lib (u256_text lib n) = Inr n"
  by (simp add: zns_laws_def number_def)

lemma number_bound: "zns_laws lib \<Longrightarrow> number lib s = Inr n \<Longrightarrow> n < 2 ^ 256"
  by (auto simp: zns_laws_def number_def ok_or_eq_Inr split: if_splits)

lemma bytes_hex_text: "zns_laws lib \<Longrightarrow> bytes lib (hex_text lib data) = Inr data"
  by (simp add: zns_laws_def bytes_def hex_text_def strip_prefix_def)

lemma length_key_address: "zns_laws lib \<Longrightarrow> length (key_address lib key) = 20"
  by (simp add: zns_laws_def key_address_def)

lemma reject_if_Inr [result_simps]: "reject_if condition message = Inr u \<longleftrightarrow> condition = Inr False"
  by (auto simp: reject_if_def and_then_eq_Inr split: if_splits)

lemma or_else_False [result_simps]: "or_else a b = Inr False \<longleftrightarrow> a = Inr False \<and> b = Inr False"
  by (auto simp: or_else_def and_then_eq_Inr split: if_splits)

section \<open>What a prepared call may do\<close>

text \<open>
  The authority that a configuration gives: \<open>may_call\<close> is a single call of an account \<open>owner\<close> on a
  target with an amount of ETH, \<open>may_send\<close> a whole transaction.
\<close>

definition may_swap ::
  "'k zns_library \<Rightarrow> zns_config \<Rightarrow> octets \<Rightarrow> octets \<Rightarrow> octets \<Rightarrow> nat \<Rightarrow> swap_execution_params \<Rightarrow> bool" where
  "may_swap lib c owner token target amount ex \<longleftrightarrow>
     (\<exists>router limit. router_text c = Some router \<and> address lib router = Inr target \<and>
        number lib (max_value_wei c) = Inr limit \<and> amount \<le> limit) \<and>
     target \<noteq> address_zero \<and> (chain_id c = 8453 \<longrightarrow> address lib KYBER = Inr target) \<and>
     address lib NATIVE_TOKEN = Inr (src_token (desc ex)) \<and> swap_amount (desc ex) = amount \<and> 0 < amount \<and>
     dst_token (desc ex) = token \<and> dst_receiver (desc ex) = owner \<and> 0 < min_return_amount (desc ex) \<and>
     fee_receivers (desc ex) = [] \<and> fee_amounts (desc ex) = [] \<and> src_receivers (desc ex) = [] \<and>
     src_amounts (desc ex) = [] \<and> permit (desc ex) = [] \<and> approve_target ex = address_zero \<and>
     (chain_id c = 8453 \<longrightarrow> address lib BASE_EXECUTOR = Inr (call_target ex))"

fun may_call ::
  "'k zns_library \<Rightarrow> zns_config \<Rightarrow> octets \<Rightarrow> octets \<Rightarrow> octets \<Rightarrow> octets \<Rightarrow> nat \<Rightarrow> abi_call \<Rightarrow> bool" where
  "may_call lib c owner registry token target amount (SwapCall ex) \<longleftrightarrow> may_swap lib c owner token target amount ex"
| "may_call lib c owner registry token target amount (ApproveCall spender allowed) \<longleftrightarrow>
     target = token \<and> amount = 0 \<and> spender = registry \<and>
     (\<exists>limit. number lib (max_token_amount c) = Inr limit \<and> allowed \<le> limit)"
| "may_call lib c owner registry token target amount (SafeTransferFromCall sender recipient n) \<longleftrightarrow>
     target = registry \<and> amount = 0 \<and> sender = owner \<and> recipient \<noteq> address_zero \<and> recipient \<noteq> owner \<and>
     recipient \<noteq> registry \<and> 0 < n"
| "may_call lib c owner registry token target amount (RegisterCall label ua secret most extra mode deadline) \<longleftrightarrow>
     target = registry \<and> amount = 0 \<and> validate_name label = Inr () \<and> secret \<noteq> replicate 32 0 \<and>
     extra < most \<and> mode \<le> 1 \<and> 0 < deadline \<and>
     (\<exists>limit. number lib (max_token_amount c) = Inr limit \<and> most \<le> limit)"
| "may_call lib c owner registry token target amount (CommitCall hash) \<longleftrightarrow> target = registry \<and> amount = 0"
| "may_call lib c owner registry token target amount (RefreshCall n) \<longleftrightarrow> target = registry \<and> amount = 0 \<and> 0 < n"
| "may_call lib c owner registry token target amount (ClaimRewardsCall n) \<longleftrightarrow> target = registry \<and> amount = 0 \<and> 0 < n"
| "may_call lib c owner registry token target amount (ReleaseCall n) \<longleftrightarrow> target = registry \<and> amount = 0 \<and> 0 < n"
| "may_call lib c owner registry token target amount (SetUnifiedAddressCall n ua) \<longleftrightarrow>
     target = registry \<and> amount = 0 \<and> 0 < n"
| "may_call lib c owner registry token target amount WithdrawClaimsCall \<longleftrightarrow> target = registry \<and> amount = 0"
| "may_call lib c owner registry token target amount _ \<longleftrightarrow> False"

definition may_send ::
  "'k zns_library \<Rightarrow> zns_config \<Rightarrow> octets \<Rightarrow> octets \<Rightarrow> octets \<Rightarrow> octets \<Rightarrow> nat \<Rightarrow> octets \<Rightarrow> bool" where
  "may_send lib c owner registry token target amount data \<longleftrightarrow>
     (\<exists>call. data = abi_encode lib call \<and> may_call lib c owner registry token target amount call) \<or>
     (\<exists>calls deadline. data = abi_encode lib (ExecuteCall calls deadline) \<and> target = owner \<and> amount = 0 \<and>
        length calls \<le> 3 \<and>
        (\<forall>e \<in> set calls. \<exists>call. execution_data e = abi_encode lib call \<and>
           may_call lib c owner registry token (execution_target e) (execution_value e) call))"


lemma review_swap_Inr:
  "review_swap lib data value_text least_text owner token max_value ex = Inr bs \<longleftrightarrow>
     bs = data \<and> (\<exists>amount least. number lib value_text = Inr amount \<and> number lib least_text = Inr least \<and>
       address lib NATIVE_TOKEN = Inr (src_token (desc ex)) \<and> dst_token (desc ex) = token \<and>
       dst_receiver (desc ex) = owner \<and> 0 < amount \<and> amount \<le> max_value \<and> swap_amount (desc ex) = amount \<and>
       0 < least \<and> least \<le> min_return_amount (desc ex) \<and> swap_flags (desc ex) \<in> {0, 512} \<and>
       permit (desc ex) = [] \<and> fee_receivers (desc ex) = [] \<and> fee_amounts (desc ex) = [] \<and>
       src_receivers (desc ex) = [] \<and> src_amounts (desc ex) = [] \<and> approve_target ex = address_zero \<and>
       call_target ex \<noteq> address_zero)"
  by (cases "number lib value_text"; cases "number lib least_text"; cases "address lib NATIVE_TOKEN")
    (auto simp: review_swap_def Let_def split: if_splits)

lemma validate_swap_Inr:
  "validate_swap lib text value_text least_text owner token max_value = Inr data \<longleftrightarrow>
     bytes lib text = Inr data \<and> length data \<le> 64 * 1024 \<and>
     (\<exists>ex. decode_swap_call lib data = Some ex \<and> abi_encode lib (SwapCall ex) = data \<and>
        review_swap lib data value_text least_text owner token max_value ex = Inr data)"
proof (cases "bytes lib text")
  case (Inr d)
  have same: "review_swap lib d value_text least_text owner token max_value ex = Inr data \<Longrightarrow> d = data" for ex
    by (simp add: review_swap_Inr)
  show ?thesis
  proof (cases "decode_swap_call lib d")
    case (Some ex)
    then show ?thesis using Inr same [of ex] by (auto simp: validate_swap_def)
  qed (use Inr in \<open>auto simp: validate_swap_def\<close>)
qed (simp add: validate_swap_def)

text \<open>Values that fit the ABI types.\<close>

definition swap_typed :: "swap_execution_params \<Rightarrow> bool" where
  "swap_typed ex \<longleftrightarrow>
     length (src_token (desc ex)) = 20 \<and> length (dst_token (desc ex)) = 20 \<and> length (dst_receiver (desc ex)) = 20 \<and>
     length (call_target ex) = 20 \<and> length (approve_target ex) = 20 \<and>
     (\<forall>a \<in> set (src_receivers (desc ex) @ fee_receivers (desc ex)). length a = 20) \<and>
     (\<forall>n \<in> set (src_amounts (desc ex) @ fee_amounts (desc ex)). n < 2 ^ 256) \<and>
     (\<forall>n \<in> {swap_amount (desc ex), min_return_amount (desc ex), swap_flags (desc ex), length (src_receivers (desc ex)),
        length (fee_receivers (desc ex)), length (src_amounts (desc ex)), length (fee_amounts (desc ex)),
        length (permit (desc ex)), length (target_data ex), length (client_data ex)}. n < 2 ^ 256)"


text \<open>Encoding a swap and decoding it is the identity, and decoding yields values that fit their types.\<close>

definition swap_laws :: "'k zns_library \<Rightarrow> bool" where
  "swap_laws lib \<longleftrightarrow>
     (\<forall>ex. swap_typed ex \<longrightarrow> decode_swap_call lib (abi_encode lib (SwapCall ex)) = Some ex) \<and>
     (\<forall>data ex. decode_swap_call lib data = Some ex \<longrightarrow> swap_typed ex)"

section \<open>Numbers of a transaction\<close>

definition be_value :: "octets \<Rightarrow> nat" where
  "be_value bs = foldl (\<lambda>n b. 256 * n + unat b) 0 bs"

lemma be_value_snoc: "be_value (bs @ [b]) = 256 * be_value bs + unat b"
  by (simp add: be_value_def)

lemma be_value_digits: "be_value (map (\<lambda>i. of_nat (n div 256 ^ (k - Suc i))) [0 ..< k]) = n mod 256 ^ k"
proof (induction k arbitrary: n)
  case (Suc k)
  have "n div 256 ^ (Suc k - Suc i) = n div 256 div 256 ^ (k - Suc i)" if "i < k" for i
    using that by (simp add: div_mult2_eq [symmetric] Suc_diff_Suc flip: power_Suc)
  then have "map (\<lambda>i. of_nat (n div 256 ^ (Suc k - Suc i))) [0 ..< Suc k] =
      map (\<lambda>i. of_nat (n div 256 div 256 ^ (k - Suc i))) [0 ..< k] @ [of_nat n :: 8 word]"
    by simp
  moreover have "unat (of_nat n :: 8 word) = n mod 256"
    by (simp add: unat_of_nat take_bit_eq_mod)
  ultimately show ?case
    by (simp only: be_value_snoc Suc.IH power_Suc mod_mult2_eq)
qed (simp add: be_value_def)

lemma be_value_u256: "n < 2 ^ 256 \<Longrightarrow> be_value (u256_be_bytes n) = n"
proof -
  have "be_value (u256_be_bytes n) = n mod 256 ^ 32"
    using be_value_digits [of n 32] by (simp add: u256_be_bytes_def)
  then show "n < 2 ^ 256 \<Longrightarrow> ?thesis" by simp
qed

lemma be_value_dropWhile: "be_value (dropWhile (\<lambda>b. b = 0) bs) = be_value bs"
proof (induction bs)
  case (Cons b bs)
  then show ?case by (simp add: be_value_def)
qed simp

text \<open>A reader of transactions: numbers are accepted without leading zeros only.\<close>

fun read_quantity :: "rlp \<Rightarrow> nat option" where
  "read_quantity (RBytes bs) = (if bs = [] \<or> hd bs \<noteq> 0 then Some (be_value bs) else None)"
| "read_quantity _ = None"

lemma read_append_number: "n < 2 ^ 256 \<Longrightarrow> read_quantity (append_number n) = Some n"
  using hd_dropWhile [of "\<lambda>b. b = 0" "u256_be_bytes n"]
  by (auto simp: append_number_def be_value_dropWhile be_value_u256)

section \<open>Prepared operations\<close>

lemma differs_False: "differs lib s expected = Inr False \<longleftrightarrow> (\<exists>a. address lib s = Inr a \<and> address lib expected = Inr a)"
  by (auto simp: differs_def and_then_eq_Inr)

lemma address_is_False: "address_is lib s a = Inr False \<longleftrightarrow> (\<exists>x. address lib s = Inr x \<and> x \<noteq> a)"
  by (auto simp: address_is_def and_then_eq_Inr)

lemma validate_router_Inr:
  "validate_router lib c = Inr u \<longleftrightarrow> (\<forall>router. router_text c = Some router \<longrightarrow>
     (\<exists>a. address lib router = Inr a \<and> a \<noteq> address_zero \<and> (chain_id c = 8453 \<longrightarrow> address lib KYBER = Inr a)))"
  by (auto simp: validate_router_def reject_if_Inr or_else_False differs_False address_is_False split: option.splits)

lemma validate_config_Inr:
  assumes "validate_config lib c = Inr u"
  shows "chain_id c \<in> {8453, 84532, 31337}" "validate_router lib c = Inr ()"
    "\<exists>a. address lib (registry_text c) = Inr a \<and> a \<noteq> address_zero"
    "\<exists>a. address lib (token_text c) = Inr a \<and> a \<noteq> address_zero \<and> (chain_id c = 8453 \<longrightarrow> address lib CBZEC = Inr a)"
    "\<And>delegate. delegate_text c = Some delegate \<Longrightarrow> \<exists>a. address lib delegate = Inr a \<and> a \<noteq> address_zero"
  using assms unfolding validate_config_def validate_delegate_def
  by (auto simp: and_then_eq_Inr ok_or_eq_Inr reject_if_Inr or_else_False address_is_False differs_False
      split: if_splits option.splits)

lemma validate_mainnet_executor_Inr:
  "validate_mainnet_executor lib chain data = Inr u \<Longrightarrow> decode_swap_call lib data = Some ex \<Longrightarrow>
   chain = 8453 \<longrightarrow> address lib BASE_EXECUTOR = Inr (call_target ex)"
  by (auto simp: validate_mainnet_executor_def and_then_eq_Inr ok_or_eq_Inr split: if_splits)

lemma reviewed_swap_Inr:
  assumes "validate_router lib c = Inr ()" "reviewed_swap lib c owner token intent = Inr (target, data)"
  shows "\<exists>ex amount least. data = abi_encode lib (SwapCall ex) \<and> number lib (swap_value intent) = Inr amount \<and>
    number lib (minimum_output intent) = Inr least \<and> least \<le> min_return_amount (desc ex) \<and>
    may_swap lib c owner token target amount ex"
proof -
  obtain router limit where r: "router_text c = Some router" "address lib router = Inr target"
      "number lib (max_value_wei c) = Inr limit"
      "validate_swap lib (swap_data intent) (swap_value intent) (minimum_output intent) owner token limit = Inr data"
      "validate_mainnet_executor lib (chain_id c) data = Inr ()"
    using assms(2) by (auto simp: reviewed_swap_def and_then_eq_Inr ok_or_eq_Inr)
  obtain ex where ex: "decode_swap_call lib data = Some ex" "abi_encode lib (SwapCall ex) = data"
      "review_swap lib data (swap_value intent) (minimum_output intent) owner token limit ex = Inr data"
    using r(4) by (auto simp: validate_swap_Inr)
  have "target \<noteq> address_zero" "chain_id c = 8453 \<longrightarrow> address lib KYBER = Inr target"
    using assms(1) r(1,2) by (auto simp: validate_router_Inr)
  then show ?thesis
    using r ex validate_mainnet_executor_Inr [OF r(5) ex(1)]
    unfolding review_swap_Inr may_swap_def by (intro exI [of _ ex]) auto
qed

lemma approval_Inr:
  "approval lib c registry amount_text = Inr call \<Longrightarrow>
   \<exists>amount limit. call = ApproveCall registry amount \<and> number lib amount_text = Inr amount \<and>
     number lib (max_token_amount c) = Inr limit \<and> amount \<le> limit"
  by (auto simp: approval_def and_then_eq_Inr split: if_splits)

lemma position_Inr: "position lib id_text = Inr n \<Longrightarrow> 0 < n"
  by (auto simp: position_def and_then_eq_Inr split: if_splits)

lemma register_call_Inr:
  assumes "checked_registration lib c r = Inr limits" "register_call lib r limits = Inr call"
  shows "may_call lib c owner registry token registry 0 call"
  using assms unfolding checked_registration_def validate_registration_def registration_limits_def register_call_def
    parse_secret_def
  by (auto simp: and_then_eq_Inr ok_or_eq_Inr reject_if_Inr or_else_False split: if_splits prod.splits)

lemma on_position_Inr:
  "on_position lib registry call id_text = Inr (target, amount, data, hash, auth) \<Longrightarrow>
   \<exists>n. 0 < n \<and> target = registry \<and> amount = 0 \<and> data = abi_encode lib (call n) \<and> \<not> auth"
  by (auto simp: on_position_def plain_call_def and_then_eq_Inr dest: position_Inr)

definition calls_ok :: "'k zns_library \<Rightarrow> zns_config \<Rightarrow> octets \<Rightarrow> octets \<Rightarrow> octets \<Rightarrow> execution list \<Rightarrow> bool" where
  "calls_ok lib c owner registry token calls \<longleftrightarrow>
     (\<forall>e \<in> set calls. \<exists>call. execution_data e = abi_encode lib call \<and>
        may_call lib c owner registry token (execution_target e) (execution_value e) call)"

lemma calls_ok_append [simp]:
  "calls_ok lib c owner registry token (xs @ ys) \<longleftrightarrow>
     calls_ok lib c owner registry token xs \<and> calls_ok lib c owner registry token ys"
  by (auto simp: calls_ok_def)

lemma calls_ok_single:
  "execution_data e = abi_encode lib call \<Longrightarrow>
   may_call lib c owner registry token (execution_target e) (execution_value e) call \<Longrightarrow>
   calls_ok lib c owner registry token [e]"
  by (auto simp: calls_ok_def)

lemma atomic_swap_Inr:
  assumes "validate_router lib c = Inr ()"
    "atomic_swap lib c owner token amount_text existing_token_units intent = Inr e"
  shows "\<exists>ex required existing. execution_data e = abi_encode lib (SwapCall ex) \<and>
    may_swap lib c owner token (execution_target e) (execution_value e) ex \<and>
    number lib amount_text = Inr required \<and> number lib existing_token_units = Inr existing \<and>
    existing \<le> required \<and> required \<le> min_return_amount (desc ex) + existing"
proof -
  obtain target data existing required amount where d: "reviewed_swap lib c owner token intent = Inr (target, data)"
      "number lib existing_token_units = Inr existing" "number lib amount_text = Inr required"
      "number lib (swap_value intent) = Inr amount"
      "e = \<lparr> execution_target = target, execution_value = amount, execution_data = data \<rparr>"
      "and_then (number lib (minimum_output intent)) (\<lambda>least.
         and_then (ok_or (checked_add 256 least existing) (Err ''Token amount overflow'')) (\<lambda>total.
         Inr (total < required))) = Inr False" "existing \<le> required"
    using assms(2) by (auto simp: atomic_swap_def and_then_eq_Inr reject_if_Inr or_else_False)
  obtain ex least where ex: "data = abi_encode lib (SwapCall ex)" "number lib (minimum_output intent) = Inr least"
      "least \<le> min_return_amount (desc ex)" "may_swap lib c owner token target amount ex"
    using reviewed_swap_Inr [OF assms(1) d(1)] d(4) by auto
  have "required \<le> least + existing"
    using d(6) ex(2) by (auto simp: and_then_eq_Inr ok_or_eq_Inr dest!: checked_add_SomeD)
  then show ?thesis using d(2,3,5,7) ex(1,3,4) by auto
qed

lemma atomic_calls_Inr:
  assumes "validate_router lib c = Inr ()" "checked_registration lib c r = Inr limits"
    "atomic_calls lib c owner registry token r amount_text swap existing_token_units limits = Inr calls"
  shows "calls_ok lib c owner registry token calls \<and> length calls \<le> 3"
proof -
  obtain first approve register where d:
      "(case swap of None \<Rightarrow> Inr [] | Some intent \<Rightarrow>
        and_then (atomic_swap lib c owner token amount_text existing_token_units intent) (\<lambda>e. Inr [e])) = Inr first"
      "approval lib c registry amount_text = Inr approve" "register_call lib r limits = Inr register"
      "calls = first @ [\<lparr> execution_target = token, execution_value = 0, execution_data = abi_encode lib approve \<rparr>] @
        [\<lparr> execution_target = registry, execution_value = 0, execution_data = abi_encode lib register \<rparr>]"
    using assms(3) by (auto simp: atomic_calls_def and_then_eq_Inr)
  have "calls_ok lib c owner registry token first \<and> length first \<le> 1"
  proof (cases swap)
    case None
    then show ?thesis using d(1) by (auto simp: calls_ok_def)
  next
    case (Some intent)
    then obtain e where e: "atomic_swap lib c owner token amount_text existing_token_units intent = Inr e" "first = [e]"
      using d(1) by (auto simp: and_then_eq_Inr)
    show ?thesis using atomic_swap_Inr [OF assms(1) e(1)] e(2) by (auto intro!: calls_ok_single)
  qed
  moreover have "may_call lib c owner registry token token 0 approve"
    using approval_Inr [OF d(2)] by auto
  ultimately show ?thesis
    using d(4) register_call_Inr [OF assms(2) d(3)]
    by (auto simp: calls_ok_def)
qed

lemma may_send_call:
  "may_call lib c owner registry token target amount call \<Longrightarrow>
   may_send lib c owner registry token target amount (abi_encode lib call)"
  by (auto simp: may_send_def)

lemma prepare_operation_Inr:
  assumes "validate_router lib c = Inr ()"
    "prepare_operation lib c owner registry token op = Inr (target, amount, data, hash, auth)"
  shows "may_send lib c owner registry token target amount data"
proof (cases op)
  case (Commit label ua secret)
  then show ?thesis using assms(2)
    by (auto simp: prepare_operation_def and_then_eq_Inr intro!: may_send_call)
next
  case (Approve amount_text)
  then show ?thesis using assms(2)
    by (auto simp: prepare_operation_def plain_call_def and_then_eq_Inr intro!: may_send_call dest!: approval_Inr)
next
  case (Register r)
  then show ?thesis using assms(2)
    by (auto simp: prepare_operation_def plain_call_def and_then_eq_Inr intro!: may_send_call intro: register_call_Inr)
next
  case (Transfer id_text recipient)
  then show ?thesis using assms(2)
    by (auto simp: prepare_operation_def and_then_eq_Inr intro!: may_send_call dest!: on_position_Inr split: if_splits)
next
  case (Swap intent)
  then obtain ex where ex: "data = abi_encode lib (SwapCall ex)" "may_swap lib c owner token target amount ex"
    using assms(2) by (auto simp: prepare_operation_def and_then_eq_Inr dest!: reviewed_swap_Inr [OF assms(1)])
  then show ?thesis by (auto intro!: may_send_call)
next
  case (AtomicRegister r amount_text swap existing)
  then obtain limits calls where limits: "checked_registration lib c r = Inr limits"
      "atomic_calls lib c owner registry token r amount_text swap existing limits = Inr calls"
      "target = owner" "amount = 0" "data = abi_encode lib (ExecuteCall calls (snd (snd limits)))"
    using assms(2) by (auto simp: prepare_operation_def and_then_eq_Inr split: if_splits)
  then show ?thesis
    using atomic_calls_Inr [OF assms(1) limits(1,2)] by (auto simp: may_send_def calls_ok_def)
qed (use assms(2) in \<open>auto simp: prepare_operation_def plain_call_def intro!: may_send_call dest!: on_position_Inr
  split: if_splits\<close>)

lemma prepare_Inr:
  assumes "prepare lib c owner_text op = Inr p"
  shows "\<exists>owner registry token target amount data hash.
    validate_config lib c = Inr () \<and> address lib owner_text = Inr owner \<and> owner \<noteq> address_zero \<and>
    address lib (registry_text c) = Inr registry \<and> address lib (token_text c) = Inr token \<and>
    prepare_operation lib c owner registry token op = Inr (target, amount, data, hash, authorization_required p) \<and>
    prepared_to p = to_checksum lib target \<and> prepared_value p = u256_text lib amount \<and>
    prepared_data p = hex_text lib data \<and> prepared_commitment p = hash"
  using assms by (auto simp: prepare_def and_then_eq_Inr split: if_splits)

lemma prepare_operation_authorization:
  "prepare_operation lib c owner registry token op = Inr (target, amount, data, hash, auth) \<Longrightarrow>
   auth \<longleftrightarrow> (\<exists>r amount_text swap existing. op = AtomicRegister r amount_text swap existing)"
  by (cases op) (auto simp: prepare_operation_def plain_call_def and_then_eq_Inr split: if_splits dest!: on_position_Inr)

lemma may_send_bounds:
  assumes "zns_laws lib" "may_send lib c owner registry token target amount data"
    "length owner = 20" "length registry = 20" "length token = 20"
  shows "length target = 20 \<and> amount < 2 ^ 256"
proof -
  have "length target = 20 \<and> amount < 2 ^ 256" if "may_call lib c owner registry token target amount call" for call
    using that assms(3-5)
    by (cases call) (auto simp: may_swap_def dest!: address_length [OF assms(1)] number_bound [OF assms(1)])
  then show ?thesis using assms(2,3) by (auto simp: may_send_def)
qed

section \<open>Signed transactions\<close>

record transaction_view =
  view_type :: nat
  view_chain :: nat
  view_nonce :: nat
  view_priority :: nat
  view_max_fee :: nat
  view_gas :: nat
  view_target :: octets
  view_amount :: nat
  view_data :: octets
  view_delegation :: "(nat \<times> octets \<times> nat) option"

text \<open>A reader of EIP-1559 and EIP-7702 transactions with at most one delegation and no access list.\<close>

fun read_delegation :: "rlp list \<Rightarrow> ((nat \<times> octets \<times> nat) option \<times> rlp list) option" where
  "read_delegation (RList [RList [chain, RBytes delegate, nonce, parity, r, s]] # rest) = do {
     k \<leftarrow> read_quantity chain;
     n \<leftarrow> read_quantity nonce;
     Some (Some (k, delegate, n), rest)
   }"
| "read_delegation items = Some (None, items)"

fun read_items :: "nat \<Rightarrow> rlp list \<Rightarrow> transaction_view option" where
  "read_items t (chain # nonce # priority # max_fee # gas # RBytes target # amount # RBytes data # RList [] # rest) = do {
     chain \<leftarrow> read_quantity chain;
     nonce \<leftarrow> read_quantity nonce;
     priority \<leftarrow> read_quantity priority;
     max_fee \<leftarrow> read_quantity max_fee;
     gas \<leftarrow> read_quantity gas;
     amount \<leftarrow> read_quantity amount;
     (delegated, signature) \<leftarrow> read_delegation rest;
     then_some (length signature = 3 \<and> t = (if delegated = None then 2 else 4));
     Some \<lparr> view_type = t, view_chain = chain, view_nonce = nonce, view_priority = priority, view_max_fee = max_fee,
       view_gas = gas, view_target = target, view_amount = amount, view_data = data, view_delegation = delegated \<rparr>
   }"
| "read_items t _ = None"

definition read_transaction :: "(octets \<Rightarrow> rlp option) \<Rightarrow> octets \<Rightarrow> transaction_view option" where
  "read_transaction reader raw = (case raw of [] \<Rightarrow> None | t # payload \<Rightarrow>
     (case reader payload of Some (RList items) \<Rightarrow> read_items (unat t) items | _ \<Rightarrow> None))"

lemma sign_recoverable_Inr:
  "sign_recoverable lib key payload failed = Inr signature \<Longrightarrow>
   \<exists>r s parity. signature = [append_number parity, append_number r, append_number s] \<and>
     sign_prehash_recoverable lib key (keccak256 lib payload) = Some (r, s, parity) \<and> parity \<le> 1"
  by (auto simp: sign_recoverable_def append_signature_def and_then_eq_Inr ok_or_eq_Inr split: if_splits)

lemma rlp_plain_append_number [simp]: "rlp_plain (append_number n)"
  by (simp add: append_number_def)

lemma parse_u64_bound: "parse_u64 s = Some n \<Longrightarrow> n < 2 ^ 64"
  by (auto simp: parse_u64_def Let_def split: if_splits)

lemma and_then_InrE:
  assumes "and_then r f = Inr y"
  obtains x where "r = Inr x" "f x = Inr y"
  using assms by (auto simp: and_then_eq_Inr)

lemma if_err_InrE:
  assumes "(if b then err message else r) = Inr y"
  obtains "\<not> b" "r = Inr y"
  using assms by (auto split: if_splits)

text \<open>What signing has checked and put together.\<close>

lemma sign_Inr:
  assumes "zns_laws lib" "sign lib key c op tx = Inr s"
  shows "\<exists>p nonce fees auth_nonce auth target amount data signature tx_type.
    prepare lib c (to_checksum lib (key_address lib key)) op = Inr p \<and>
    parse_u64 (nonce_text tx) = Some nonce \<and> nonce < 2 ^ 64 - 1 \<and> review_fees lib c tx = Inr fees \<and>
    authorization_nonce_of (authorization_required p) nonce = Inr auth_nonce \<and>
    delegation lib key c auth_nonce = Inr auth \<and> tx_type = (if auth \<noteq> None then 4 else 2) \<and>
    address lib (prepared_to p) = Inr target \<and> number lib (prepared_value p) = Inr amount \<and>
    bytes lib (prepared_data p) = Inr data \<and>
    sign_recoverable lib key (of_nat tx_type # rlp_out lib (RList (transaction_fields (chain_id c) nonce fees target
      amount data auth))) ''Transaction signing failed'' = Inr signature \<and>
    bytes lib (raw_transaction s) = Inr (of_nat tx_type # rlp_out lib (RList (transaction_fields (chain_id c) nonce
      fees target amount data auth @ signature))) \<and>
    transaction_type s = tx_type \<and> signed_from s = to_checksum lib (key_address lib key) \<and>
    maximum_execution_fee_wei s = u256_text lib (reviewed_execution_fee fees) \<and>
    authorization_nonce s = map_option decimal_digits auth_nonce"
proof -
  obtain p nonce fees auth_nonce auth target amount data signature where d:
      "prepare lib c (to_checksum lib (key_address lib key)) op = Inr p" "parse_u64 (nonce_text tx) = Some nonce"
      "nonce \<noteq> 2 ^ 64 - 1" "review_fees lib c tx = Inr fees"
      "authorization_nonce_of (authorization_required p) nonce = Inr auth_nonce"
      "delegation lib key c auth_nonce = Inr auth" "address lib (prepared_to p) = Inr target"
      "number lib (prepared_value p) = Inr amount" "bytes lib (prepared_data p) = Inr data"
      "sign_recoverable lib key (of_nat (if auth \<noteq> None then 4 else 2) # rlp_out lib (RList (transaction_fields
         (chain_id c) nonce fees target amount data auth))) ''Transaction signing failed'' = Inr signature"
      "s = \<lparr> raw_transaction = hex_text lib (of_nat (if auth \<noteq> None then 4 else 2) # rlp_out lib (RList
            (transaction_fields (chain_id c) nonce fees target amount data auth @ signature))),
          transaction_hash = b256_text lib (keccak256 lib (of_nat (if auth \<noteq> None then 4 else 2) # rlp_out lib (RList
            (transaction_fields (chain_id c) nonce fees target amount data auth @ signature)))),
          signed_from = to_checksum lib (key_address lib key), transaction_type = (if auth \<noteq> None then 4 else 2),
          l1_fee_estimate_wei = u256_text lib (reviewed_l1_fee fees),
          maximum_execution_fee_wei = u256_text lib (reviewed_execution_fee fees),
          authorization_nonce = map_option decimal_digits auth_nonce \<rparr>"
    using assms(2) unfolding sign_def Let_def
    by (elim and_then_InrE if_err_InrE) (rule that; (erule ok_or_eq_Inr [THEN iffD1] | assumption | erule Inr_inject [symmetric]))
  have "nonce < 2 ^ 64 - 1" using d(3) parse_u64_bound [OF d(2)] by linarith
  then show ?thesis
    using d by (simp add: bytes_hex_text [OF assms(1)] del: not_None_eq)
qed

lemma review_fees_Inr:
  assumes "review_fees lib c tx = Inr fees"
  shows "number lib (gas_limit_text tx) = Inr (reviewed_gas fees)" "number lib (max_fee_text tx) = Inr (reviewed_max_fee fees)"
    "number lib (max_priority_fee_text tx) = Inr (reviewed_priority fees)" "number lib (l1_fee_text tx) = Inr (reviewed_l1_fee fees)"
    "reviewed_execution_fee fees = reviewed_gas fees * reviewed_max_fee fees"
    "\<exists>limit. number lib (max_gas_limit c) = Inr limit \<and> 0 < reviewed_gas fees \<and> reviewed_gas fees \<le> limit"
    "\<exists>limit. number lib (max_fee_per_gas_wei c) = Inr limit \<and> 0 < reviewed_max_fee fees \<and> reviewed_max_fee fees \<le> limit"
    "reviewed_priority fees \<le> reviewed_max_fee fees"
    "\<exists>limit. number lib (max_total_fee_wei c) = Inr limit \<and>
       reviewed_gas fees * reviewed_max_fee fees + reviewed_l1_fee fees \<le> limit"
  using assms unfolding review_fees_def
  by (auto simp: and_then_eq_Inr ok_or_eq_Inr reject_if_Inr or_else_False
      dest!: checked_mul_SomeD checked_add_SomeD split: if_splits)

lemma delegation_Inr:
  assumes "zns_laws lib" "rlp_reads lib reader" "delegation lib key c auth_nonce = Inr auth" "chain_id c < 2 ^ 256"
    "\<And>n. auth_nonce = Some n \<Longrightarrow> n < 2 ^ 64"
  shows "(auth_nonce = None \<and> auth = None) \<or>
    (\<exists>n delegate delegate_name item. auth_nonce = Some n \<and> auth = Some (rlp_out lib item) \<and> rlp_plain item \<and>
      delegate_text c = Some delegate_name \<and> address lib delegate_name = Inr delegate \<and>
      (\<forall>rest. read_delegation (RList [item] # rest) = Some (Some (chain_id c, delegate, n), rest)))"
proof (cases auth_nonce)
  case None
  then show ?thesis using assms(3) by (simp add: delegation_def)
next
  case (Some n)
  obtain delegate_name delegate signature where d: "delegate_text c = Some delegate_name"
      "address lib delegate_name = Inr delegate"
      "sign_recoverable lib key (0x05 # rlp_out lib (RList [append_number (chain_id c), RBytes delegate, append_number n]))
         ''Authorization signing failed'' = Inr signature"
      "auth = Some (rlp_out lib (RList ([append_number (chain_id c), RBytes delegate, append_number n] @ signature)))"
    using assms(3) Some by (auto simp: delegation_def authorization_def Let_def and_then_eq_Inr ok_or_eq_Inr)
  from sign_recoverable_Inr [OF d(3)] obtain r s' parity where
    "signature = [append_number parity, append_number r, append_number s']" by blast
  moreover have "n < 2 ^ 256" using assms(5) [OF Some] by (rule less_trans) simp
  ultimately show ?thesis
    using Some d assms(4) by (auto simp: read_append_number)
qed

lemma read_items_fields:
  assumes "read_delegation (rest @ signature) = Some (delegated, signature)" "length signature = 3"
    "chain < 2 ^ 256" "nonce < 2 ^ 256" "reviewed_priority fees < 2 ^ 256" "reviewed_max_fee fees < 2 ^ 256"
    "reviewed_gas fees < 2 ^ 256" "amount < 2 ^ 256" "t = (if delegated = None then 2 else 4)"
    "items = transaction_fields chain nonce fees target amount data None @ rest"
  shows "read_items t (items @ signature) = Some \<lparr> view_type = t, view_chain = chain, view_nonce = nonce,
    view_priority = reviewed_priority fees, view_max_fee = reviewed_max_fee fees, view_gas = reviewed_gas fees,
    view_target = target, view_amount = amount, view_data = data, view_delegation = delegated \<rparr>"
  using assms by (auto simp: transaction_fields_def read_append_number then_some_def)

lemma authorization_nonce_of_Inr:
  "authorization_nonce_of required nonce = Inr auth_nonce \<Longrightarrow>
   auth_nonce = (if required then Some (nonce + 1) else None) \<and> (required \<longrightarrow> nonce + 2 < 2 ^ 64)"
  by (auto simp: authorization_nonce_of_def and_then_eq_Inr ok_or_eq_Inr bind_eq_Some_conv dest!: checked_add_SomeD
      split: if_splits)

text \<open>What a reader makes of the signed bytes.\<close>

definition reads_as :: "'k zns_library \<Rightarrow> zns_config \<Rightarrow> prepared \<Rightarrow> zns_transaction \<Rightarrow> transaction_view \<Rightarrow> bool" where
  "reads_as lib c p tx v \<longleftrightarrow>
     view_chain v = chain_id c \<and> parse_u64 (nonce_text tx) = Some (view_nonce v) \<and>
     number lib (max_priority_fee_text tx) = Inr (view_priority v) \<and>
     number lib (max_fee_text tx) = Inr (view_max_fee v) \<and> number lib (gas_limit_text tx) = Inr (view_gas v) \<and>
     address lib (prepared_to p) = Inr (view_target v) \<and> number lib (prepared_value p) = Inr (view_amount v) \<and>
     bytes lib (prepared_data p) = Inr (view_data v) \<and>
     (if authorization_required p
      then \<exists>delegate_name delegate. delegate_text c = Some delegate_name \<and> address lib delegate_name = Inr delegate \<and>
        view_delegation v = Some (chain_id c, delegate, view_nonce v + 1) \<and> view_type v = 4
      else view_delegation v = None \<and> view_type v = 2)"

lemma read_signed:
  assumes "zns_laws lib" "rlp_reads lib reader" "sign_recoverable lib key payload failed = Inr signature"
    "chain < 2 ^ 256" "nonce < 2 ^ 256" "reviewed_priority fees < 2 ^ 256" "reviewed_max_fee fees < 2 ^ 256"
    "reviewed_gas fees < 2 ^ 256" "amount < 2 ^ 256" "t = (if auth = None then 2 else 4)"
    "(auth = None \<and> delegated = None) \<or> (\<exists>item x. auth = Some (rlp_out lib item) \<and> rlp_plain item \<and> delegated = Some x \<and>
       (\<forall>rest. read_delegation (RList [item] # rest) = Some (Some x, rest)))"
  shows "read_transaction reader (of_nat t # rlp_out lib (RList (transaction_fields chain nonce fees target amount data
      auth @ signature))) = Some \<lparr> view_type = t, view_chain = chain, view_nonce = nonce,
    view_priority = reviewed_priority fees, view_max_fee = reviewed_max_fee fees, view_gas = reviewed_gas fees,
    view_target = target, view_amount = amount, view_data = data, view_delegation = delegated \<rparr>"
proof -
  obtain r s parity where sig: "signature = [append_number parity, append_number r, append_number s]"
    using sign_recoverable_Inr [OF assms(3)] by blast
  have t: "unat (of_nat t :: 8 word) = t" using assms(10) by simp
  let ?base = "transaction_fields chain nonce fees target amount data None"
  obtain more where more: "rlp_out lib (RList (transaction_fields chain nonce fees target amount data auth @ signature)) =
      rlp_out lib (RList (?base @ more @ signature))" "\<forall>item \<in> set more. rlp_plain item"
      "read_delegation (more @ signature) = Some (delegated, signature)"
    using assms(11)
  proof (elim disjE exE conjE)
    assume "auth = None" "delegated = None"
    then show ?thesis using that [of "[]"] by (simp add: sig append_number_def)
  next
    fix item x
    assume item: "auth = Some (rlp_out lib item)" "rlp_plain item" "delegated = Some x"
      "\<forall>rest. read_delegation (RList [item] # rest) = Some (Some x, rest)"
    then have "rlp_out lib (RList (?base @ RList [RRaw (rlp_out lib item)] # signature)) =
        rlp_out lib (RList (?base @ RList [item] # signature))"
      using assms(2) unfolding rlp_reads_def by blast
    then show ?thesis
      using that [of "[RList [item]]"] item by (simp add: transaction_fields_def)
  qed
  have "\<forall>item \<in> set (?base @ more @ signature). rlp_plain item"
    using more(2) by (auto simp: transaction_fields_def sig)
  then have "reader (rlp_out lib (RList (?base @ more @ signature))) = Some (RList (?base @ more @ signature))"
    using assms(2) by (simp add: rlp_reads_def)
  moreover have "t = (if delegated = None then 2 else 4)" using assms(10,11) by auto
  ultimately show ?thesis
    using read_items_fields [OF more(3) _ assms(4-9) _ refl, of t target data] more(1) t
    by (simp add: read_transaction_def sig)
qed

lemma signed_reading:
  assumes "zns_laws lib" "rlp_reads lib reader" "sign lib key c op tx = Inr s"
  shows "\<exists>raw v p fees. bytes lib (raw_transaction s) = Inr raw \<and> read_transaction reader raw = Some v \<and>
    prepare lib c (to_checksum lib (key_address lib key)) op = Inr p \<and> reads_as lib c p tx v \<and>
    review_fees lib c tx = Inr fees \<and> view_gas v = reviewed_gas fees \<and> view_max_fee v = reviewed_max_fee fees \<and>
    view_priority v = reviewed_priority fees \<and> view_nonce v < 2 ^ 64 - 1 \<and> transaction_type s = view_type v \<and>
    maximum_execution_fee_wei s = u256_text lib (reviewed_execution_fee fees)"
proof -
  obtain p nonce fees auth_nonce auth target amount data signature tx_type where d:
      "prepare lib c (to_checksum lib (key_address lib key)) op = Inr p" "parse_u64 (nonce_text tx) = Some nonce"
      "nonce < 2 ^ 64 - 1" "review_fees lib c tx = Inr fees"
      "authorization_nonce_of (authorization_required p) nonce = Inr auth_nonce"
      "delegation lib key c auth_nonce = Inr auth" "tx_type = (if auth \<noteq> None then 4 else 2 :: nat)"
      "address lib (prepared_to p) = Inr target"
      "number lib (prepared_value p) = Inr amount" "bytes lib (prepared_data p) = Inr data"
      "sign_recoverable lib key (of_nat tx_type # rlp_out lib (RList (transaction_fields (chain_id c) nonce fees target
        amount data auth))) ''Transaction signing failed'' = Inr signature"
      "bytes lib (raw_transaction s) = Inr (of_nat tx_type # rlp_out lib (RList (transaction_fields (chain_id c) nonce
        fees target amount data auth @ signature)))" "transaction_type s = tx_type"
      "maximum_execution_fee_wei s = u256_text lib (reviewed_execution_fee fees)"
    using sign_Inr [OF assms(1,3)] by blast
  have "chain_id c \<in> {8453, 84532, 31337}"
    using prepare_Inr [OF d(1)] validate_config_Inr(1) by blast
  then have chain: "chain_id c < 2 ^ 256" by auto
  have nonce: "nonce < 2 ^ 256" using d(3) by simp
  note fees = review_fees_Inr [OF d(4)]
  note an = authorization_nonce_of_Inr [OF d(5)]
  have "n < 2 ^ 64" if "auth_nonce = Some n" for n using an that by (auto split: if_splits)
  from delegation_Inr [OF assms(1,2) d(6) chain this] an
  have del: "(auth = None \<and> \<not> authorization_required p) \<or> (\<exists>delegate delegate_name item. authorization_required p \<and>
      auth = Some (rlp_out lib item) \<and> rlp_plain item \<and> delegate_text c = Some delegate_name \<and>
      address lib delegate_name = Inr delegate \<and>
      (\<forall>rest. read_delegation (RList [item] # rest) = Some (Some (chain_id c, delegate, nonce + 1), rest)))"
    by (auto split: if_splits)
  then obtain delegated where delegated:
      "(auth = None \<and> delegated = None) \<or> (\<exists>item x. auth = Some (rlp_out lib item) \<and> rlp_plain item \<and> delegated = Some x \<and>
         (\<forall>rest. read_delegation (RList [item] # rest) = Some (Some x, rest)))"
      "if authorization_required p then \<exists>delegate_name delegate. delegate_text c = Some delegate_name \<and>
         address lib delegate_name = Inr delegate \<and> delegated = Some (chain_id c, delegate, nonce + 1) \<and> auth \<noteq> None
       else delegated = None \<and> auth = None"
    by (elim disjE exE conjE) auto
  have t: "tx_type = (if auth = None then 2 else 4)" using d(7) by auto
  note v = read_signed [OF assms(1,2) d(11) chain nonce number_bound [OF assms(1) fees(3)] number_bound [OF assms(1) fees(2)]
      number_bound [OF assms(1) fees(1)] number_bound [OF assms(1) d(9)] t delegated(1)]
  let ?v = "\<lparr> view_type = tx_type, view_chain = chain_id c, view_nonce = nonce,
    view_priority = reviewed_priority fees, view_max_fee = reviewed_max_fee fees, view_gas = reviewed_gas fees,
    view_target = target, view_amount = amount, view_data = data, view_delegation = delegated \<rparr>"
  have "reads_as lib c p tx ?v"
    using d(2,8-10) t delegated(2) fees(1-3) by (auto simp: reads_as_def split: if_splits)
  then show ?thesis
    using d(1,3,4,12-14) v [of target data]
    by (intro exI [of _ "of_nat tx_type # rlp_out lib (RList (transaction_fields (chain_id c) nonce fees target amount
        data auth @ signature))"] exI [of _ ?v] exI [of _ p] exI [of _ fees]) simp
qed

end
