(* ===== verification/ZnsExample.thy ===== *)
theory ZnsExample
  imports ZnsCorrect LedgerReader "HOL-Library.Code_Target_Nat"
begin

text \<open>
  A library with the laws of \<open>ZnsCorrect\<close>, to run preparation and signing on: hexadecimal addresses and
  decimal numbers as they are, length-prefixed codes for swaps and transactions, and a digest that cuts
  its argument.
\<close>

section \<open>Texts\<close>

definition example_hex_digit :: "nat \<Rightarrow> char" where
  "example_hex_digit n = (if n < 10 then char_of (48 + n) else char_of (87 + n))"

definition example_hex_value :: "char \<Rightarrow> nat option" where
  "example_hex_value c = (let n = of_char c :: nat in
     if 48 \<le> n \<and> n \<le> 57 then Some (n - 48)
     else if 97 \<le> n \<and> n \<le> 102 then Some (n - 87)
     else if 65 \<le> n \<and> n \<le> 70 then Some (n - 55) else None)"

definition example_hex_encode :: "octets \<Rightarrow> string" where
  "example_hex_encode data =
     concat (map (\<lambda>b. [example_hex_digit (unat b div 16), example_hex_digit (unat b mod 16)]) data)"

fun example_hex_decode :: "string \<Rightarrow> octets option" where
  "example_hex_decode [] = Some []"
| "example_hex_decode [c] = None"
| "example_hex_decode (c # d # cs) = do {
     high \<leftarrow> example_hex_value c;
     low \<leftarrow> example_hex_value d;
     rest \<leftarrow> example_hex_decode cs;
     Some (of_nat (16 * high + low) # rest)
   }"

lemma example_hex_value_digit: "n < 16 \<Longrightarrow> example_hex_value (example_hex_digit n) = Some n"
  by (simp add: example_hex_value_def example_hex_digit_def Let_def take_bit_nat_eq_self)

lemma example_hex_roundtrip: "example_hex_decode (example_hex_encode data) = Some data"
proof (induction data)
  case Nil
  then show ?case by (simp add: example_hex_encode_def)
next
  case (Cons b data)
  have "unat b < 2 ^ LENGTH(8)" by (rule unsigned_less)
  then have "unat b div 16 < 16" "unat b mod 16 < 16" by auto
  moreover have "of_nat (16 * (unat b div 16) + unat b mod 16) = b" by simp
  ultimately show ?case
    using Cons by (simp add: example_hex_encode_def example_hex_value_digit del: of_nat_add of_nat_mult)
qed

definition example_fixed_hex :: "nat \<Rightarrow> string \<Rightarrow> octets option" where
  "example_fixed_hex n s = do {
     rest \<leftarrow> strip_prefix ''0x'' s;
     data \<leftarrow> example_hex_decode rest;
     then_some (length data = n);
     Some data
   }"

definition example_hex_text :: "octets \<Rightarrow> string" where
  "example_hex_text data = ''0x'' @ example_hex_encode data"

lemma example_fixed_hex_text: "length data = n \<Longrightarrow> example_fixed_hex n (example_hex_text data) = Some data"
  by (simp add: example_fixed_hex_def example_hex_text_def strip_prefix_def example_hex_roundtrip then_some_def)

lemma example_fixed_hex_length: "example_fixed_hex n s = Some data \<Longrightarrow> length data = n"
  by (auto simp: example_fixed_hex_def bind_eq_Some_conv)

lemma digits_value_snoc: "digits_value (s @ [c]) = 10 * digits_value s + (of_char c - 48)"
  by (simp add: digits_value_def)

lemma decimal_digits_correct:
  "digits_value (decimal_digits n) = n \<and> list_all ascii_digit (decimal_digits n) \<and> decimal_digits n \<noteq> []"
proof (induction n rule: decimal_digits.induct)
  case (1 n)
  have digit: "of_char (char_of (48 + k) :: char) = 48 + k" "ascii_digit (char_of (48 + k))" if "k < 10" for k :: nat
    using that by (simp_all add: take_bit_nat_eq_self ascii_digit_def)
  show ?case
  proof (cases "n < 10")
    case True
    then show ?thesis
      by (subst (1 2 3) decimal_digits.simps) (simp add: digits_value_def digit del: of_char_of)
  next
    case False
    then show ?thesis using 1
      by (subst (1 2 3) decimal_digits.simps) (simp add: digits_value_snoc digit del: of_char_of)
  qed
qed

definition example_u256 :: "string \<Rightarrow> nat option" where
  "example_u256 s = (if digits_value s < 2 ^ 256 then Some (digits_value s) else None)"

section \<open>Swaps\<close>

definition u256_word :: "nat \<Rightarrow> octets" where "u256_word n = be_bytes 32 (of_nat n :: 256 word)"

definition read_u256 :: "nat reader" where
  "read_u256 = and_read (read_word_be 32) (\<lambda>w :: 256 word. read_give (unat w))"

lemma reads_u256: "n < 2 ^ 256 \<Longrightarrow> reads read_u256 (u256_word n) n"
  unfolding read_u256_def u256_word_def
  by (rule reads_and_last [OF reads_word_be]) (simp_all add: unat_of_nat_small reads_give)

definition octets_code :: "octets \<Rightarrow> octets" where "octets_code bs = u256_word (length bs) @ bs"
definition read_octets :: "octets reader" where "read_octets = and_read read_u256 read_bytes"

lemma reads_octets: "length bs < 2 ^ 256 \<Longrightarrow> reads read_octets (octets_code bs) bs"
  unfolding read_octets_def octets_code_def by (rule reads_and [OF reads_u256 reads_bytes]) simp_all

definition list_code :: "('a \<Rightarrow> octets) \<Rightarrow> 'a list \<Rightarrow> octets" where
  "list_code f xs = u256_word (length xs) @ concat (map f xs)"

definition read_list :: "'a reader \<Rightarrow> 'a list reader" where
  "read_list r = and_read read_u256 (\<lambda>n. read_many n r)"

lemma reads_list:
  "length xs < 2 ^ 256 \<Longrightarrow> (\<And>x. x \<in> set xs \<Longrightarrow> reads r (f x) x) \<Longrightarrow> reads (read_list r) (list_code f xs) xs"
  unfolding read_list_def list_code_def
  by (rule reads_and [OF reads_u256]) (simp_all add: reads_many_list list_all2_map1 list_all2_same)

definition swap_code :: "swap_execution_params \<Rightarrow> octets" where
  "swap_code ex = call_target ex @ approve_target ex @ octets_code (target_data ex) @ src_token (desc ex) @
     dst_token (desc ex) @ list_code id (src_receivers (desc ex)) @ list_code u256_word (src_amounts (desc ex)) @
     list_code id (fee_receivers (desc ex)) @ list_code u256_word (fee_amounts (desc ex)) @ dst_receiver (desc ex) @
     u256_word (swap_amount (desc ex)) @ u256_word (min_return_amount (desc ex)) @ u256_word (swap_flags (desc ex)) @
     octets_code (permit (desc ex)) @ octets_code (client_data ex)"

definition read_swap :: "swap_execution_params reader" where
  "read_swap =
     and_read (read_bytes 20) (\<lambda>target. and_read (read_bytes 20) (\<lambda>approved.
     and_read read_octets (\<lambda>data. and_read (read_bytes 20) (\<lambda>src. and_read (read_bytes 20) (\<lambda>dst.
     and_read (read_list (read_bytes 20)) (\<lambda>src_to. and_read (read_list read_u256) (\<lambda>src_n.
     and_read (read_list (read_bytes 20)) (\<lambda>fee_to. and_read (read_list read_u256) (\<lambda>fee_n.
     and_read (read_bytes 20) (\<lambda>receiver. and_read read_u256 (\<lambda>amount. and_read read_u256 (\<lambda>least.
     and_read read_u256 (\<lambda>flags. and_read read_octets (\<lambda>allowed. and_read read_octets (\<lambda>client.
     read_give \<lparr> call_target = target, approve_target = approved, target_data = data,
       desc = \<lparr> src_token = src, dst_token = dst, src_receivers = src_to, src_amounts = src_n,
         fee_receivers = fee_to, fee_amounts = fee_n, dst_receiver = receiver, swap_amount = amount,
         min_return_amount = least, swap_flags = flags, permit = allowed \<rparr>,
       client_data = client \<rparr>)))))))))))))))"

lemma reads_swap:
  assumes "swap_typed ex"
  shows "reads read_swap (swap_code ex) ex"
  unfolding read_swap_def swap_code_def
  by (intro reads_and [OF reads_bytes] reads_and [OF reads_octets] reads_and [OF reads_u256]
      reads_and [OF reads_list] reads_and_last [OF reads_octets] reads_give)
    (use assms in \<open>auto simp: swap_typed_def intro: reads_bytes reads_u256\<close>)

section \<open>Lists of items\<close>

fun example_rlp :: "rlp \<Rightarrow> octets" where
  "example_rlp (RBytes bs) = 0 # concat (map (\<lambda>b. [1, b]) bs) @ [0]"
| "example_rlp (RList items) = 1 # concat (map example_rlp items) @ [2]"
| "example_rlp (RRaw bs) = bs"

fun read_escaped :: "octets reader" where
  "read_escaped (t # bs) =
     (if t = 0 then Some ([], bs)
      else case bs of [] \<Rightarrow> None | b # rest \<Rightarrow> map_option (\<lambda>(xs, rest'). (b # xs, rest')) (read_escaped rest))"
| "read_escaped [] = None"

lemma read_escaped_code: "read_escaped (concat (map (\<lambda>b. [1, b]) bs) @ 0 # rest) = Some (bs, rest)"
  by (induction bs) simp_all

fun read_rlp_items :: "nat \<Rightarrow> rlp list reader" where
  "read_rlp_items (Suc n) (t # bs) =
     (if t = 2 then Some ([], bs)
      else case (if t = 0 then map_option (\<lambda>(xs, rest). (RBytes xs, rest)) (read_escaped bs)
                 else map_option (\<lambda>(xs, rest). (RList xs, rest)) (read_rlp_items n bs)) of
        None \<Rightarrow> None
      | Some (item, rest) \<Rightarrow> map_option (\<lambda>(items, rest'). (item # items, rest')) (read_rlp_items n rest))"
| "read_rlp_items _ _ = None"

lemma read_rlp_items_code:
  "(\<forall>item \<in> set items. rlp_plain item) \<Longrightarrow> length (concat (map example_rlp items)) < n \<Longrightarrow>
   read_rlp_items n (concat (map example_rlp items) @ 2 # rest) = Some (items, rest)"
proof (induction n arbitrary: items rest)
  case (Suc n)
  show ?case
  proof (cases items)
    case (Cons item others)
    then have others: "\<forall>x \<in> set others. rlp_plain x" "length (concat (map example_rlp others)) < n"
      using Suc.prems by (auto, cases item) auto
    show ?thesis
    proof (cases item)
      case (RBytes bs)
      then show ?thesis using Cons Suc.IH [OF others] by (simp add: read_escaped_code)
    next
      case (RList inner)
      then have "\<forall>x \<in> set inner. rlp_plain x" "length (concat (map example_rlp inner)) < n"
        using Suc.prems Cons by auto
      from Suc.IH [OF this] show ?thesis using Cons RList Suc.IH [OF others] by simp
    qed (use Cons Suc.prems in simp)
  qed simp
qed simp

definition example_reader :: "octets \<Rightarrow> rlp option" where
  "example_reader bs = (case read_rlp_items (Suc (length bs)) (bs @ [2]) of Some ([item], []) \<Rightarrow> Some item | _ \<Rightarrow> None)"

section \<open>The library\<close>

definition example_abi :: "abi_call \<Rightarrow> octets" where
  "example_abi call = (case call of
      SwapCall ex \<Rightarrow> 1 # swap_code ex
    | ApproveCall spender allowed \<Rightarrow> 2 # spender @ u256_word allowed
    | WithdrawClaimsCall \<Rightarrow> [3]
    | ExecuteCall calls deadline \<Rightarrow> 4 # list_code (\<lambda>e. execution_target e @ u256_word (execution_value e) @
        octets_code (execution_data e)) calls @ u256_word deadline
    | RegisterCall label ua secret most extra mode deadline \<Rightarrow> 5 # octets_code (map byte_of label) @
        octets_code (map byte_of ua) @ secret @ u256_word most @ u256_word extra @ u256_word mode @ u256_word deadline
    | _ \<Rightarrow> [0])"

definition example_decode_swap :: "octets \<Rightarrow> swap_execution_params option" where
  "example_decode_swap data = (case data of [] \<Rightarrow> None | t # bs \<Rightarrow>
     if t = 1 then (case read_swap bs of Some (ex, []) \<Rightarrow> if swap_typed ex then Some ex else None | _ \<Rightarrow> None)
     else None)"

definition example_keccak :: "octets \<Rightarrow> octets" where
  "example_keccak data = take 32 (data @ replicate 32 0)"

definition example_zns :: "string zns_library" where
  "example_zns = \<lparr> parse_address = example_fixed_hex 20, to_checksum = example_hex_text,
     parse_b256 = example_fixed_hex 32, b256_text = example_hex_text,
     parse_u256 = example_u256, u256_text = decimal_digits,
     hex_decode = example_hex_decode, hex_encode = example_hex_encode, keccak256 = example_keccak,
     abi_encode = example_abi, decode_swap_call = example_decode_swap,
     encode_commitment = (\<lambda>h p r c label ua owner secret. h @ p @ r @ u256_word c @ octets_code (map byte_of label) @
       octets_code (map byte_of ua) @ owner @ secret),
     decode_address = (\<lambda>_. None), decode_b256 = (\<lambda>_. None), decode_u256 = (\<lambda>_. None), decode_u64 = (\<lambda>_. None),
     decode_string = (\<lambda>_. None), decode_bool = (\<lambda>_. None), decode_decimals = (\<lambda>_. None),
     decode_claimable = (\<lambda>_. None), decode_quote = (\<lambda>_. None), decode_position_info = (\<lambda>_. None),
     decode_exit_preview = (\<lambda>_. None), decode_name_record = (\<lambda>_. None),
     rlp_out = example_rlp, sign_prehash_recoverable = (\<lambda>key digest. Some (be_value digest mod 2 ^ 256, 2, 0)),
     verifying_point = map byte_of, derive_from_path = (\<lambda>seed path. Some (seed @ path)) \<rparr>"

lemma example_rlp_reads: "rlp_reads example_zns example_reader"
proof -
  have "example_reader (example_rlp item) = Some item" if "rlp_plain item" for item
    using read_rlp_items_code [of "[item]" "Suc (length (example_rlp item))" "[]"] that
    by (simp add: example_reader_def)
  then show ?thesis by (simp add: rlp_reads_def example_zns_def)
qed

lemma example_keccak_length: "length (example_keccak data) = 32"
  by (simp add: example_keccak_def)

lemma example_protocol: "example_fixed_hex 32 PROTOCOL_ID \<noteq> None"
  by code_simp

lemma example_zns_laws: "zns_laws example_zns"
  using example_fixed_hex_length example_fixed_hex_text [where n = 20] example_hex_roundtrip decimal_digits_correct example_protocol
  by (auto simp: zns_laws_def example_zns_def example_u256_def example_keccak_length split: if_splits)

lemma example_swap_laws: "swap_laws example_zns"
proof -
  have "read_swap (swap_code ex) = Some (ex, [])" if "swap_typed ex" for ex
    using reads_swap [OF that] by (auto simp: reads_def dest: spec [of _ "[]"])
  then show ?thesis
    by (auto simp: swap_laws_def example_zns_def example_decode_swap_def example_abi_def split: if_splits list.splits option.splits)
qed

lemma example_account [simp]: "length a = 20 \<Longrightarrow> address example_zns (example_hex_text a) = Inr a"
  using address_checksum [OF example_zns_laws] by (simp add: example_zns_def)

lemma example_number [simp]: "n < 2 ^ 256 \<Longrightarrow> number example_zns (decimal_digits n) = Inr n"
  using number_u256_text [OF example_zns_laws] by (simp add: example_zns_def)

lemma example_bytes [simp]: "bytes example_zns (example_hex_text data) = Inr data"
  using bytes_hex_text [OF example_zns_laws] by (simp add: example_zns_def hex_text_def example_hex_text_def)

section \<open>A configuration\<close>

definition account_of :: "8 word \<Rightarrow> octets" where "account_of b = replicate 20 b"

lemma account_of_simps [simp]: "length (account_of b) = 20" "account_of b = account_of c \<longleftrightarrow> b = c"
  "account_of b = address_zero \<longleftrightarrow> b = 0" "address_zero = account_of b \<longleftrightarrow> b = 0"
  by (auto simp: account_of_def address_zero_def)

definition example_config :: zns_config where
  "example_config = \<lparr> protocol_id = PROTOCOL_ID, chain_id = 31337, registry_text = example_hex_text (account_of 1),
     token_text = example_hex_text (account_of 2), router_text = Some (example_hex_text (account_of 3)),
     delegate_text = Some (example_hex_text (account_of 4)), allow_test_chain = True,
     max_value_wei = decimal_digits 1000, max_gas_limit = decimal_digits 100000, max_fee_per_gas_wei = decimal_digits 50,
     max_total_fee_wei = decimal_digits 9000000, max_token_amount = decimal_digits 500 \<rparr>"

lemma example_config_valid: "validate_config example_zns example_config = Inr ()"
proof -
  obtain protocol where "parse_b256 example_zns PROTOCOL_ID = Some protocol"
    using example_protocol by (auto simp: example_zns_def)
  then show ?thesis
    by (simp add: validate_config_def validate_router_def validate_delegate_def example_config_def reject_if_def
        or_else_def address_is_def positive_limit_def)
qed

end
