(* ===== verification/ZnsProperties.thy ===== *)
theory ZnsProperties
  imports ZnsExample
begin

text \<open>The properties of signing for names, with runs on the example library.\<close>

section \<open>Completion\<close>

lemma validated_delegate:
  assumes "prepare lib c owner_text op = Inr p" "authorization_required p"
  shows "\<exists>delegate_name delegate. delegate_text c = Some delegate_name \<and> address lib delegate_name = Inr delegate"
proof -
  obtain owner registry token target amount data hash where d: "validate_config lib c = Inr ()"
      "prepare_operation lib c owner registry token op = Inr (target, amount, data, hash, True)"
    using prepare_Inr [OF assms(1)] assms(2) by auto
  then obtain r amount_text swap existing where "op = AtomicRegister r amount_text swap existing"
    using prepare_operation_authorization [OF d(2)] by auto
  then have "delegate_text c \<noteq> None"
    using d(2) by (auto simp: prepare_operation_def and_then_eq_Inr ok_or_eq_Inr split: if_splits)
  then show ?thesis using validate_config_Inr(5) [OF d(1)] by blast
qed

text \<open>A signature that Ethereum can carry: the key signs, with recovery identifier 0 or 1.\<close>

definition signs :: "'k zns_library \<Rightarrow> 'k \<Rightarrow> octets \<Rightarrow> bool" where
  "signs lib key payload \<longleftrightarrow>
     (\<exists>r s recovery_id. sign_prehash_recoverable lib key (keccak256 lib payload) = Some (r, s, recovery_id) \<and> recovery_id \<le> 1)"

lemma sign_recoverable_signs: "(\<exists>signature. sign_recoverable lib key payload failed = Inr signature) \<longleftrightarrow> signs lib key payload"
  by (auto simp: sign_recoverable_def signs_def and_then_eq_Inr ok_or_eq_Inr not_less)

lemma sign_recoverable_fails:
  "sign_recoverable lib key payload failed = Inl e \<Longrightarrow>
   e \<in> {Err failed, Err ''Unsupported Ethereum recovery identifier''}"
  by (cases "sign_prehash_recoverable lib key (keccak256 lib payload)")
    (auto simp: sign_recoverable_def ok_or_def split: if_splits prod.splits)

text \<open>The bytes signed for a delegation and for the transaction.\<close>

definition authorization_payload :: "'k zns_library \<Rightarrow> nat \<Rightarrow> octets \<Rightarrow> nat \<Rightarrow> octets" where
  "authorization_payload lib chain delegate nonce =
     0x05 # rlp_out lib (RList [append_number chain, RBytes delegate, append_number nonce])"

definition transaction_payload ::
  "'k zns_library \<Rightarrow> nat \<Rightarrow> nat \<Rightarrow> reviewed_fees \<Rightarrow> octets \<Rightarrow> nat \<Rightarrow> octets \<Rightarrow> octets option \<Rightarrow> octets" where
  "transaction_payload lib chain nonce fees target amount data auth =
     of_nat (if auth \<noteq> None then 4 else 2) # rlp_out lib (RList (transaction_fields chain nonce fees target amount data auth))"

lemma delegation_outcome:
  assumes "delegate_text c = Some delegate_name" "address lib delegate_name = Inr delegate"
  shows "(\<exists>auth. delegation lib key c (Some n) = Inr auth) \<longleftrightarrow> signs lib key (authorization_payload lib (chain_id c) delegate n)"
    and "delegation lib key c (Some n) = Inl e \<Longrightarrow>
      e \<in> {Err ''Authorization signing failed'', Err ''Unsupported Ethereum recovery identifier''}"
proof -
  let ?s = "sign_recoverable lib key (authorization_payload lib (chain_id c) delegate n) ''Authorization signing failed''"
  have d: "delegation lib key c (Some n) = and_then ?s (\<lambda>signature. Inr (Some (rlp_out lib (RList
      ([append_number (chain_id c), RBytes delegate, append_number n] @ signature)))))"
    using assms by (cases ?s) (simp_all add: delegation_def authorization_def authorization_payload_def Let_def)
  show "(\<exists>auth. delegation lib key c (Some n) = Inr auth) \<longleftrightarrow> signs lib key (authorization_payload lib (chain_id c) delegate n)"
    unfolding d sign_recoverable_signs [symmetric, of _ _ _ "''Authorization signing failed''"] by (auto simp: and_then_eq_Inr)
  show "delegation lib key c (Some n) = Inl e \<Longrightarrow>
      e \<in> {Err ''Authorization signing failed'', Err ''Unsupported Ethereum recovery identifier''}"
    unfolding d by (cases ?s) (auto dest: sign_recoverable_fails)
qed

lemma prepared_parts:
  assumes "zns_laws lib" "prepare lib c (to_checksum lib (key_address lib key)) op = Inr p"
  shows "\<exists>target amount data. address lib (prepared_to p) = Inr target \<and> number lib (prepared_value p) = Inr amount \<and>
    bytes lib (prepared_data p) = Inr data"
proof -
  obtain owner registry token target amount data hash where d: "validate_config lib c = Inr ()"
      "address lib (to_checksum lib (key_address lib key)) = Inr owner"
      "address lib (registry_text c) = Inr registry" "address lib (token_text c) = Inr token"
      "prepare_operation lib c owner registry token op = Inr (target, amount, data, hash, authorization_required p)"
      "prepared_to p = to_checksum lib target" "prepared_value p = u256_text lib amount" "prepared_data p = hex_text lib data"
    using prepare_Inr [OF assms(2)] by blast
  have "may_send lib c owner registry token target amount data"
    by (rule prepare_operation_Inr [OF validate_config_Inr(2) [OF d(1)] d(5)])
  then have "length target = 20" "amount < 2 ^ 256"
    using may_send_bounds [OF assms(1)] address_length [OF assms(1)] d(2-4) by blast+
  then show ?thesis
    using d(6-8) by (simp add: address_checksum [OF assms(1)] number_u256_text [OF assms(1)] bytes_hex_text [OF assms(1)])
qed

lemma signing_outcome:
  assumes laws: "zns_laws lib" and p: "prepare lib c (to_checksum lib (key_address lib key)) op = Inr p"
    and nonce: "parse_u64 (nonce_text tx) = Some nonce" "nonce + 2 < 2 ^ 64" and fees: "review_fees lib c tx = Inr fees"
    and parts: "address lib (prepared_to p) = Inr target" "number lib (prepared_value p) = Inr amount"
      "bytes lib (prepared_data p) = Inr data"
  shows "(\<exists>s. sign lib key c op tx = Inr s) \<longleftrightarrow>
      (\<exists>auth. delegation lib key c (if authorization_required p then Some (nonce + 1) else None) = Inr auth \<and>
         signs lib key (transaction_payload lib (chain_id c) nonce fees target amount data auth))"
    and "sign lib key c op tx = Inl e \<Longrightarrow> e \<in> {Err ''Authorization signing failed'', Err ''Transaction signing failed'',
      Err ''Unsupported Ethereum recovery identifier''}"
proof -
  let ?n = "if authorization_required p then Some (nonce + 1) else None"
  let ?d = "delegation lib key c ?n"
  let ?s = "\<lambda>auth. sign_recoverable lib key (transaction_payload lib (chain_id c) nonce fees target amount data auth)
    ''Transaction signing failed''"
  have n: "authorization_nonce_of (authorization_required p) nonce = Inr ?n"
    using nonce(2) by (simp add: authorization_nonce_of_def checked_add_def then_some_def)
  obtain h where sign: "sign lib key c op tx = and_then ?d (\<lambda>auth. and_then (?s auth) (\<lambda>signature. Inr (h auth signature)))"
  proof -
    have "\<exists>h. sign lib key c op tx = and_then ?d (\<lambda>auth. and_then (?s auth) (\<lambda>signature. Inr (h auth signature)))"
      using p nonce fees n parts
      by (intro exI) (simp add: sign_def Let_def transaction_payload_def split del: if_split)
    then show thesis using that by blast
  qed
  show "(\<exists>s. sign lib key c op tx = Inr s) \<longleftrightarrow>
      (\<exists>auth. ?d = Inr auth \<and> signs lib key (transaction_payload lib (chain_id c) nonce fees target amount data auth))"
    unfolding sign sign_recoverable_signs [symmetric, of _ _ _ "''Transaction signing failed''"] by (auto simp: and_then_eq_Inr)
  assume e: "sign lib key c op tx = Inl e"
  show "e \<in> {Err ''Authorization signing failed'', Err ''Transaction signing failed'',
      Err ''Unsupported Ethereum recovery identifier''}"
  proof (cases ?d)
    case (Inl e')
    then have required: "authorization_required p" by (simp add: delegation_def split: if_splits)
    obtain delegate_name delegate where "delegate_text c = Some delegate_name" "address lib delegate_name = Inr delegate"
      using validated_delegate [OF p required] by blast
    from delegation_outcome(2) [OF this] Inl required e show ?thesis by (auto simp: sign)
  next
    case (Inr auth)
    then have "?s auth = Inl e" using e by (cases "?s auth") (simp_all add: sign)
    from sign_recoverable_fails [OF this] show ?thesis by auto
  qed
qed

lemma signing_terms_complete:
  assumes "zns_laws lib" and p: "prepare lib c (to_checksum lib (key_address lib key)) op = Inr p"
    and "parse_u64 (nonce_text tx) = Some nonce" "nonce + 2 < 2 ^ 64" "review_fees lib c tx = Inr fees"
    and signs: "\<And>payload. signs lib key payload"
  shows "\<exists>s. sign lib key c op tx = Inr s"
proof -
  obtain target amount data where parts: "address lib (prepared_to p) = Inr target"
      "number lib (prepared_value p) = Inr amount" "bytes lib (prepared_data p) = Inr data"
    using prepared_parts [OF assms(1) p] by blast
  have "\<exists>auth. delegation lib key c (if authorization_required p then Some (nonce + 1) else None) = Inr auth"
  proof (cases "authorization_required p")
    case True
    then obtain delegate_name delegate where "delegate_text c = Some delegate_name" "address lib delegate_name = Inr delegate"
      using validated_delegate [OF p] by blast
    from delegation_outcome(1) [OF this] signs True show ?thesis by simp
  qed (simp add: delegation_def)
  then show ?thesis using signing_outcome(1) [OF assms(1-5) parts] signs by blast
qed

lemma review_fees_complete:
  assumes "number lib (gas_limit_text tx) = Inr gas" "number lib (max_fee_text tx) = Inr max_fee"
    "number lib (max_priority_fee_text tx) = Inr priority" "number lib (l1_fee_text tx) = Inr l1_fee"
    "number lib (max_gas_limit c) = Inr most_gas" "number lib (max_fee_per_gas_wei c) = Inr most_fee"
    "number lib (max_total_fee_wei c) = Inr most_total"
    "0 < gas" "gas \<le> most_gas" "0 < max_fee" "max_fee \<le> most_fee" "priority \<le> max_fee"
    "gas * max_fee + l1_fee \<le> most_total" "most_total < 2 ^ 256"
  shows "review_fees lib c tx = Inr \<lparr> reviewed_gas = gas, reviewed_max_fee = max_fee, reviewed_priority = priority,
    reviewed_l1_fee = l1_fee, reviewed_execution_fee = gas * max_fee \<rparr>"
proof -
  have "gas * max_fee < 2 ^ 256" "gas * max_fee + l1_fee < 2 ^ 256" using assms(13,14) by linarith+
  then show ?thesis
    using assms by (simp add: review_fees_def reject_if_def or_else_def checked_mul_def checked_add_def)
qed

definition example_transaction :: zns_transaction where
  "example_transaction = \<lparr> nonce_text = ''7'', gas_limit_text = decimal_digits 90000, max_fee_text = decimal_digits 40,
     max_priority_fee_text = decimal_digits 2, l1_fee_text = decimal_digits 1000 \<rparr>"

definition example_key :: string where "example_key = replicate 33 CHR ''k''"

definition example_owner :: octets where "example_owner = account_of (byte_of CHR ''k'')"

lemma example_key_address: "key_address example_zns example_key = example_owner"
  by code_simp

lemma example_owner_text: "to_checksum example_zns (key_address example_zns example_key) = example_hex_text example_owner"
  unfolding example_key_address by (simp add: example_zns_def)

lemma example_nonce: "parse_u64 (nonce_text example_transaction) = Some 7"
  by code_simp

lemma example_signer: "signs example_zns key payload"
  by (simp add: signs_def example_zns_def)

lemma example_numbers:
  "number example_zns (gas_limit_text example_transaction) = Inr 90000"
  "number example_zns (max_fee_text example_transaction) = Inr 40"
  "number example_zns (max_priority_fee_text example_transaction) = Inr 2"
  "number example_zns (l1_fee_text example_transaction) = Inr 1000"
  "number example_zns (max_gas_limit example_config) = Inr 100000"
  "number example_zns (max_fee_per_gas_wei example_config) = Inr 50"
  "number example_zns (max_total_fee_wei example_config) = Inr 9000000"
  by (simp_all add: example_transaction_def example_config_def)

lemma example_fees: "\<exists>fees. review_fees example_zns example_config example_transaction = Inr fees"
  by (rule exI, rule review_fees_complete [OF example_numbers]) simp_all

lemma example_withdraw_prepared: "\<exists>p. prepare example_zns example_config (example_hex_text example_owner) WithdrawClaims = Inr p"
  using example_config_valid
  by (simp add: prepare_def example_owner_def prepare_operation_def plain_call_def byte_of_def)
    (simp add: example_config_def)

lemma example_withdraw_signed: "\<exists>s. sign example_zns example_key example_config WithdrawClaims example_transaction = Inr s"
proof -
  obtain p fees where "prepare example_zns example_config (to_checksum example_zns (key_address example_zns example_key))
      WithdrawClaims = Inr p" "review_fees example_zns example_config example_transaction = Inr fees"
    using example_withdraw_prepared example_fees example_owner_text by metis
  from signing_terms_complete [OF example_zns_laws this(1) example_nonce _ this(2) example_signer]
  show ?thesis by simp
qed

text \<open>
  C27: Nothing but the key stops a signing: whatever operation can be prepared, with a nonce that leaves room
  for the next one and gas and fees within the configuration's limits, it is signed exactly when the key
  gives a signature with recovery identifier 0 or 1 for the delegation, if one is needed, and for the
  transaction with these contents; otherwise the error is one of the three that report the key's failure.
\<close>

theorem signing_completes:
  assumes "zns_laws lib" "prepare lib c (to_checksum lib (key_address lib key)) op = Inr p"
    and "parse_u64 (nonce_text tx) = Some nonce" "nonce + 2 < 2 ^ 64"
    and "number lib (gas_limit_text tx) = Inr gas" "number lib (max_fee_text tx) = Inr max_fee"
      "number lib (max_priority_fee_text tx) = Inr priority" "number lib (l1_fee_text tx) = Inr l1_fee"
    and "number lib (max_gas_limit c) = Inr most_gas" "number lib (max_fee_per_gas_wei c) = Inr most_fee"
      "number lib (max_total_fee_wei c) = Inr most_total"
    and "0 < gas" "gas \<le> most_gas" "0 < max_fee" "max_fee \<le> most_fee" "priority \<le> max_fee"
      "gas * max_fee + l1_fee \<le> most_total"
  shows "\<exists>target amount data.
    address lib (prepared_to p) = Inr target \<and> number lib (prepared_value p) = Inr amount \<and>
    bytes lib (prepared_data p) = Inr data \<and>
    ((\<exists>s. sign lib key c op tx = Inr s) \<longleftrightarrow>
      (\<exists>auth. delegation lib key c (if authorization_required p then Some (nonce + 1) else None) = Inr auth \<and>
         signs lib key (transaction_payload lib (chain_id c) nonce
           \<lparr> reviewed_gas = gas, reviewed_max_fee = max_fee, reviewed_priority = priority, reviewed_l1_fee = l1_fee,
             reviewed_execution_fee = gas * max_fee \<rparr> target amount data auth))) \<and>
    (authorization_required p \<longrightarrow> (\<exists>delegate_name delegate. delegate_text c = Some delegate_name \<and>
       address lib delegate_name = Inr delegate \<and>
       ((\<exists>auth. delegation lib key c (Some (nonce + 1)) = Inr auth) \<longleftrightarrow>
         signs lib key (authorization_payload lib (chain_id c) delegate (nonce + 1))))) \<and>
    (\<forall>e. sign lib key c op tx = Inl e \<longrightarrow> e \<in> {Err ''Authorization signing failed'', Err ''Transaction signing failed'',
      Err ''Unsupported Ethereum recovery identifier''})"
proof -
  note fees = review_fees_complete [OF assms(5-17) number_bound [OF assms(1,11)]]
  obtain target amount data where parts: "address lib (prepared_to p) = Inr target"
      "number lib (prepared_value p) = Inr amount" "bytes lib (prepared_data p) = Inr data"
    using prepared_parts [OF assms(1,2)] by blast
  note outcome = signing_outcome [OF assms(1-4) fees parts]
  have "authorization_required p \<longrightarrow> (\<exists>delegate_name delegate. delegate_text c = Some delegate_name \<and>
       address lib delegate_name = Inr delegate \<and>
       ((\<exists>auth. delegation lib key c (Some (nonce + 1)) = Inr auth) \<longleftrightarrow>
         signs lib key (authorization_payload lib (chain_id c) delegate (nonce + 1))))"
  proof
    assume "authorization_required p"
    then obtain delegate_name delegate where d: "delegate_text c = Some delegate_name" "address lib delegate_name = Inr delegate"
      using validated_delegate [OF assms(2)] by blast
    from d delegation_outcome(1) [OF d] show "\<exists>delegate_name delegate. delegate_text c = Some delegate_name \<and>
       address lib delegate_name = Inr delegate \<and>
       ((\<exists>auth. delegation lib key c (Some (nonce + 1)) = Inr auth) \<longleftrightarrow>
         signs lib key (authorization_payload lib (chain_id c) delegate (nonce + 1)))" by blast
  qed
  then show ?thesis using parts outcome by (intro exI conjI) (assumption | blast)+
qed

theorem signing_completes_witness:
  "\<exists>s. sign example_zns example_key example_config WithdrawClaims example_transaction = Inr s"
proof -
  obtain p where p: "prepare example_zns example_config (to_checksum example_zns (key_address example_zns example_key))
      WithdrawClaims = Inr p"
    using example_withdraw_prepared example_owner_text by metis
  have "\<exists>auth. delegation example_zns example_key example_config (if authorization_required p then Some (7 + 1) else None) = Inr auth"
  proof (cases "authorization_required p")
    case True
    then show ?thesis using signing_completes [OF example_zns_laws p example_nonce _ example_numbers] example_signer by auto
  qed (simp add: delegation_def)
  then show ?thesis
    using signing_completes [OF example_zns_laws p example_nonce _ example_numbers] example_signer by simp
qed

section \<open>Authority\<close>

text \<open>
  C23: What is signed stays within the reviewed configuration: the signed bytes are read back as a
  transaction that \<open>may_send\<close> allows (registry, token, reviewed swap or a call of the account to itself
  made of such calls; ETH only into a swap and up to the limit; allowances only to the registry and up
  to the limit), with gas, fee per gas and estimated total fee within their limits.
\<close>

theorem signed_within_authority:
  assumes "zns_laws lib" "rlp_reads lib reader" "sign lib key c op tx = Inr s"
  shows "\<exists>raw v registry token most_gas most_fee most_total l1_fee.
    bytes lib (raw_transaction s) = Inr raw \<and> read_transaction reader raw = Some v \<and>
    address lib (registry_text c) = Inr registry \<and> address lib (token_text c) = Inr token \<and>
    may_send lib c (key_address lib key) registry token (view_target v) (view_amount v) (view_data v) \<and>
    number lib (max_gas_limit c) = Inr most_gas \<and> 0 < view_gas v \<and> view_gas v \<le> most_gas \<and>
    number lib (max_fee_per_gas_wei c) = Inr most_fee \<and> view_priority v \<le> view_max_fee v \<and> view_max_fee v \<le> most_fee \<and>
    number lib (l1_fee_text tx) = Inr l1_fee \<and> number lib (max_total_fee_wei c) = Inr most_total \<and>
    view_gas v * view_max_fee v + l1_fee \<le> most_total"
proof -
  obtain raw v p fees where r: "bytes lib (raw_transaction s) = Inr raw" "read_transaction reader raw = Some v"
      "prepare lib c (to_checksum lib (key_address lib key)) op = Inr p" "reads_as lib c p tx v"
      "review_fees lib c tx = Inr fees" "view_gas v = reviewed_gas fees" "view_max_fee v = reviewed_max_fee fees"
      "view_priority v = reviewed_priority fees"
    using signed_reading [OF assms] by blast
  obtain owner registry token target amount data hash where d: "validate_config lib c = Inr ()"
      "address lib (to_checksum lib (key_address lib key)) = Inr owner"
      "address lib (registry_text c) = Inr registry" "address lib (token_text c) = Inr token"
      "prepare_operation lib c owner registry token op = Inr (target, amount, data, hash, authorization_required p)"
      "prepared_to p = to_checksum lib target" "prepared_value p = u256_text lib amount" "prepared_data p = hex_text lib data"
    using prepare_Inr [OF r(3)] by blast
  have owner: "owner = key_address lib key"
    using d(2) address_checksum [OF assms(1) length_key_address [OF assms(1)]] by simp
  have may: "may_send lib c owner registry token target amount data"
    by (rule prepare_operation_Inr [OF validate_config_Inr(2) [OF d(1)] d(5)])
  then have "length target = 20" "amount < 2 ^ 256"
    using may_send_bounds [OF assms(1)] address_length [OF assms(1)] d(2-4) by blast+
  then have "view_target v = target" "view_amount v = amount" "view_data v = data"
    using r(4) d(6-8)
    by (simp_all add: reads_as_def address_checksum [OF assms(1)] number_u256_text [OF assms(1)] bytes_hex_text [OF assms(1)])
  then show ?thesis
    using r(1,2,6-8) d(3,4) may owner review_fees_Inr(4,6-9) [OF r(5)] by auto
qed

theorem signed_within_authority_witness:
  "\<exists>v :: transaction_view. view_gas v \<le> 100000 \<and> may_send example_zns example_config example_owner (account_of 1) (account_of 2)
     (view_target v) (view_amount v) (view_data v)"
proof -
  obtain s where s: "sign example_zns example_key example_config WithdrawClaims example_transaction = Inr s"
    using example_withdraw_signed ..
  have "address example_zns (registry_text example_config) = Inr (account_of 1)"
    "address example_zns (token_text example_config) = Inr (account_of 2)"
    by (simp_all add: example_config_def)
  with signed_within_authority [OF example_zns_laws example_rlp_reads s] example_numbers(5) example_key_address
  show ?thesis by auto
qed

text \<open>
  C24: What is signed is what was reviewed: the signed bytes are read back as the chain, nonce, fees, target,
  amount and calldata of the prepared operation, with a delegation to the configured delegate under the
  next nonce if and only if the operation needs one, and then as type 4.
\<close>

theorem signed_transaction_reads_back:
  assumes "zns_laws lib" "rlp_reads lib reader" "sign lib key c op tx = Inr s"
  shows "\<exists>raw v p. bytes lib (raw_transaction s) = Inr raw \<and> read_transaction reader raw = Some v \<and>
    prepare lib c (to_checksum lib (key_address lib key)) op = Inr p \<and> reads_as lib c p tx v \<and>
    transaction_type s = view_type v \<and> view_nonce v < 2 ^ 64 - 1 \<and>
    maximum_execution_fee_wei s = u256_text lib (view_gas v * view_max_fee v)"
proof -
  obtain raw v p fees where r: "bytes lib (raw_transaction s) = Inr raw" "read_transaction reader raw = Some v"
      "prepare lib c (to_checksum lib (key_address lib key)) op = Inr p" "reads_as lib c p tx v"
      "review_fees lib c tx = Inr fees" "view_gas v = reviewed_gas fees" "view_max_fee v = reviewed_max_fee fees"
      "view_nonce v < 2 ^ 64 - 1" "transaction_type s = view_type v"
      "maximum_execution_fee_wei s = u256_text lib (reviewed_execution_fee fees)"
    using signed_reading [OF assms] by blast
  then show ?thesis using review_fees_Inr(5) [OF r(5)]
    by (intro exI [of _ raw] exI [of _ v] exI [of _ p]) simp
qed

theorem signed_transaction_reads_back_witness:
  "\<exists>v :: transaction_view. view_nonce v = 7 \<and> view_gas v = 90000 \<and> view_max_fee v = 40 \<and> view_chain v = 31337"
proof -
  obtain s where s: "sign example_zns example_key example_config WithdrawClaims example_transaction = Inr s"
    using example_withdraw_signed ..
  have "chain_id example_config = 31337" by (simp add: example_config_def)
  with signed_transaction_reads_back [OF example_zns_laws example_rlp_reads s] example_nonce example_numbers
  show ?thesis by (auto simp: reads_as_def)
qed

section \<open>Swaps\<close>

text \<open>
  C26: A quoted swap is accepted if and only if its calldata are the canonical encoding, of at most 64 KiB, of
  a swap of exactly the reviewed amount of native ETH for the configured token, for the owner and at
  least the reviewed minimum, without fees, other receivers, permit, token approval or unknown flags.
\<close>

theorem swap_accepted_iff:
  assumes "swap_laws lib"
  shows "validate_swap lib swap_text value_text least_text owner token max_value = Inr data \<longleftrightarrow>
    bytes lib swap_text = Inr data \<and> length data \<le> 65536 \<and>
    (\<exists>ex amount least. swap_typed ex \<and> data = abi_encode lib (SwapCall ex) \<and>
       number lib value_text = Inr amount \<and> number lib least_text = Inr least \<and>
       address lib NATIVE_TOKEN = Inr (src_token (desc ex)) \<and> dst_token (desc ex) = token \<and>
       dst_receiver (desc ex) = owner \<and> 0 < amount \<and> amount \<le> max_value \<and> swap_amount (desc ex) = amount \<and>
       0 < least \<and> least \<le> min_return_amount (desc ex) \<and> swap_flags (desc ex) \<in> {0, 512} \<and>
       permit (desc ex) = [] \<and> fee_receivers (desc ex) = [] \<and> fee_amounts (desc ex) = [] \<and>
       src_receivers (desc ex) = [] \<and> src_amounts (desc ex) = [] \<and> approve_target ex = address_zero \<and>
       call_target ex \<noteq> address_zero)"
proof -
  have "decode_swap_call lib data = Some ex \<and> abi_encode lib (SwapCall ex) = data \<longleftrightarrow>
      swap_typed ex \<and> data = abi_encode lib (SwapCall ex)" for ex
    using assms by (auto simp: swap_laws_def)
  then have "(\<exists>ex. decode_swap_call lib data = Some ex \<and> abi_encode lib (SwapCall ex) = data \<and> R ex) \<longleftrightarrow>
      (\<exists>ex. swap_typed ex \<and> data = abi_encode lib (SwapCall ex) \<and> R ex)" for R
    by metis
  then show ?thesis
    unfolding validate_swap_Inr review_swap_Inr by (simp only: simp_thms ex_simps conj_assoc) simp
qed

definition example_swap :: swap_execution_params where
  "example_swap = \<lparr> call_target = account_of 9, approve_target = address_zero, target_data = [1, 2, 3],
     desc = \<lparr> src_token = account_of 0xee, dst_token = account_of 2, src_receivers = [], src_amounts = [],
       fee_receivers = [], fee_amounts = [], dst_receiver = example_owner, swap_amount = 700, min_return_amount = 400,
       swap_flags = 512, permit = [] \<rparr>,
     client_data = [] \<rparr>"

definition example_intent :: swap_intent where
  "example_intent = \<lparr> swap_data = example_hex_text (example_abi (SwapCall example_swap)), swap_value = decimal_digits 700,
     minimum_output = decimal_digits 400 \<rparr>"

lemma example_native: "address example_zns NATIVE_TOKEN = Inr (account_of 0xee)"
  by code_simp

lemma example_swap_typed: "swap_typed example_swap"
  by (simp add: swap_typed_def example_swap_def example_owner_def address_zero_def)

lemma example_swap_short: "length (example_abi (SwapCall example_swap)) \<le> 65536"
  by (simp add: example_abi_def swap_code_def example_swap_def octets_code_def list_code_def u256_word_def
      example_owner_def address_zero_def)

lemma example_abi_zns: "abi_encode example_zns = example_abi"
  by (simp add: example_zns_def)

lemma example_swap_valid:
  "validate_swap example_zns (swap_data example_intent) (swap_value example_intent) (minimum_output example_intent)
     example_owner (account_of 2) 1000 = Inr (example_abi (SwapCall example_swap))"
proof -
  have "decode_swap_call example_zns (example_abi (SwapCall example_swap)) = Some example_swap"
    using example_swap_laws example_swap_typed by (simp add: swap_laws_def example_abi_zns)
  then show ?thesis
    unfolding validate_swap_Inr review_swap_Inr
    using example_swap_short example_native by (simp add: example_intent_def example_abi_zns) (simp add: example_swap_def)
qed

theorem swap_accepted_iff_witness:
  "\<exists>ex amount. swap_typed ex \<and> example_abi (SwapCall example_swap) = abi_encode example_zns (SwapCall ex) \<and>
     swap_amount (desc ex) = amount \<and> 0 < amount \<and> amount \<le> 1000"
  using swap_accepted_iff [OF example_swap_laws, THEN iffD1, OF example_swap_valid] by blast

section \<open>Registration in one transaction\<close>

text \<open>
  C25: A registration in one transaction is a single call that the account makes to itself, consisting of
  the swap, if one is asked for, an allowance of exactly the deposit ceiling to the registry and the
  registration with that ceiling, in this order. A swap that is asked for is within the reviewed limits,
  and its guaranteed output together with the tokens that the caller declares as held already, no more
  than the ceiling, reaches the ceiling; without a swap no amount is required.
\<close>

theorem atomic_registration_calls:
  assumes "prepare lib c owner_text (AtomicRegister r amount_text swap existing_text) = Inr p"
  shows "\<exists>owner registry token swaps most extra secret deadline.
    address lib owner_text = Inr owner \<and> prepared_to p = to_checksum lib owner \<and> authorization_required p \<and>
    address lib (registry_text c) = Inr registry \<and> address lib (token_text c) = Inr token \<and>
    number lib (reg_max_deposit r) = Inr most \<and> extra < most \<and>
    prepared_data p = hex_text lib (abi_encode lib (ExecuteCall (swaps @
      [\<lparr> execution_target = token, execution_value = 0, execution_data = abi_encode lib (ApproveCall registry most) \<rparr>,
       \<lparr> execution_target = registry, execution_value = 0, execution_data = abi_encode lib (RegisterCall (reg_name r)
          (reg_unified_address r) secret most extra (reg_pricing_mode r) deadline) \<rparr>]) deadline)) \<and>
    (case swap of None \<Rightarrow> swaps = [] | Some intent \<Rightarrow> \<exists>e ex existing. swaps = [e] \<and>
       execution_data e = abi_encode lib (SwapCall ex) \<and>
       may_swap lib c owner token (execution_target e) (execution_value e) ex \<and>
       number lib existing_text = Inr existing \<and> existing \<le> most \<and> most \<le> min_return_amount (desc ex) + existing)"
proof -
  obtain owner registry token target amount data hash where d: "validate_config lib c = Inr ()"
      "address lib owner_text = Inr owner" "address lib (registry_text c) = Inr registry" "address lib (token_text c) = Inr token"
      "prepare_operation lib c owner registry token (AtomicRegister r amount_text swap existing_text) =
        Inr (target, amount, data, hash, authorization_required p)"
      "prepared_to p = to_checksum lib target" "prepared_data p = hex_text lib data"
    using prepare_Inr [OF assms] by blast
  obtain most extra deadline calls where a: "checked_registration lib c r = Inr (most, extra, deadline)"
      "number lib amount_text = Inr most" "target = owner" "authorization_required p"
      "atomic_calls lib c owner registry token r amount_text swap existing_text (most, extra, deadline) = Inr calls"
      "data = abi_encode lib (ExecuteCall calls deadline)"
    using d(5) by (auto simp: prepare_operation_def and_then_eq_Inr split: if_splits)
  have limits: "number lib (reg_max_deposit r) = Inr most" "extra < most"
    using a(1) by (auto simp: checked_registration_def registration_limits_def and_then_eq_Inr split: if_splits)
  obtain first approve register where c: "(case swap of None \<Rightarrow> Inr [] | Some intent \<Rightarrow>
        and_then (atomic_swap lib c owner token amount_text existing_text intent) (\<lambda>e. Inr [e])) = Inr first"
      "approval lib c registry amount_text = Inr approve" "register_call lib r (most, extra, deadline) = Inr register"
      "calls = first @ [\<lparr> execution_target = token, execution_value = 0, execution_data = abi_encode lib approve \<rparr>,
        \<lparr> execution_target = registry, execution_value = 0, execution_data = abi_encode lib register \<rparr>]"
    using a(5) by (auto simp: atomic_calls_def and_then_eq_Inr)
  have approve: "approve = ApproveCall registry most"
    using approval_Inr [OF c(2)] a(2) by auto
  obtain secret where register: "register = RegisterCall (reg_name r) (reg_unified_address r) secret most extra
      (reg_pricing_mode r) deadline"
    using c(3) by (auto simp: register_call_def and_then_eq_Inr)
  have "case swap of None \<Rightarrow> first = [] | Some intent \<Rightarrow> \<exists>e ex existing. first = [e] \<and>
       execution_data e = abi_encode lib (SwapCall ex) \<and>
       may_swap lib c owner token (execution_target e) (execution_value e) ex \<and>
       number lib existing_text = Inr existing \<and> existing \<le> most \<and> most \<le> min_return_amount (desc ex) + existing"
    using c(1) a(2) atomic_swap_Inr [OF validate_config_Inr(2) [OF d(1)]]
    by (fastforce simp: and_then_eq_Inr split: option.splits)
  then show ?thesis
    using d(2-4,6,7) a(3,4,6) limits c(4) approve register
    by (intro exI [of _ owner] exI [of _ registry] exI [of _ token] exI [of _ first] exI [of _ most] exI [of _ extra]
        exI [of _ secret] exI [of _ deadline]) simp
qed

definition example_registration :: registration where
  "example_registration = \<lparr> reg_name = ''alice'', reg_unified_address = ''u1test'',
     reg_secret = example_hex_text (replicate 32 7), reg_max_deposit = decimal_digits 450,
     reg_extra_deposit = decimal_digits 50, reg_pricing_mode = 0, reg_deadline = decimal_digits 99 \<rparr>"

lemma example_registration_checked:
  "checked_registration example_zns example_config example_registration = Inr (450, 50, 99)"
proof -
  have "validate_registration ''alice'' ''u1test'' = Inr ()" by code_simp
  then show ?thesis
    by (simp add: checked_registration_def registration_limits_def example_registration_def example_config_def
        reject_if_def or_else_def)
qed

lemma example_secret: "\<exists>secret. parse_secret example_zns (reg_secret example_registration) = Inr secret"
proof -
  have "parse_b256 example_zns (example_hex_text (replicate 32 7)) = Some (replicate 32 7)"
    using example_fixed_hex_text [of "replicate 32 7" 32] by (simp add: example_zns_def)
  then show ?thesis by (simp add: parse_secret_def example_registration_def replicate_eq_replicate)
qed

lemma example_atomic_prepared:
  "\<exists>p. prepare example_zns example_config (example_hex_text example_owner)
     (AtomicRegister example_registration (decimal_digits 450) (Some example_intent) (decimal_digits 60)) = Inr p"
proof -
  have "reviewed_swap example_zns example_config example_owner (account_of 2) example_intent =
      Inr (account_of 3, example_abi (SwapCall example_swap))"
    using example_swap_valid by (simp add: reviewed_swap_def validate_mainnet_executor_def example_config_def)
  then have "\<exists>e. atomic_swap example_zns example_config example_owner (account_of 2) (decimal_digits 450)
      (decimal_digits 60) example_intent = Inr e"
    by (simp add: atomic_swap_def reject_if_def or_else_def checked_add_def) (simp add: example_intent_def)
  moreover have "\<exists>call. approval example_zns example_config (account_of 1) (decimal_digits 450) = Inr call"
    by (simp add: approval_def example_config_def)
  ultimately have "\<exists>calls. atomic_calls example_zns example_config example_owner (account_of 1) (account_of 2)
      example_registration (decimal_digits 450) (Some example_intent) (decimal_digits 60) (450, 50, 99) = Inr calls"
    using example_secret by (auto simp: atomic_calls_def register_call_def)
  moreover have "example_owner \<noteq> address_zero" "length example_owner = 20" by (simp_all add: example_owner_def byte_of_def)
  ultimately show ?thesis
    using example_config_valid example_registration_checked
    by (auto simp: prepare_def prepare_operation_def) (auto simp: example_config_def)
qed

theorem atomic_registration_calls_witness:
  "\<exists>p e ex extra secret deadline.
     prepare example_zns example_config (example_hex_text example_owner)
       (AtomicRegister example_registration (decimal_digits 450) (Some example_intent) (decimal_digits 60)) = Inr p \<and>
     prepared_data p = hex_text example_zns (abi_encode example_zns (ExecuteCall [e,
       \<lparr> execution_target = account_of 2, execution_value = 0,
         execution_data = abi_encode example_zns (ApproveCall (account_of 1) 450) \<rparr>,
       \<lparr> execution_target = account_of 1, execution_value = 0, execution_data = abi_encode example_zns
          (RegisterCall ''alice'' ''u1test'' secret 450 extra 0 deadline) \<rparr>] deadline)) \<and>
     execution_data e = abi_encode example_zns (SwapCall ex) \<and> 450 \<le> min_return_amount (desc ex) + 60"
proof -
  obtain p where p: "prepare example_zns example_config (example_hex_text example_owner)
     (AtomicRegister example_registration (decimal_digits 450) (Some example_intent) (decimal_digits 60)) = Inr p"
    using example_atomic_prepared ..
  have "number example_zns (reg_max_deposit example_registration) = Inr 450"
    "address example_zns (registry_text example_config) = Inr (account_of 1)"
    "address example_zns (token_text example_config) = Inr (account_of 2)"
    "reg_name example_registration = ''alice''" "reg_unified_address example_registration = ''u1test''"
    "reg_pricing_mode example_registration = 0" "number example_zns (decimal_digits 60) = Inr 60"
    by (simp_all add: example_registration_def example_config_def)
  then obtain e ex extra secret deadline where "prepared_data p = hex_text example_zns (abi_encode example_zns (ExecuteCall [e,
       \<lparr> execution_target = account_of 2, execution_value = 0,
         execution_data = abi_encode example_zns (ApproveCall (account_of 1) 450) \<rparr>,
       \<lparr> execution_target = account_of 1, execution_value = 0, execution_data = abi_encode example_zns
          (RegisterCall ''alice'' ''u1test'' secret 450 extra 0 deadline) \<rparr>] deadline))"
    "execution_data e = abi_encode example_zns (SwapCall ex)" "450 \<le> min_return_amount (desc ex) + 60"
    using atomic_registration_calls [OF p] by auto
  then show ?thesis using p by blast
qed

end
