(* ===== verification/Spec2Isabelle.thy ===== *)
theory Spec2Isabelle
  imports MigrationPolicy Denominations Anchors PrepPlanMain SplitPlanCorrect ScheduleProperties LedgerProperties
    ContactProperties ZnsWallet ZnsProperties
    "HOL-Library.Code_Target_Nat"
begin

text \<open>
  A model of the core of the wallet's Rust code (\<open>rust\<close> of the repository): the Ironwood migration,
  which moves the value of an old shielded pool through canonical, privately scheduled transfers, the
  exchange with a Ledger device that signs the resulting transactions (both in \<open>rust/src/wallet\<close>), the
  signed exchange of addresses between contacts (\<open>rust/contact-core\<close>), and the signing of name
  registrations on the Base chain (\<open>rust/zns-core\<close>).

  The parts and their theories.

  \<^item> \<open>Prelude\<close>: results as sums (\<open>Inl\<close> an error, \<open>Inr\<close> a value; \<open>Panic\<close> of a \<open>failure\<close> is a Rust panic),
    the checked, saturating and wrapping integer operations of a given width, folds and searches.
  \<^item> \<open>MigrationPolicy\<close>: \<open>sync/migration/policy.rs\<close> and the pure part of \<open>preparation_policy.rs\<close>. The
    process-wide fast-testnet flag is the record \<open>policy_state\<close>.
  \<^item> \<open>Denominations\<close>, \<open>Anchors\<close>: \<open>sync/migration/denomination_policy.rs\<close>, canonical values and anchor
    boundaries with their ages, readiness heights and weighted draw.
  \<^item> \<open>PrepPlan\<close>, \<open>PrepPlanner\<close>: \<open>sync/migration/preparation_plan.rs\<close>, the note-preparation planner: exact
    matches, the balanced fan-out, the layered greedy assignment, consolidation of residuals, the
    relabelling of what is left, and the consolidating fallback. \<open>PrepPlanSound\<close>, \<open>PrepPlanSplit\<close>,
    \<open>PrepPlanCorrect\<close> and \<open>PrepPlanMain\<close> prove the invariant of a plan under construction and carry it
    through every phase; \<open>planner_bounds\<close> is the only assumption on the amounts.
  \<^item> \<open>Refinement\<close>, \<open>SplitPlan\<close>, \<open>SplitTranslate\<close>, \<open>SplitPlanCorrect\<close>: \<open>sync/migration/split_plan.rs\<close>, the
    refinement of denominations and the search over candidates, which calls the planner through the
    locale \<open>preparation_planner\<close> and is interpreted on it as \<open>prep\<close>.
  \<^item> \<open>Schedule\<close>, \<open>ScheduleCorrect\<close>, \<open>PreparationHeights\<close>: \<open>sync/migration/schedule.rs\<close> and the drawing of
    preparation heights with their catch-up in \<open>preparation_policy.rs\<close>.
  \<^item> \<open>TimingProjection\<close>, \<open>TimingProjectionCorrect\<close>: the projection of a running migration, the signing
    batches and the targets of preparation outputs of \<open>sync/migration.rs\<close>.
  \<^item> \<open>ScheduleProperties\<close>: the properties of these, with instances.
  \<^item> \<open>LedgerWire\<close>, \<open>LedgerReader\<close>, \<open>LedgerWireCorrect\<close>: \<open>ledger/serializer.rs\<close> with the data of \<open>ledger/parse.rs\<close>;
    a reader of the format is the specification against which the serializer is proved.
  \<^item> \<open>LedgerApdu\<close>, \<open>LedgerPlan\<close>, \<open>LedgerPlanCorrect\<close>: \<open>ledger/apdu.rs\<close> and the checks, plans and responses of
    \<open>ledger/mod.rs\<close>.
  \<^item> \<open>LedgerOperation\<close>: the generation counters of \<open>ledger/mod.rs\<close>, as functions and as the interleaved atomic
    steps of the operation that holds the mutex and of threads that cancel it; the machine that they
    implement (\<open>session_step\<close>) as long as cancels do not overlap, and the run in which overlapping ones fail.
  \<^item> \<open>LedgerProperties\<close>: the properties of the exchange, with instances.
  \<^item> \<open>Utf8\<close>: well-formed UTF-8, for the texts of the device and of the contacts.
  \<^item> \<open>Contacts\<close>, \<open>Introductions\<close>: \<open>contact-core/src/lib.rs\<close> and \<open>introduction.rs\<close>, the signed request and
    response of two contacts, and the four packets (ask, offer, consent, delivery) by which Alice
    introduces Bob to Carol. \<open>ContactsCorrect\<close> states what the code relies on in its crates
    (\<open>library_laws\<close>) and that accepted packets are authentic and fresh, \<open>IntroductionsCorrect\<close> follows one
    consent into the delivery made from it, \<open>IntroductionsComplete\<close> shows that honest parties with
    working keys (\<open>honest\<close>) finish. \<open>ContactExample\<close> is a library with these laws, and
    \<open>ContactProperties\<close> holds the properties, with runs on it.
  \<^item> \<open>ZnsAbi\<close>, \<open>Zns\<close>, \<open>ZnsSign\<close>: \<open>zns-core/src/abi.rs\<close>, \<open>lib.rs\<close> and \<open>transaction.rs\<close>, from the reviewed
    configuration and an operation to the signed bytes. \<open>ZnsWallet\<close>: \<open>wallet/zns.rs\<close> and
    \<open>account_secret.rs\<close>. \<open>ZnsCorrect\<close> states what the code relies on in its crates (\<open>zns_laws\<close>,
    \<open>swap_laws\<close>, \<open>rlp_reads\<close>), the authority that a configuration gives (\<open>may_call\<close>, \<open>may_send\<close>), and a
    reader of transactions against which signing is proved. \<open>ZnsExample\<close> is a library with these laws,
    and \<open>ZnsProperties\<close> holds the properties, with runs on it.

  Correspondence. Names are those of the source where HOL allows. Amounts, heights and counts are
  natural numbers whose width is enforced where the code checks or wraps; bytes and the integers of the
  wire format are words. A loop is a structural recursion or a \<open>function\<close> with its measure. The redraw
  loop of a delay may run for ever, and is a \<open>partial_function\<close> into options; that it returns is proved
  from the generator's eventually yielding an admissible delay.

  Parameters. \<open>mm\<close> is the maximum amount of the library type \<open>Zatoshis\<close>; \<open>tie\<close> the order in which an
  unstable sort leaves equal notes; \<open>next_u32\<close>, \<open>gen_range\<close> and the record \<open>rng\<close> are the random numbers
  (a shuffle is a permutation of positions, the hypothesis \<open>permuting\<close>); \<open>float_ops\<close> are the logarithm and
  the rounding sum of floats; \<open>trusted\<close> is the library's confirmation policy. Rows of the database are
  arguments. \<open>contact_library\<close> holds the JSON, base64, curve, signature and digest functions of the
  contact exchange; its random bytes, the present time and the address validator are arguments.
  \<open>zns_library\<close> holds the address, ABI, digest, RLP and signature functions of the names, and
  \<open>wallet_access\<close> the database and key derivation behind an account.

  Not modelled: SQL statements and schema, network and device I/O, proving, signing and parsing by
  third-party crates, the generated bindings and the user interface.
\<close>

section \<open>The note-preparation planner\<close>

definition example_available :: "nat list" where "example_available = [100, 100, 100]"
definition example_funding :: "nat list" where "example_funding = [100, 150]"
definition example_plan :: preparation_plan where
  "example_plan = \<lparr> plan_layers =
     [[\<lparr> prep_inputs = [WalletNote 1 100, WalletNote 2 100], prep_outputs = [Intermediate 190] \<rparr>],
      [\<lparr> prep_inputs = [PriorNote 0 0 0 190], prep_outputs = [Funding 150, Change 30] \<rparr>]],
     direct_funding = [(0, 100)] \<rparr>"
definition example_mm :: nat where "example_mm = 2100000000000000"

lemma example_bounds: "planner_bounds example_mm 10 (length example_funding)"
  by code_simp

lemma example_planned:
  "plan_preparation example_mm (\<lambda>_ _. 0) example_available example_funding 10 = Inr example_plan"
  by code_simp

text \<open>
  C1: Planning never panics: no internal conversion to a library amount, no sum and no difference
  of the planner can fail, whatever the notes, the requested values and the order among equal
  notes, as long as twice the maximum supply and two fees per requested note fit a \<open>u64\<close>. The only
  outcomes are a plan and the two errors of the code.
\<close>

theorem plan_preparation_never_panics:
  assumes "planner_bounds mm fee (length funding)"
  shows "plan_preparation mm tie available funding fee \<noteq> Inl Panic"
  using plan_preparation_sound [OF assms, of available tie] by auto

theorem plan_preparation_never_panics_witness:
  "plan_preparation example_mm (\<lambda>_ _. 0) example_available example_funding 10 \<noteq> Inl Panic"
  by (rule plan_preparation_never_panics [OF example_bounds])

text \<open>
  C2: A plan mints exactly the requested notes: the funding outputs of its transactions together
  with the wallet notes it uses directly are, as a multiset, the positive requested values.
\<close>

theorem plan_mints_exactly_the_funding:
  assumes "planner_bounds mm fee (length funding)"
    and "plan_preparation mm tie available funding fee = Inr plan"
  shows "mset (funding_notes plan) = mset (filter (\<lambda>v. 0 < v) funding)"
  using planned [OF assms] by (simp add: plan_sound_def)

theorem plan_mints_exactly_the_funding_witness:
  "mset (funding_notes example_plan) = mset (filter (\<lambda>v. 0 < v) example_funding)"
  by (rule plan_mints_exactly_the_funding [OF example_bounds example_planned])

text \<open>
  C3: Every transaction of a plan balances exactly and fits its shape: what its inputs carry is what
  its outputs carry plus the fee, and inputs and outputs together are at most 16 actions.
\<close>

theorem plan_transactions_balance:
  assumes "planner_bounds mm fee (length funding)"
    and "plan_preparation mm tie available funding fee = Inr plan"
    and "tx \<in> set (concat (plan_layers plan))"
  shows "sum_list (map prep_input_value (prep_inputs tx)) =
      sum_list (map prep_output_value (prep_outputs tx)) + fee \<and>
    length (prep_inputs tx) + length (prep_outputs tx) \<le> 16"
  using plan_tx_ok [OF planned [OF assms(1,2)] assms(3)]
  by (simp_all add: tx_ok_def inputs_value_def outputs_value_def action_count_def PREP_TX_ACTIONS_def)

theorem plan_transactions_balance_witness:
  "sum_list (map prep_input_value [WalletNote 1 100, WalletNote 2 100]) =
     sum_list (map prep_output_value [Intermediate 190]) + 10"
proof -
  have "\<lparr> prep_inputs = [WalletNote 1 100, WalletNote 2 100], prep_outputs = [Intermediate 190] \<rparr>
      \<in> set (concat (plan_layers example_plan))" by (simp add: example_plan_def)
  from plan_transactions_balance [OF example_bounds example_planned this] show ?thesis by simp
qed

text \<open>
  C4: The transactions of a plan can be built in the order of its layers: an input is a wallet note of
  the given value that is not used directly, or an intermediate output, of that value, of a
  transaction in an earlier layer.
\<close>

theorem plan_inputs_available:
  assumes "planner_bounds mm fee (length funding)"
    and "plan_preparation mm tie available funding fee = Inr plan"
    and "l < length (plan_layers plan)" "tx \<in> set (plan_layers plan ! l)" "note \<in> set (prep_inputs tx)"
  shows "case note of
      WalletNote i v \<Rightarrow> i < length available \<and> available ! i = v \<and> i \<notin> fst ` set (direct_funding plan)
    | PriorNote l' t p v \<Rightarrow> l' < l \<and> t < length (plan_layers plan ! l') \<and>
        p < length (prep_outputs (plan_layers plan ! l' ! t)) \<and>
        prep_outputs (plan_layers plan ! l' ! t) ! p = Intermediate v"
  by (rule plan_input_cases [OF planned [OF assms(1,2)] assms(3-5)])

theorem plan_inputs_available_witness:
  "prep_outputs (plan_layers example_plan ! 0 ! 0) ! 0 = Intermediate 190"
proof -
  have "1 < length (plan_layers example_plan)"
    "\<lparr> prep_inputs = [PriorNote 0 0 0 190], prep_outputs = [Funding 150, Change 30] \<rparr>
       \<in> set (plan_layers example_plan ! 1)" by (simp_all add: example_plan_def)
  from plan_inputs_available [OF example_bounds example_planned this, of "PriorNote 0 0 0 190"]
  show ?thesis by simp
qed

text \<open>
  C5: No note is spent twice: the references of all inputs of all transactions, together with the
  wallet notes used directly, are pairwise different.
\<close>

theorem plan_spends_once:
  assumes "planner_bounds mm fee (length funding)"
    and "plan_preparation mm tie available funding fee = Inr plan"
  shows "distinct (map (Inl \<circ> fst) (direct_funding plan) @
    map note_ref (concat (map prep_inputs (concat (plan_layers plan)))))"
proof -
  note sound = planned [OF assms]
  have "Inl i \<notin> note_ref ` set (concat (map prep_inputs (concat (plan_layers plan))))"
    if used: "i \<in> fst ` set (direct_funding plan)" for i
  proof
    assume "Inl i \<in> note_ref ` set (concat (map prep_inputs (concat (plan_layers plan))))"
    then obtain l tx n where l: "l < length (plan_layers plan)" "tx \<in> set (plan_layers plan ! l)"
      "n \<in> set (prep_inputs tx)" and n: "Inl i = note_ref n"
      by (auto simp: in_set_conv_nth [of _ "plan_layers plan"])
    from plan_input_cases [OF sound l] show False
      using n used by (cases n rule: prep_input.exhaust) auto
  qed
  moreover have "distinct (map (Inl \<circ> fst) (direct_funding plan))"
    using sound by (simp add: plan_sound_def distinct_map comp_inj_on_iff [symmetric] inj_on_def)
  ultimately show ?thesis
    using sound by (auto simp: plan_sound_def plan_ok_def plan_inputs_def)
qed

theorem plan_spends_once_witness:
  "distinct (map (Inl \<circ> fst) (direct_funding example_plan) @
    map note_ref (concat (map prep_inputs (concat (plan_layers example_plan)))))"
  by (rule plan_spends_once [OF example_bounds example_planned])

text \<open>
  C6: A plan neither creates nor loses value: the wallet notes its transactions spend are worth what
  they mint, the change they leave and their fees; no intermediate output is left unspent.
\<close>

theorem plan_conserves_value:
  assumes "planner_bounds mm fee (length funding)"
    and "plan_preparation mm tie available funding fee = Inr plan"
  shows "wallet_spent (plan_layers plan) =
      sum_list (List.map_filter funding_value (all_outputs (plan_layers plan))) +
      sum_list (residual_notes plan) + fee * transaction_count plan \<and>
    (\<forall>(position, out) \<in> set (located_outputs (plan_layers plan)).
       case out of Intermediate _ \<Rightarrow> position \<in> set (spent_positions (plan_layers plan)) | _ \<Rightarrow> True)"
  using planned [OF assms] finished_conservation
  unfolding plan_sound_def by (auto simp: no_dangling_def)

theorem plan_conserves_value_witness:
  "wallet_spent (plan_layers example_plan) = 150 + 30 + 10 * 2"
proof -
  have "List.map_filter funding_value (all_outputs (plan_layers example_plan)) = [150]"
    "residual_notes example_plan = [30]" "transaction_count example_plan = 2" by code_simp+
  then show ?thesis
    using plan_conserves_value [OF example_bounds example_planned] by simp
qed

text \<open>
  C7: The order in which the values are requested does not matter, so shuffled requests get the same
  plan and leak nothing through it.
\<close>

theorem plan_ignores_request_order:
  assumes "mset funding = mset funding'"
  shows "plan_preparation mm tie available funding fee = plan_preparation mm tie available funding' fee"
  by (rule plan_preparation_order [OF assms])

theorem plan_ignores_request_order_witness:
  "plan_preparation example_mm (\<lambda>_ _. 0) example_available [150, 100] 10 = Inr example_plan"
proof -
  have "mset [150, 100] = mset example_funding" by (simp add: example_funding_def add_mset_commute)
  from plan_ignores_request_order [OF this] show ?thesis by (simp only: example_planned)
qed

text \<open>
  The cost the fan-out computes for a list of targets is exact and its tree is small: the value
  needed is the targets plus one fee per transaction, and \<open>n\<close> targets take between one and
  \<open>2 n - 1\<close> transactions.
\<close>

theorem subtree_cost_exact:
  assumes "targets \<noteq> []" "sum_list targets + fee * (2 * length targets) < 2 ^ 64" "2 * length targets < 2 ^ 64"
  shows "\<exists>txs. subtree_cost targets fee = Inr (txs, sum_list targets + fee * txs) \<and>
    0 < txs \<and> txs \<le> 2 * length targets - 1"
  using subtree_cost_priced [of targets fee] assms by (auto simp: priced_def tree_bounds_def)

theorem subtree_cost_exact_witness:
  "\<exists>txs. subtree_cost [5, 6, 7] 10 = Inr (txs, 18 + 10 * txs) \<and> 0 < txs \<and> txs \<le> 5"
  using subtree_cost_exact [of "[5, 6, 7]" 10] by simp

section \<open>Denominations and anchors\<close>

text \<open>
  C8: The denomination search returns the largest value \<open>d * 10 ^ k\<close>, \<open>d\<close> one of 1, 2, 5, from 0.01
  to 10000 ZEC that does not exceed its argument, and nothing below 0.01 ZEC.
\<close>

theorem largest_denomination_correct:
  "largest_zip318_denomination_at_or_below v =
     (let ds = filter (\<lambda>d. d \<le> v)
        (10 ^ 12 # concat (map (\<lambda>k. [10 ^ k, 2 * 10 ^ k, 5 * 10 ^ k]) [6..<12]))
      in if ds = [] then None else Some (Max (set ds)))"
proof -
  let ?all = "10 ^ 12 # concat (map (\<lambda>k. [10 ^ k, 2 * 10 ^ k, 5 * 10 ^ k]) [6..<12]) :: nat list"
  have all: "set ?all = set zip318_denominations"
    by (simp add: zip318_denominations_eval upt_conv_Cons) blast
  show ?thesis
  proof (cases "largest_zip318_denomination_at_or_below v")
    case None
    then have "\<forall>d \<in> set ?all. \<not> d \<le> v"
      unfolding all using denomination_bounds by (force simp: largest_denomination_None)
    then have "filter (\<lambda>d. d \<le> v) ?all = []" by (simp only: filter_False)
    then show ?thesis using None by (simp only: Let_def if_P [OF refl])
  next
    case (Some d)
    let ?ds = "filter (\<lambda>d. d \<le> v) ?all"
    have d: "d \<in> set ?ds" "\<forall>e \<in> set ?ds. e \<le> d"
      using Some unfolding largest_denomination_Some set_filter all by auto
    then have "Max (set ?ds) = d" by (intro Max_eqI) auto
    moreover have "?ds \<noteq> []" using d(1) by (metis empty_iff empty_set)
    ultimately show ?thesis using Some by (simp only: Let_def if_not_P not_False_eq_True)
  qed
qed

text \<open>
  C9: Planning one balance is greedy and conserves it: the outputs are canonical and descending, with
  their fees and the split fee they make up the balance with a remainder too small for another
  output, and the remainder is the change unless it is below the minimum.
\<close>

theorem plan_denominations_correct:
  assumes "balance < 2 ^ 64" "split_fee < balance"
  shows "\<exists>plan remaining. plan_denominations balance split_fee fee minimum = Inr plan \<and>
    (\<forall>d \<in> set (migration_outputs plan). is_zip318_canonical_denomination d) \<and>
    sorted_wrt (\<ge>) (migration_outputs plan) \<and>
    balance = split_fee + sum_list (migration_outputs plan) + length (migration_outputs plan) * fee + remaining \<and>
    remaining < fee + 1000000 \<and>
    orchard_change plan = (if minimum \<le> remaining then Some remaining else None)"
proof -
  obtain plan remaining where plan: "plan_denominations balance split_fee fee minimum = Inr plan"
    and split: "greedy_split fee (balance - split_fee) (migration_outputs plan) remaining"
    and change: "orchard_change plan = (if minimum \<le> remaining then Some remaining else None)"
    using plan_denominations_spec [OF assms(1), of split_fee fee minimum] assms(2) by auto
  have "balance = split_fee + sum_list (migration_outputs plan) + length (migration_outputs plan) * fee + remaining"
    using split assms(2) unfolding greedy_split_def by linarith
  with plan split change show ?thesis unfolding greedy_split_def by blast
qed

theorem plan_denominations_correct_witness:
  "\<exists>plan remaining. plan_denominations 123456789 80000 15000 1 = Inr plan \<and>
    (\<forall>d \<in> set (migration_outputs plan). is_zip318_canonical_denomination d) \<and>
    sorted_wrt (\<ge>) (migration_outputs plan) \<and>
    123456789 = 80000 + sum_list (migration_outputs plan) + length (migration_outputs plan) * 15000 + remaining \<and>
    remaining < 15000 + 1000000 \<and>
    orchard_change plan = (if 1 \<le> remaining then Some remaining else None)"
  by (rule plan_denominations_correct) simp_all

text \<open>
  C10: The two ways in which the code tells the admissible anchor boundaries agree: a boundary is in
  the list of candidates exactly when the predicate accepts it.
\<close>

theorem anchor_candidates_agree:
  assumes "activation + 1 < 2 ^ 32"
  shows "b \<in> set (zip318_anchor_candidate_boundaries_with_policy network policy observed mined activation)
    \<longleftrightarrow> zip318_anchor_boundary_is_candidate_with_policy network policy b observed mined activation"
  by (rule candidate_iff_is_candidate [OF assms])

theorem anchor_candidates_agree_witness:
  "288 \<in> set (zip318_anchor_candidate_boundaries_with_policy Main Standard 500 200 100)"
proof -
  have "zip318_anchor_boundary_is_candidate_with_policy Main Standard 288 500 200 100" by code_simp
  then show ?thesis using anchor_candidates_agree [of 100 288 Main Standard 500 200] by simp
qed

text \<open>
  C11: The proof-ready height is exact: it is the first scanned height at which, the required
  confirmations deep, a note mined after the activation has an admissible anchor.
\<close>

theorem proof_ready_height_exact:
  assumes "activation + 1 < 2 ^ 32" "activation < mined"
    and "proof_ready_height_for_note_mined_height trusted network policy mined = Inr h"
  shows "zip318_anchor_candidate_boundaries_with_policy network policy observed mined activation \<noteq> []
    \<longleftrightarrow> h \<le> observed + (trusted - 1)"
proof -
  obtain c where c: "anchor_boundary_containing_note_with_policy network policy mined = Inr c"
    and h: "h = c + anchor_bucket_modulus network policy * anchor_bucket_min_age network policy + (trusted - 1)"
    using assms(3) by (auto simp: proof_ready_Inr)
  have "activation < c" using containing_boundary(2) [OF c] assms(2) by simp
  from candidates_nonempty_iff [OF assms(1) c this] show ?thesis by (simp add: h)
qed

theorem proof_ready_height_exact_witness:
  "zip318_anchor_candidate_boundaries_with_policy Main Standard 432 200 100 \<noteq> []"
proof -
  have "proof_ready_height_for_note_mined_height 3 Main Standard 200 = Inr 434" by code_simp
  from proof_ready_height_exact [OF _ _ this, of 100 432] show ?thesis by simp
qed

text \<open>
  C12: Drawing an anchor follows the published weights: among the numbers below the total weight, a
  candidate is drawn by exactly \<open>2 ^ (4 - age)\<close> of them.
\<close>

theorem anchor_draw_frequencies:
  assumes "zip318_anchor_boundary_at_or_before_with_policy network policy observed = Some latest"
    and "distinct bs"
    and "set bs \<subseteq> set (zip318_anchor_candidate_boundaries_with_policy network policy observed mined activation)"
    and "b \<in> set bs" "zip318_anchor_boundary_age network policy latest b = Some age"
  shows "card {t. t < sum_list (map (boundary_weight network policy latest) bs) \<and>
      zip318_draw_anchor_boundary_from_available_with_policy (\<lambda>_. t) network policy observed bs = Some b}
    = 2 ^ (4 - age)"
  using draw_anchor_count [OF assms(1-4)] assms(5) by (simp add: boundary_weight_def)

theorem anchor_draw_frequencies_witness:
  "card {t. t < 12 \<and>
     zip318_draw_anchor_boundary_from_available_with_policy (\<lambda>_. t) Main Standard 500 [288, 144] = Some 288} = 8"
proof -
  have facts: "zip318_anchor_boundary_at_or_before_with_policy Main Standard 500 = Some 432" "distinct [288, 144 :: nat]"
    "set [288, 144] \<subseteq> set (zip318_anchor_candidate_boundaries_with_policy Main Standard 500 100 50)"
    "288 \<in> set [288, 144 :: nat]" "zip318_anchor_boundary_age Main Standard 432 288 = Some 1" by code_simp+
  have "sum_list (map (boundary_weight Main Standard 432) [288, 144]) = 12" by code_simp
  then show ?thesis using anchor_draw_frequencies [OF facts] by simp
qed

text \<open>The stored name of a timing policy is read back as that policy, and no other text is.\<close>

theorem timing_policy_names:
  "timing_policy_from_str s = Inr p \<longleftrightarrow> s = timing_policy_as_str p"
  by (rule timing_policy_from_str_Inr)

section \<open>Split plans\<close>

definition example_words :: "nat \<Rightarrow> nat \<times> nat" where "example_words g = (g mod 100, g + 37)"
definition example_inputs :: "nat list" where "example_inputs = [0, 3200000, 1015000]"
definition example_padded :: padded_denomination_plan where
  "example_padded = \<lparr>
     padded_denominations = \<lparr> migration_outputs = [2000000, 2000000], orchard_change = Some 25000,
       split_fee_zatoshi = 160000, migration_fee_zatoshi = 15000, total_input_zatoshi = 4215000,
       total_migratable_zatoshi = 4000000 \<rparr>,
     padded_stages =
       [\<lparr> stage_layer_index = 0, stage_inputs = [Original 1 3200000, Original 2 1015000],
          stage_outputs = [\<lparr> out_value = 4135000, out_kind = Continuation, out_part_index = None \<rparr>],
          stage_fee = 80000, requested_actions = 3 \<rparr>,
        \<lparr> stage_layer_index = 1, stage_inputs = [Prior 0 0 4135000],
          stage_outputs = [\<lparr> out_value = 2015000, out_kind = Migration, out_part_index = Some 0 \<rparr>,
                           \<lparr> out_value = 2015000, out_kind = Migration, out_part_index = Some 1 \<rparr>,
                           \<lparr> out_value = 25000, out_kind = OrchardChange, out_part_index = None \<rparr>],
          stage_fee = 80000, requested_actions = 4 \<rparr>],
     padded_layer_count = 2, direct_migration_inputs = [] \<rparr>"

lemma example_padded_planned:
  "plan_padded_denominations_with_policy_and_rng example_mm (\<lambda>_ _. 0) example_words
     AGGRESSIVE_REFINEMENT_POLICY 0 example_inputs 80000 15000 1 = Inr (Some example_padded)"
  by code_simp

text \<open>
  C13: An approved plan can be replayed: planning again for the denominations of a plan, without any
  randomness, gives the same plan, stage by stage.
\<close>

theorem approved_plan_replays:
  assumes "plan_padded_denominations_with_policy_and_rng mm tie next_u32 policy g inputs fee migration_fee minimum
    = Inr (Some plan)"
  shows "plan_padded_denominations_for_targets mm tie inputs (migration_outputs (padded_denominations plan))
    fee migration_fee minimum = Inr (Some plan)"
  unfolding plan_padded_denominations_for_targets_def
  by (rule prep.replay [OF assms [unfolded plan_padded_denominations_with_policy_and_rng_def]])

theorem approved_plan_replays_witness:
  "plan_padded_denominations_for_targets example_mm (\<lambda>_ _. 0) example_inputs [2000000, 2000000] 80000 15000 1
     = Inr (Some example_padded)"
  using approved_plan_replays [OF example_padded_planned] by (simp add: example_padded_def)

text \<open>
  C14: What a finished split plan guarantees: its outputs are canonical and descending; they, their
  fees, the preparation fees and the change are exactly the selected notes; every stage balances,
  spends earlier stages or selected notes only and has at most 16 actions; and every part is produced
  exactly once, by a stage output or by a note used directly, with its funding value.
\<close>

theorem split_plan_guarantees:
  assumes "plan_padded_denominations_with_policy_and_rng mm tie next_u32 policy g inputs fee migration_fee minimum
      = Inr (Some plan)"
    and "planner_bounds mm fee (sum_list inputs div 1000000)"
  shows "\<exists>ctx. make_planning_context mm inputs fee minimum = Inr (Some ctx) \<and>
    migration_plan_ok inputs fee migration_fee ctx plan"
  by (rule prep.plan_guarantees [OF assms(1) [unfolded plan_padded_denominations_with_policy_and_rng_def] assms(2)])

theorem split_plan_guarantees_witness:
  "\<exists>ctx. make_planning_context example_mm example_inputs 80000 1 = Inr (Some ctx) \<and>
    migration_plan_ok example_inputs 80000 15000 ctx example_padded"
proof -
  have "planner_bounds example_mm 80000 (sum_list example_inputs div 1000000)" by code_simp
  from split_plan_guarantees [OF example_padded_planned this] show ?thesis .
qed

text \<open>
  Refining a denomination offers only splits of it: at most 26 candidates, each a descending list
  of canonical values adding up to the denomination, the most split ones first and the unsplit
  denomination itself among them.
\<close>

theorem refinement_candidates_split_value:
  assumes "is_zip318_canonical_denomination d"
  shows "\<exists>cs. refinement_candidates (fst (refine_denomination next_u32 policy d g)) = Inr cs \<and>
    length cs \<le> 26 \<and> [d] \<in> set cs \<and>
    sorted_wrt (\<lambda>a b. length b \<le> length a) cs \<and>
    (\<forall>c \<in> set cs. c \<noteq> [] \<and> sum_list c = d \<and> sorted_wrt (\<ge>) c \<and>
       (\<forall>v \<in> set c. is_zip318_canonical_denomination v))"
proof -
  let ?r = "fst (refine_denomination next_u32 policy d g)"
  obtain cs where cs: "refinement_candidates ?r = Inr cs" "length cs \<le> candidate_bound d" "refinement_value ?r = d"
    using refine_denomination_refines(1) [OF assms, of next_u32 policy g] by (auto simp: refines_def)
  then show ?thesis
    using root_candidate [OF cs(1)] refinement_candidates_order [OF cs(1)] refinement_candidates_split [OF cs(1)]
    by (auto simp: splits_of_def candidate_bound_def split: if_splits)
qed

theorem refinement_candidates_split_value_witness:
  "\<exists>cs. refinement_candidates (fst (refine_denomination example_words AGGRESSIVE_REFINEMENT_POLICY 1000000000000 0))
      = Inr cs \<and> length cs \<le> 26 \<and> [1000000000000] \<in> set cs"
proof -
  have "is_zip318_canonical_denomination 1000000000000" by code_simp
  from refinement_candidates_split_value [OF this, of example_words AGGRESSIVE_REFINEMENT_POLICY 0]
  show ?thesis by blast
qed

end
